(* ===== verification/Go_Prelude.thy ===== *)
theory Go_Prelude
  imports Main "HOL-Library.Sublist" "HOL-Library.Word" "HOL-Library.AList"
begin

text \<open>
  The part of the Go language and of its standard library that the packages of strela use:
  byte strings and the functions of package \<^verbatim>\<open>strings\<close>, decimal formatting, error values with
  wrapping (package \<^verbatim>\<open>errors\<close>), time and durations. The lemma collections of the development
  are declared here.

  A Go string is a sequence of bytes, a \<^typ>\<open>string\<close> of 8-bit characters. The case mappings and
  the trimming of white space follow the library on ASCII bytes and leave the bytes from 128 on
  unchanged: the Unicode tables are outside the model. Times and durations are integers that count
  nanoseconds.
\<close>

named_theorems strela_defs "definitions of the model unfolded together in component proofs"
named_theorems strela_inv "preservation of component invariants by single operations"

section \<open>Strings\<close>

subsection \<open>Case mapping\<close>

definition lower_char :: "char \<Rightarrow> char" where
  "lower_char c =
     (if (65::nat) \<le> of_char c \<and> of_char c \<le> (90::nat) then char_of (of_char c + 32 :: nat) else c)"

definition upper_char :: "char \<Rightarrow> char" where
  "upper_char c =
     (if (97::nat) \<le> of_char c \<and> of_char c \<le> (122::nat) then char_of (of_char c - 32 :: nat) else c)"

definition ToLower :: "string \<Rightarrow> string" where
  "ToLower s = map lower_char s"

definition ToUpper :: "string \<Rightarrow> string" where
  "ToUpper s = map upper_char s"

definition EqualFold :: "string \<Rightarrow> string \<Rightarrow> bool" where
  "EqualFold s t \<longleftrightarrow> ToLower s = ToLower t"

lemma of_char_lower_char:
  "(of_char (lower_char c) :: nat) =
     (if 65 \<le> (of_char c :: nat) \<and> (of_char c :: nat) \<le> 90 then of_char c + 32 else of_char c)"
  by (simp add: lower_char_def)

lemma lower_char_idem [simp]: "lower_char (lower_char c) = lower_char c"
proof -
  have "(of_char (lower_char (lower_char c)) :: nat) = of_char (lower_char c)"
    by (simp add: of_char_lower_char)
  then show ?thesis by (simp only: of_char_eq_iff)
qed

lemma ToLower_idem [simp]: "ToLower (ToLower s) = ToLower s"
  by (simp add: ToLower_def)

lemma length_ToLower [simp]: "length (ToLower s) = length s"
  by (simp add: ToLower_def)

lemma length_ToUpper [simp]: "length (ToUpper s) = length s"
  by (simp add: ToUpper_def)

lemma ToLower_Nil [simp]: "ToLower [] = []"
  by (simp add: ToLower_def)

lemma ToLower_append [simp]: "ToLower (s @ t) = ToLower s @ ToLower t"
  by (simp add: ToLower_def)

lemma ToUpper_append [simp]: "ToUpper (s @ t) = ToUpper s @ ToUpper t"
  by (simp add: ToUpper_def)

lemma ToLower_eq_Nil [simp]: "ToLower s = [] \<longleftrightarrow> s = []"
  by (simp add: ToLower_def)

lemma Nil_eq_ToLower [simp]: "[] = ToLower s \<longleftrightarrow> s = []"
  by (simp add: ToLower_def)

lemma EqualFold_refl [simp]: "EqualFold s s"
  by (simp add: EqualFold_def)

lemma EqualFold_ToLower [simp]: "EqualFold (ToLower s) s"
  by (simp add: EqualFold_def)

subsection \<open>Searching\<close>

definition Contains :: "string \<Rightarrow> string \<Rightarrow> bool" where
  "Contains s sub \<longleftrightarrow> sublist sub s"

definition HasPrefix :: "string \<Rightarrow> string \<Rightarrow> bool" where
  "HasPrefix s p \<longleftrightarrow> prefix p s"

text \<open>The index functions of Go return \<open>-1\<close> where these return \<^const>\<open>None\<close>.\<close>

fun Index :: "string \<Rightarrow> string \<Rightarrow> nat option" where
  "Index [] sub = (if sub = [] then Some 0 else None)"
| "Index (c # s) sub = (if prefix sub (c # s) then Some 0 else map_option Suc (Index s sub))"

fun IndexByte :: "string \<Rightarrow> char \<Rightarrow> nat option" where
  "IndexByte [] c = None"
| "IndexByte (x # s) c = (if x = c then Some 0 else map_option Suc (IndexByte s c))"

fun LastIndexByte :: "string \<Rightarrow> char \<Rightarrow> nat option" where
  "LastIndexByte [] c = None"
| "LastIndexByte (x # s) c =
     (case LastIndexByte s c of
        Some i \<Rightarrow> Some (Suc i)
      | None \<Rightarrow> if x = c then Some 0 else None)"

definition CountByte :: "string \<Rightarrow> char \<Rightarrow> nat" where
  "CountByte s c = length (filter (\<lambda>x. x = c) s)"

definition ContainsAny :: "string \<Rightarrow> string \<Rightarrow> bool" where
  "ContainsAny s cs \<longleftrightarrow> list_ex (\<lambda>c. c \<in> set cs) s"

text \<open>The keyword loops of the source: does any keyword of the list occur in the text?\<close>

definition contains_any :: "string \<Rightarrow> string list \<Rightarrow> bool" where
  "contains_any s kws \<longleftrightarrow> list_ex (Contains s) kws"

lemma Contains_refl [simp]: "Contains s s"
  by (simp add: Contains_def)

lemma Contains_Nil [simp]: "Contains s []"
  by (simp add: Contains_def)

lemma Contains_append_left: "Contains t sub \<Longrightarrow> Contains (s @ t) sub"
  by (auto simp: Contains_def sublist_append)

lemma contains_any_Nil [simp]: "\<not> contains_any s []"
  by (simp add: contains_any_def)

lemma contains_any_Cons [simp]: "contains_any s (k # ks) \<longleftrightarrow> Contains s k \<or> contains_any s ks"
  by (simp add: contains_any_def)

lemma IndexByte_None_iff [simp]: "IndexByte s c = None \<longleftrightarrow> c \<notin> set s"
  by (induction s) auto

lemma IndexByte_Some: "IndexByte s c = Some i \<Longrightarrow> i < length s \<and> s ! i = c \<and> c \<notin> set (take i s)"
  by (induction s arbitrary: i) (auto split: if_splits)

lemma LastIndexByte_None_iff [simp]: "LastIndexByte s c = None \<longleftrightarrow> c \<notin> set s"
  by (induction s) (auto split: option.splits)

lemma LastIndexByte_Some:
  "LastIndexByte s c = Some i \<Longrightarrow> i < length s \<and> s ! i = c \<and> c \<notin> set (drop (Suc i) s)"
  by (induction s arbitrary: i) (auto split: option.splits if_splits)

lemma LastIndexByte_append:
  "c \<notin> set t \<Longrightarrow> LastIndexByte (s @ c # t) c = Some (length s)"
  by (induction s) (auto split: option.splits)

lemma CountByte_zero_iff: "CountByte s c = 0 \<longleftrightarrow> c \<notin> set s"
  by (auto simp: CountByte_def filter_empty_conv)

lemma CountByte_append [simp]: "CountByte (s @ t) c = CountByte s c + CountByte t c"
  by (simp add: CountByte_def)

lemma CountByte_Cons [simp]:
  "CountByte (x # t) c = (if x = c then Suc (CountByte t c) else CountByte t c)"
  by (simp add: CountByte_def)

lemma CountByte_Nil [simp]: "CountByte [] c = 0"
  by (simp add: CountByte_def)

lemma IndexByte_append:
  "c \<notin> set s \<Longrightarrow> IndexByte (s @ c # t) c = Some (length s)"
  by (induction s) auto

subsection \<open>Prefixes, suffixes and trimming\<close>

definition TrimPrefix :: "string \<Rightarrow> string \<Rightarrow> string" where
  "TrimPrefix s p = (if prefix p s then drop (length p) s else s)"

definition TrimSuffix :: "string \<Rightarrow> string \<Rightarrow> string" where
  "TrimSuffix s p = (if suffix p s then take (length s - length p) s else s)"

definition trim_left_by :: "(char \<Rightarrow> bool) \<Rightarrow> string \<Rightarrow> string" where
  "trim_left_by P s = dropWhile P s"

definition trim_right_by :: "(char \<Rightarrow> bool) \<Rightarrow> string \<Rightarrow> string" where
  "trim_right_by P s = rev (dropWhile P (rev s))"

definition Trim :: "string \<Rightarrow> string \<Rightarrow> string" where
  "Trim s cutset = trim_right_by (\<lambda>c. c \<in> set cutset) (trim_left_by (\<lambda>c. c \<in> set cutset) s)"

definition TrimRight :: "string \<Rightarrow> string \<Rightarrow> string" where
  "TrimRight s cutset = trim_right_by (\<lambda>c. c \<in> set cutset) s"

definition is_space :: "char \<Rightarrow> bool" where
  "is_space c \<longleftrightarrow> (9::nat) \<le> of_char c \<and> of_char c \<le> (13::nat) \<or> of_char c = (32::nat)"

definition TrimSpace :: "string \<Rightarrow> string" where
  "TrimSpace s = trim_right_by is_space (trim_left_by is_space s)"

lemma trim_left_by_id: "s = [] \<or> \<not> P (hd s) \<Longrightarrow> trim_left_by P s = s"
  by (cases s) (auto simp: trim_left_by_def)

lemma trim_right_by_id: "s = [] \<or> \<not> P (last s) \<Longrightarrow> trim_right_by P s = s"
  by (cases s rule: rev_cases) (auto simp: trim_right_by_def)

lemma Trim_id: "set s \<inter> set cs = {} \<Longrightarrow> Trim s cs = s"
  by (cases "s = []")
     (auto simp: Trim_def trim_left_by_id trim_right_by_id disjoint_iff)

lemma TrimSpace_id: "\<forall>c\<in>set s. \<not> is_space c \<Longrightarrow> TrimSpace s = s"
  by (cases "s = []") (auto simp: TrimSpace_def trim_left_by_id trim_right_by_id)

subsection \<open>Splitting and joining\<close>

fun SplitN :: "string \<Rightarrow> string \<Rightarrow> nat \<Rightarrow> string list" where
  "SplitN s sep 0 = []"
| "SplitN s sep (Suc 0) = [s]"
| "SplitN s sep (Suc (Suc n)) =
     (case Index s sep of
        None \<Rightarrow> [s]
      | Some i \<Rightarrow> take i s # SplitN (drop (i + length sep) s) sep (Suc n))"

lemma Index_bound: "Index s sub = Some i \<Longrightarrow> i + length sub \<le> length s"
  by (induction s arbitrary: i) (auto split: if_splits dest: prefix_length_le)

text \<open>\<open>strings.Split\<close>; an empty separator splits into single bytes.\<close>

function Split :: "string \<Rightarrow> string \<Rightarrow> string list" where
  "Split s sep =
     (if sep = [] then map (\<lambda>c. [c]) s
      else case Index s sep of
             None \<Rightarrow> [s]
           | Some i \<Rightarrow> take i s # Split (drop (i + length sep) s) sep)"
  by pat_completeness auto
termination
proof (relation "measure (\<lambda>(s, sep). length s)", goal_cases)
  case 1
  show ?case by simp
next
  case (2 s sep i)
  then show ?case
    using Index_bound [of s sep i] by (cases sep) auto
qed

declare Split.simps [simp del]

fun Join :: "string list \<Rightarrow> string \<Rightarrow> string" where
  "Join [] sep = []"
| "Join [x] sep = x"
| "Join (x # y # ys) sep = x @ sep @ Join (y # ys) sep"

lemma Index_sep:
  assumes "sep \<noteq> []" and "hd sep \<notin> set p"
  shows "Index (p @ sep @ r) sep = Some (length p)"
  using assms(2)
proof (induction p)
  case Nil
  with assms(1) show ?case by (cases sep) auto
next
  case (Cons x p)
  with assms(1) show ?case by (cases sep) auto
qed

lemma SplitN_sep:
  "sep \<noteq> [] \<Longrightarrow> hd sep \<notin> set p \<Longrightarrow>
     SplitN (p @ sep @ r) sep (Suc (Suc n)) = p # SplitN r sep (Suc n)"
  by (simp add: Index_sep)

lemma Index_Some_iff_Contains: "(\<exists>i. Index s sub = Some i) \<longleftrightarrow> Contains s sub"
proof (induction s)
  case Nil
  show ?case by (simp add: Contains_def)
next
  case (Cons c s)
  then show ?case
    by (cases sub) (auto simp: Contains_def sublist_Cons_right)
qed

lemma Index_None_iff: "Index s sub = None \<longleftrightarrow> \<not> Contains s sub"
  using Index_Some_iff_Contains [of s sub] by (cases "Index s sub") auto

lemma Index_split:
  "Index s sub = Some i \<Longrightarrow> s = take i s @ sub @ drop (i + length sub) s"
proof (induction s arbitrary: i)
  case Nil
  then show ?case by (auto split: if_splits)
next
  case (Cons c s)
  show ?case
  proof (cases "prefix sub (c # s)")
    case True
    with Cons.prems show ?thesis by (auto elim!: prefixE)
  next
    case False
    with Cons.prems obtain j where "Index s sub = Some j" and "i = Suc j"
      by auto
    with Cons.IH show ?thesis by simp
  qed
qed

lemma Split_Nil_free: "sep \<noteq> [] \<Longrightarrow> Split s sep \<noteq> []"
  by (subst Split.simps) (auto split: option.splits)

lemma Join_Split: "sep \<noteq> [] \<Longrightarrow> Join (Split s sep) sep = s"
proof (induction s sep rule: Split.induct)
  case (1 s sep)
  show ?case
  proof (cases "Index s sep")
    case None
    with 1 show ?thesis by (subst Split.simps) simp
  next
    case (Some i)
    let ?r = "drop (i + length sep) s"
    from 1 Some have IH: "Join (Split ?r sep) sep = ?r" by simp
    from 1 have "Split ?r sep \<noteq> []" by (simp add: Split_Nil_free)
    then have "Join (take i s # Split ?r sep) sep = take i s @ sep @ ?r"
      using IH by (cases "Split ?r sep") auto
    also have "\<dots> = s" using Index_split [OF Some] by simp
    finally show ?thesis using 1 Some by (subst Split.simps) simp
  qed
qed

function ReplaceAll :: "string \<Rightarrow> string \<Rightarrow> string \<Rightarrow> string" where
  "ReplaceAll s old new =
     (if old = [] then s
      else case Index s old of
             None \<Rightarrow> s
           | Some i \<Rightarrow> take i s @ new @ ReplaceAll (drop (i + length old) s) old new)"
  by pat_completeness auto
termination
proof (relation "measure (\<lambda>(s, old, new). length s)", goal_cases)
  case 1
  show ?case by simp
next
  case (2 s old new i)
  then show ?case
    using Index_bound [of s old i] by (cases old) auto
qed

declare ReplaceAll.simps [simp del]

lemma ReplaceAll_absent: "\<not> Contains s old \<Longrightarrow> ReplaceAll s old new = s"
  by (subst ReplaceAll.simps) (simp add: Index_None_iff [THEN iffD2])

subsection \<open>Decimal formatting and parsing\<close>

definition digit_char :: "nat \<Rightarrow> char" where
  "digit_char n = char_of (48 + n)"

fun nat_digits :: "nat \<Rightarrow> string" where
  "nat_digits n = (if n < 10 then [digit_char n] else nat_digits (n div 10) @ [digit_char (n mod 10)])"

declare nat_digits.simps [simp del]

text \<open>\<open>%d\<close> of package \<^verbatim>\<open>fmt\<close> and \<open>strconv.Itoa\<close>.\<close>

definition Itoa :: "int \<Rightarrow> string" where
  "Itoa i = (if i < 0 then CHR ''-'' # nat_digits (nat (- i)) else nat_digits (nat i))"

definition is_digit :: "char \<Rightarrow> bool" where
  "is_digit c \<longleftrightarrow> (48::nat) \<le> of_char c \<and> of_char c \<le> (57::nat)"

definition digits_value :: "string \<Rightarrow> nat" where
  "digits_value s = foldl (\<lambda>a c. 10 * a + (of_char c - 48)) 0 s"

text \<open>\<open>strconv.Atoi\<close> for numbers that fit an \<open>int\<close>: an optional sign, then digits.\<close>

definition Atoi :: "string \<Rightarrow> int option" where
  "Atoi s =
     (let neg = (s \<noteq> [] \<and> hd s = CHR ''-'');
          body = (if s \<noteq> [] \<and> (hd s = CHR ''-'' \<or> hd s = CHR ''+'') then tl s else s)
      in if body = [] \<or> \<not> list_all is_digit body then None
         else Some (if neg then - int (digits_value body) else int (digits_value body)))"

section \<open>Error values\<close>

text \<open>
  The sentinel errors that the code compares with \<open>==\<close> or \<open>errors.Is\<close>, and the error types it
  looks for with \<open>errors.As\<close> or a type assertion. An error of a library is known by what the code
  reads from it: \<open>ErrSMTP\<close> carries the reply code, the reply text and the text of its \<open>Error\<close>
  method; \<open>ErrNet\<close> whether it is a timeout; \<open>ErrDNS\<close> holds a \<open>net.DNSError\<close>. \<open>ErrWrap\<close> is
  the result of \<open>fmt.Errorf\<close> with \<open>%w\<close> verbs: the formatted text and the wrapped errors.
\<close>

datatype sentinel =
    ErrNoMXRecords
  | ErrDomainRateLimitExceeded
  | CtxCanceled
  | CtxDeadlineExceeded
  | ErrCacheMiss
  | ErrEOF

datatype dnserror =
  DNSError (dnsNotFound: bool) (dnsTimeout: bool) (dnsName: string) (dnsServer: string) (dnsErr: string)

datatype goerror =
    ErrText string
  | ErrSentinel sentinel
  | ErrNet bool string
  | ErrDNS dnserror
  | ErrSMTP int string string
  | ErrIndeterminate goerror
  | ErrWrap string "goerror list"

fun sentinel_text :: "sentinel \<Rightarrow> string" where
  "sentinel_text ErrNoMXRecords = ''no MX records found''"
| "sentinel_text ErrDomainRateLimitExceeded = ''domain rate limit exceeded''"
| "sentinel_text CtxCanceled = ''context canceled''"
| "sentinel_text CtxDeadlineExceeded = ''context deadline exceeded''"
| "sentinel_text ErrCacheMiss = ''acme/autocert: certificate cache miss''"
| "sentinel_text ErrEOF = ''EOF''"

fun err_text :: "goerror \<Rightarrow> string" where
  "err_text (ErrText t) = t"
| "err_text (ErrSentinel s) = sentinel_text s"
| "err_text (ErrNet _ t) = t"
| "err_text (ErrDNS d) =
     ''lookup '' @ dnsName d @ (if dnsServer d \<noteq> [] then '' on '' @ dnsServer d else []) @ '': '' @ dnsErr d"
| "err_text (ErrSMTP _ _ t) = t"
| "err_text (ErrIndeterminate e) = err_text e"
| "err_text (ErrWrap t _) = t"

text \<open>\<open>fmt.Errorf\<close> with a label and a final \<open>%w\<close>.\<close>

definition wrapErr :: "string \<Rightarrow> goerror \<Rightarrow> goerror" where
  "wrapErr label err = ErrWrap (label @ err_text err) [err]"

text \<open>
  \<open>errors.Is\<close> and \<open>errors.As\<close> walk the tree of wrapped errors in pre-order.
\<close>

fun errors_is :: "goerror \<Rightarrow> sentinel \<Rightarrow> bool"
and errors_is_any :: "goerror list \<Rightarrow> sentinel \<Rightarrow> bool" where
  "errors_is (ErrSentinel t) s = (t = s)"
| "errors_is (ErrIndeterminate e) s = errors_is e s"
| "errors_is (ErrWrap _ es) s = errors_is_any es s"
| "errors_is (ErrText _) s = False"
| "errors_is (ErrNet _ _) s = False"
| "errors_is (ErrDNS _) s = False"
| "errors_is (ErrSMTP _ _ _) s = False"
| "errors_is_any [] s = False"
| "errors_is_any (e # es) s = (errors_is e s \<or> errors_is_any es s)"

fun errors_as_smtp :: "goerror \<Rightarrow> (int \<times> string) option"
and errors_as_smtp_any :: "goerror list \<Rightarrow> (int \<times> string) option" where
  "errors_as_smtp (ErrSMTP c m _) = Some (c, m)"
| "errors_as_smtp (ErrIndeterminate e) = errors_as_smtp e"
| "errors_as_smtp (ErrWrap _ es) = errors_as_smtp_any es"
| "errors_as_smtp (ErrText _) = None"
| "errors_as_smtp (ErrSentinel _) = None"
| "errors_as_smtp (ErrNet _ _) = None"
| "errors_as_smtp (ErrDNS _) = None"
| "errors_as_smtp_any [] = None"
| "errors_as_smtp_any (e # es) =
     (case errors_as_smtp e of Some x \<Rightarrow> Some x | None \<Rightarrow> errors_as_smtp_any es)"

fun errors_as_indeterminate :: "goerror \<Rightarrow> bool"
and errors_as_indeterminate_any :: "goerror list \<Rightarrow> bool" where
  "errors_as_indeterminate (ErrIndeterminate _) = True"
| "errors_as_indeterminate (ErrWrap _ es) = errors_as_indeterminate_any es"
| "errors_as_indeterminate (ErrSMTP _ _ _) = False"
| "errors_as_indeterminate (ErrText _) = False"
| "errors_as_indeterminate (ErrSentinel _) = False"
| "errors_as_indeterminate (ErrNet _ _) = False"
| "errors_as_indeterminate (ErrDNS _) = False"
| "errors_as_indeterminate_any [] = False"
| "errors_as_indeterminate_any (e # es) =
     (errors_as_indeterminate e \<or> errors_as_indeterminate_any es)"

text \<open>\<open>errors.As\<close> with a \<open>*net.DNSError\<close>.\<close>

fun errors_as_dns :: "goerror \<Rightarrow> dnserror option"
and errors_as_dns_any :: "goerror list \<Rightarrow> dnserror option" where
  "errors_as_dns (ErrDNS d) = Some d"
| "errors_as_dns (ErrIndeterminate e) = errors_as_dns e"
| "errors_as_dns (ErrWrap _ es) = errors_as_dns_any es"
| "errors_as_dns (ErrText _) = None"
| "errors_as_dns (ErrSentinel _) = None"
| "errors_as_dns (ErrNet _ _) = None"
| "errors_as_dns (ErrSMTP _ _ _) = None"
| "errors_as_dns_any [] = None"
| "errors_as_dns_any (e # es) =
     (case errors_as_dns e of Some x \<Rightarrow> Some x | None \<Rightarrow> errors_as_dns_any es)"

text \<open>The assertion \<open>err.(net.Error)\<close> followed by \<open>Timeout()\<close>: it does not look through wrappers.\<close>

fun net_error_timeout :: "goerror \<Rightarrow> bool" where
  "net_error_timeout (ErrNet t _) = t"
| "net_error_timeout (ErrDNS d) = dnsTimeout d"
| "net_error_timeout (ErrSentinel s) = (s = CtxDeadlineExceeded)"
| "net_error_timeout _ = False"

section \<open>Line ends\<close>

abbreviation (input) CR :: char where "CR \<equiv> CHR 0x0D"
abbreviation (input) LF :: char where "LF \<equiv> CHR 0x0A"

section \<open>Time\<close>

type_synonym gotime = int
type_synonym duration = int

abbreviation (input) Millisecond :: duration where "Millisecond \<equiv> 1000000"
abbreviation (input) Second :: duration where "Second \<equiv> 1000000000"
abbreviation (input) Minute :: duration where "Minute \<equiv> 60000000000"
abbreviation (input) Hour :: duration where "Hour \<equiv> 3600000000000"

section \<open>Maps\<close>

text \<open>
  A Go map whose size or iteration the code uses is an association list with distinct keys; the
  order of the entries stands for one of the iteration orders.
\<close>

lemmas alist_map_of [simp] = update_conv' delete_conv'

lemma list_all_update:
  "list_all P al \<Longrightarrow> P (k, v) \<Longrightarrow> list_all P (AList.update k v al)"
  by (induction al) auto

lemma list_all_delete: "list_all P al \<Longrightarrow> list_all P (AList.delete k al)"
  by (induction al) auto

lemma map_of_list_all: "list_all P al \<Longrightarrow> map_of al k = Some v \<Longrightarrow> P (k, v)"
  by (auto simp: list_all_iff dest: map_of_SomeD)

lemma distinct_filter_keys: "distinct (map fst al) \<Longrightarrow> distinct (map fst (filter P al))"
  by (simp add: distinct_map_filter)

lemma list_all_filter: "list_all P al \<Longrightarrow> list_all P (filter Q al)"
  by (simp add: list_all_iff)

lemma map_of_filter_distinct:
  "distinct (map fst al) \<Longrightarrow>
     map_of (filter P al) k = (case map_of al k of None \<Rightarrow> None | Some v \<Rightarrow> if P (k, v) then Some v else None)"
  by (induction al) (auto simp: map_of_eq_None_iff split: option.split)

section \<open>Machines\<close>

text \<open>
  A component is a state with operations. What holds initially and is kept by every operation
  holds after any sequence of them, and in every reachable state.
\<close>

locale machine =
  fixes step :: "'s \<Rightarrow> 'e \<Rightarrow> 's"
    and inv :: "'s \<Rightarrow> bool"
  assumes step_inv: "inv s \<Longrightarrow> inv (step s e)"
begin

lemma run_inv: "inv s \<Longrightarrow> inv (foldl step s es)"
  by (induction es arbitrary: s) (simp_all add: step_inv)

lemma run_snoc_inv: "inv s \<Longrightarrow> inv (step (foldl step s es) e)"
  by (simp add: run_inv step_inv)

end

end
