(* ===== verification/Go_Net.thy ===== *)
theory Go_Net
  imports Go_Prelude
begin

text \<open>
  What strela uses of Go's package \<^verbatim>\<open>net\<close>: \<open>SplitHostPort\<close>, \<open>ParseIP\<close>, \<open>To4\<close>, the
  textual form of an address and \<open>ParseCIDR\<close>. An IP address is its list of bytes, 4 or 16 numbers
  below 256; \<open>ParseIP\<close> always gives the 16-byte form.
\<close>

section \<open>Host and port\<close>

definition addrErr :: "string \<Rightarrow> string \<Rightarrow> goerror" where
  "addrErr addr why = ErrText (if addr \<noteq> [] then ''address '' @ addr @ '': '' @ why else why)"

text \<open>The tail of \<open>SplitHostPort\<close>: no further bracket may follow.\<close>

definition split_tail :: "string \<Rightarrow> nat \<Rightarrow> nat \<Rightarrow> nat \<Rightarrow> string \<Rightarrow> goerror + (string \<times> string)" where
  "split_tail hp i j k host =
     (if CHR ''['' \<in> set (drop j hp) then Inl (addrErr hp ''unexpected '[' in address'')
      else if CHR '']'' \<in> set (drop k hp) then Inl (addrErr hp ''unexpected ']' in address'')
      else Inr (host, drop (Suc i) hp))"

definition SplitHostPort :: "string \<Rightarrow> goerror + (string \<times> string)" where
  "SplitHostPort hp =
     (case LastIndexByte hp CHR '':'' of
        None \<Rightarrow> Inl (addrErr hp ''missing port in address'')
      | Some i \<Rightarrow>
          if hd hp = CHR ''['' then
            (case IndexByte hp CHR '']'' of
               None \<Rightarrow> Inl (addrErr hp ''missing ']' in address'')
             | Some e \<Rightarrow>
                 if Suc e = length hp then Inl (addrErr hp ''missing port in address'')
                 else if Suc e = i then split_tail hp i 1 (Suc e) (drop 1 (take e hp))
                 else if hp ! Suc e = CHR '':'' then Inl (addrErr hp ''too many colons in address'')
                 else Inl (addrErr hp ''missing port in address''))
          else if CHR '':'' \<in> set (take i hp) then Inl (addrErr hp ''too many colons in address'')
          else split_tail hp i 0 0 (take i hp))"

lemma SplitHostPort_plain:
  assumes "set host \<inter> {CHR '':'', CHR ''['', CHR '']''} = {}"
    and "set port \<inter> {CHR '':'', CHR ''['', CHR '']''} = {}"
  shows "SplitHostPort (host @ '':'' @ port) = Inr (host, port)"
proof -
  have "LastIndexByte (host @ CHR '':'' # port) CHR '':'' = Some (length host)"
    using assms(2) by (intro LastIndexByte_append) auto
  moreover have "hd (host @ CHR '':'' # port) \<noteq> CHR ''[''"
    using assms(1) by (cases host) auto
  ultimately show ?thesis
    using assms by (auto simp: SplitHostPort_def split_tail_def)
qed

section \<open>IP addresses\<close>

type_synonym ipbytes = "nat list"

definition parse_octet :: "string \<Rightarrow> nat option" where
  "parse_octet f =
     (if f = [] \<or> \<not> list_all is_digit f \<or> (length f > 1 \<and> hd f = CHR ''0'') \<or> digits_value f > 255
      then None else Some (digits_value f))"

definition parseIPv4 :: "string \<Rightarrow> ipbytes option" where
  "parseIPv4 s =
     (case map parse_octet (Split s ''.'') of
        [Some a, Some b, Some c, Some d] \<Rightarrow> Some [a, b, c, d]
      | _ \<Rightarrow> None)"

definition hex_value :: "char \<Rightarrow> nat option" where
  "hex_value c =
     (let n = of_char c :: nat in
      if 48 \<le> n \<and> n \<le> 57 then Some (n - 48)
      else if 97 \<le> n \<and> n \<le> 102 then Some (n - 87)
      else if 65 \<le> n \<and> n \<le> 70 then Some (n - 55)
      else None)"

definition is_hex :: "char \<Rightarrow> bool" where
  "is_hex c \<longleftrightarrow> hex_value c \<noteq> None"

definition hex_number :: "string \<Rightarrow> nat" where
  "hex_number s = foldl (\<lambda>a c. 16 * a + (case hex_value c of Some d \<Rightarrow> d | None \<Rightarrow> 0)) 0 s"

text \<open>
  The group loop of the IPv6 parser: at most \<open>n\<close> further groups, the bytes read so far and the
  position of an ellipsis. It ends with the unread rest of the text.
\<close>

fun v6_groups ::
  "nat \<Rightarrow> string \<Rightarrow> nat list \<Rightarrow> nat option \<Rightarrow> (string \<times> nat list \<times> nat option) option" where
  "v6_groups 0 s bs el = Some (s, bs, el)"
| "v6_groups (Suc n) s bs el =
     (let ds = takeWhile is_hex s; rest = dropWhile is_hex s in
      if ds = [] \<or> length ds > 4 then None
      else if rest \<noteq> [] \<and> hd rest = CHR ''.'' then
        (if el = None \<and> length bs \<noteq> 12 then None
         else if length bs + 4 > 16 then None
         else case parseIPv4 s of None \<Rightarrow> None | Some v4 \<Rightarrow> Some ([], bs @ v4, el))
      else
        (let acc = hex_number ds; bs' = bs @ [acc div 256, acc mod 256] in
         if rest = [] then Some ([], bs', el)
         else if hd rest \<noteq> CHR '':'' \<or> tl rest = [] then None
         else if hd (tl rest) = CHR '':'' then
           (if el \<noteq> None then None
            else if tl (tl rest) = [] then Some ([], bs', Some (length bs'))
            else v6_groups n (tl (tl rest)) bs' (Some (length bs')))
         else v6_groups n (tl rest) bs' el))"

definition v6_expand :: "string \<times> nat list \<times> nat option \<Rightarrow> ipbytes option" where
  "v6_expand r =
     (case r of (s, bs, el) \<Rightarrow>
        if s \<noteq> [] then None
        else if length bs < 16 then
          (case el of
             None \<Rightarrow> None
           | Some e \<Rightarrow> Some (take e bs @ replicate (16 - length bs) 0 @ drop e bs))
        else if el \<noteq> None then None
        else Some bs)"

definition parseIPv6 :: "string \<Rightarrow> ipbytes option" where
  "parseIPv6 s =
     (if prefix ''::'' s then
        (if drop 2 s = [] then Some (replicate 16 0)
         else Option.bind (v6_groups 8 (drop 2 s) [] (Some 0)) v6_expand)
      else Option.bind (v6_groups 8 s [] None) v6_expand)"

definition v4_in_v6 :: "ipbytes \<Rightarrow> ipbytes" where
  "v4_in_v6 v4 = replicate 10 0 @ [255, 255] @ v4"

text \<open>The first of \<open>.\<close>, \<open>:\<close> and \<open>%\<close> in the text decides the family.\<close>

definition ParseIP :: "string \<Rightarrow> ipbytes option" where
  "ParseIP s =
     (case find (\<lambda>c. c \<in> set ''.:%'') s of
        None \<Rightarrow> None
      | Some c \<Rightarrow>
          if c = CHR ''.'' then map_option v4_in_v6 (parseIPv4 s)
          else if c = CHR '':'' then parseIPv6 s
          else None)"

definition To4 :: "ipbytes \<Rightarrow> ipbytes option" where
  "To4 ip =
     (if length ip = 4 then Some ip
      else if length ip = 16 \<and> take 12 ip = replicate 10 0 @ [255, 255] then Some (drop 12 ip)
      else None)"

text \<open>The version of a textual address: \<open>Some True\<close> is IPv6, \<open>None\<close> is no address.\<close>

definition ip_is_v6 :: "string \<Rightarrow> bool option" where
  "ip_is_v6 s = map_option (\<lambda>ip. To4 ip = None) (ParseIP s)"

section \<open>Lemmas\<close>

lemma To4_v4_in_v6 [simp]: "length v4 = 4 \<Longrightarrow> To4 (v4_in_v6 v4) = Some v4"
  by (simp add: To4_def v4_in_v6_def)

lemma parseIPv4_Some:
  assumes "parseIPv4 s = Some ip"
  shows "length ip = 4 \<and> (\<forall>b\<in>set ip. b < 256)"
proof -
  have oct: "parse_octet f = Some v \<Longrightarrow> v < 256" for f v
    by (auto simp: parse_octet_def split: if_splits)
  from assms obtain a b c d
    where fields: "map parse_octet (Split s ''.'') = [Some a, Some b, Some c, Some d]"
      and ip: "ip = [a, b, c, d]"
    by (auto simp: parseIPv4_def split: list.splits option.splits)
  from fields obtain w x y z where "Split s ''.'' = [w, x, y, z]"
    and "parse_octet w = Some a" "parse_octet x = Some b" "parse_octet y = Some c" "parse_octet z = Some d"
    by (auto simp: map_eq_Cons_conv)
  with ip oct show ?thesis by auto
qed

lemma hex_value_bound: "hex_value c = Some d \<Longrightarrow> d < 16"
  by (auto simp: hex_value_def Let_def split: if_splits)

lemma hex_number_snoc:
  "hex_number (s @ [c]) = 16 * hex_number s + (case hex_value c of Some d \<Rightarrow> d | None \<Rightarrow> 0)"
  by (simp add: hex_number_def)

lemma hex_number_bound: "hex_number s < 16 ^ length s"
proof (induction s rule: rev_induct)
  case Nil
  show ?case by (simp add: hex_number_def)
next
  case (snoc c s)
  have "(case hex_value c of Some d \<Rightarrow> d | None \<Rightarrow> 0) < 16"
    using hex_value_bound by (auto split: option.splits)
  with snoc show ?case by (simp add: hex_number_snoc)
qed

lemma hex_group_bound: "length ds \<le> 4 \<Longrightarrow> hex_number ds div 256 < 256"
proof -
  assume "length ds \<le> 4"
  then have "(16::nat) ^ length ds \<le> 16 ^ 4" by (intro power_increasing) auto
  with hex_number_bound [of ds] have "hex_number ds < 65536" by simp
  then show ?thesis by simp
qed

end
