(* ===== verification/Config.thy ===== *)
theory Config
  imports Go_Net
begin

text \<open>
  The configuration, \<^verbatim>\<open>internal/config/config.go\<close> and \<^verbatim>\<open>internal/config/reload.go\<close>: its
  sections as records, the defaults, the validation, the per-protocol selectors, loading and hot
  reload. The file system and the TOML decoder are outside the model: they are the record
  \<open>config_source\<close>, an argument of \<open>LoadConfig\<close> and \<open>Reload\<close>.
\<close>

section \<open>Sections\<close>

definition ProtocolSMTP :: string where "ProtocolSMTP = ''smtp''"
definition ProtocolLMTP :: string where "ProtocolLMTP = ''lmtp''"
definition IPModeDual :: string where "IPModeDual = ''dual''"
definition IPModeIPv4 :: string where "IPModeIPv4 = ''ipv4''"
definition IPModeIPv6 :: string where "IPModeIPv6 = ''ipv6''"

lemmas config_consts [simp] =
  ProtocolSMTP_def ProtocolLMTP_def IPModeDual_def IPModeIPv4_def IPModeIPv6_def

record LoggingConfig =
  LogOutput :: string
  LogFormat :: string
  LogLevel :: string

record InboundConfig =
  Listen :: string
  AuthToken :: string
  MaxBodySizeBytes :: int
  ReadTimeoutSecs :: int
  WriteTimeoutSecs :: int
  IdleTimeoutSecs :: int
  RateLimitEnabled :: bool
  RateLimitRequestsPerIP :: int
  RateLimitWindowSeconds :: int
  MaxConcurrentRequests :: int

record MetricsConfig =
  MetricsEnabled :: bool
  MetricsBind :: string
  MetricsPath :: string
  IncludeRecipientDomain :: bool

record AdminConfig =
  AdminEnabled :: bool
  AdminBind :: string
  AdminUsername :: string
  AdminPassword :: string

record S3Config =
  S3Bucket :: string
  S3Region :: string
  S3Endpoint :: string
  S3Prefix :: string
  S3AccessKey :: string
  S3SecretKey :: string

record LetsEncryptConfig =
  LEEmail :: string
  LEDomains :: "string list"
  LEDefaultDomain :: string
  StorageProvider :: string
  CacheDir :: string
  SyncIntervalMinutes :: int
  S3 :: S3Config

record TLSConfig =
  TLSEnabled :: bool
  CertFile :: string
  KeyFile :: string
  TLSProvider :: string
  LetsEncrypt :: LetsEncryptConfig

record DNSConfig =
  Resolvers :: "string list"
  DNSTimeoutSeconds :: int
  CacheTTLSeconds :: int
  CacheNegativeTTLSeconds :: int

record OutboundConfig =
  DefaultProtocol :: string
  DefaultSMTPDestination :: string
  DefaultLMTPDestination :: string
  SourceIPsV4 :: "string list"
  SourceIPsV6 :: "string list"
  SMTPIPMode :: string
  LMTPIPMode :: string
  SMTPPreferIPv6 :: bool
  LMTPPreferIPv6 :: bool
  SourceIPSelection :: string
  MXCacheTTLSeconds :: int
  ConnectionPoolTTLSeconds :: int
  ConnectionTimeoutSeconds :: int
  BannerTimeoutSeconds :: int
  HandshakeTimeoutSeconds :: int
  SMTPTimeoutSeconds :: int
  MaxTotalDeliverySeconds :: int
  MaxIPsPerMX :: int
  HelloHostname :: string
  DataTerminationTimeoutSeconds :: int
  SMTPPort :: int
  LMTPPort :: int
  SMTPImplicitTLS :: bool
  LMTPImplicitTLS :: bool
  LMTPTimeoutSeconds :: int
  PerDomainIntervalSeconds :: int
  PerDomainBurst :: int
  RateLimitWhitelist :: "string list"

record ReputationConfig =
  AlertWebhookURL :: string
  AlertAuthToken :: string
  AlertTimeoutSeconds :: int
  DegradedRetryHours :: int
  EnableIPTracking :: bool
  DegradedIPCleanupHours :: int
  DegradeFailureThreshold :: int
  DegradeWindowMinutes :: int

record ClusterConfig =
  ClusterEnabled :: bool
  ClusterBind :: string
  ClusterPort :: int
  ClusterPeers :: "string list"
  NodeID :: string
  ClusterSecretKey :: string

record DKIMConfig =
  DKIMEnabled :: bool
  DKIMConfSelector :: string
  DKIMConfDomain :: string
  DKIMPrivateKeyPath :: string
  DKIMSkipValidation :: bool
  DKIMHeaderCanon :: string
  DKIMBodyCanon :: string
  KeyDirectory :: string
  SelectorMapPath :: string
  KeyCacheSize :: int

record ARCConfig =
  ARCEnabled :: bool
  ARCConfSelector :: string
  ARCConfDomain :: string
  ARCPrivateKeyPath :: string
  ARCHeaderCanon :: string
  ARCBodyCanon :: string

record SRSConfig =
  SRSEnabled :: bool
  SRSDomains :: "string list"
  SRSSelection :: string
  SRSSecret :: string
  SRSMaxAge :: int
  SRSHashLength :: int
  SRSSeparator :: string
  SRSSkipDomains :: "string list"
  SRSSkipIfDKIMPass :: bool
  SRSSkipIfSameDomain :: bool
  SRSUseDynamicSubdomain :: bool

record Config =
  Logging :: LoggingConfig
  Inbound :: InboundConfig
  TLS :: TLSConfig
  DNS :: DNSConfig
  Metrics :: MetricsConfig
  Admin :: AdminConfig
  Outbound :: OutboundConfig
  Reputation :: ReputationConfig
  Cluster :: ClusterConfig
  DKIM :: DKIMConfig
  ARC :: ARCConfig
  SRS :: SRSConfig

text \<open>The zero value of the configuration, what the decoder leaves of an empty file.\<close>

definition zero_config :: Config where
  "zero_config =
     \<lparr>Logging = \<lparr>LogOutput = [], LogFormat = [], LogLevel = []\<rparr>,
      Inbound = \<lparr>Listen = [], AuthToken = [], MaxBodySizeBytes = 0, ReadTimeoutSecs = 0,
        WriteTimeoutSecs = 0, IdleTimeoutSecs = 0, RateLimitEnabled = False, RateLimitRequestsPerIP = 0,
        RateLimitWindowSeconds = 0, MaxConcurrentRequests = 0\<rparr>,
      TLS = \<lparr>TLSEnabled = False, CertFile = [], KeyFile = [], TLSProvider = [],
        LetsEncrypt = \<lparr>LEEmail = [], LEDomains = [], LEDefaultDomain = [], StorageProvider = [],
          CacheDir = [], SyncIntervalMinutes = 0,
          S3 = \<lparr>S3Bucket = [], S3Region = [], S3Endpoint = [], S3Prefix = [], S3AccessKey = [],
            S3SecretKey = []\<rparr>\<rparr>\<rparr>,
      DNS = \<lparr>Resolvers = [], DNSTimeoutSeconds = 0, CacheTTLSeconds = 0, CacheNegativeTTLSeconds = 0\<rparr>,
      Metrics = \<lparr>MetricsEnabled = False, MetricsBind = [], MetricsPath = [], IncludeRecipientDomain = False\<rparr>,
      Admin = \<lparr>AdminEnabled = False, AdminBind = [], AdminUsername = [], AdminPassword = []\<rparr>,
      Outbound = \<lparr>DefaultProtocol = [], DefaultSMTPDestination = [], DefaultLMTPDestination = [],
        SourceIPsV4 = [], SourceIPsV6 = [], SMTPIPMode = [], LMTPIPMode = [], SMTPPreferIPv6 = False,
        LMTPPreferIPv6 = False, SourceIPSelection = [], MXCacheTTLSeconds = 0,
        ConnectionPoolTTLSeconds = 0, ConnectionTimeoutSeconds = 0, BannerTimeoutSeconds = 0,
        HandshakeTimeoutSeconds = 0, SMTPTimeoutSeconds = 0, MaxTotalDeliverySeconds = 0,
        MaxIPsPerMX = 0, HelloHostname = [], DataTerminationTimeoutSeconds = 0, SMTPPort = 0,
        LMTPPort = 0, SMTPImplicitTLS = False, LMTPImplicitTLS = False, LMTPTimeoutSeconds = 0,
        PerDomainIntervalSeconds = 0, PerDomainBurst = 0, RateLimitWhitelist = []\<rparr>,
      Reputation = \<lparr>AlertWebhookURL = [], AlertAuthToken = [], AlertTimeoutSeconds = 0,
        DegradedRetryHours = 0, EnableIPTracking = False, DegradedIPCleanupHours = 0,
        DegradeFailureThreshold = 0, DegradeWindowMinutes = 0\<rparr>,
      Cluster = \<lparr>ClusterEnabled = False, ClusterBind = [], ClusterPort = 0, ClusterPeers = [],
        NodeID = [], ClusterSecretKey = []\<rparr>,
      DKIM = \<lparr>DKIMEnabled = False, DKIMConfSelector = [], DKIMConfDomain = [], DKIMPrivateKeyPath = [],
        DKIMSkipValidation = False, DKIMHeaderCanon = [], DKIMBodyCanon = [], KeyDirectory = [],
        SelectorMapPath = [], KeyCacheSize = 0\<rparr>,
      ARC = \<lparr>ARCEnabled = False, ARCConfSelector = [], ARCConfDomain = [], ARCPrivateKeyPath = [],
        ARCHeaderCanon = [], ARCBodyCanon = []\<rparr>,
      SRS = \<lparr>SRSEnabled = False, SRSDomains = [], SRSSelection = [], SRSSecret = [], SRSMaxAge = 0,
        SRSHashLength = 0, SRSSeparator = [], SRSSkipDomains = [], SRSSkipIfDKIMPass = False,
        SRSSkipIfSameDomain = False, SRSUseDynamicSubdomain = False\<rparr>\<rparr>"

section \<open>Defaults\<close>

text \<open>\<open>SetDefaults\<close> replaces the zero value of a field and nothing else.\<close>

definition default_int :: "int \<Rightarrow> int \<Rightarrow> int" where
  "default_int d v = (if v = 0 then d else v)"

definition default_str :: "string \<Rightarrow> string \<Rightarrow> string" where
  "default_str d v = (if v = [] then d else v)"

definition setLoggingDefaults :: "LoggingConfig \<Rightarrow> LoggingConfig" where
  "setLoggingDefaults l = l
     \<lparr>LogOutput := default_str ''stderr'' (LogOutput l),
      LogFormat := default_str ''console'' (LogFormat l),
      LogLevel := default_str ''info'' (LogLevel l)\<rparr>"

definition setInboundDefaults :: "InboundConfig \<Rightarrow> InboundConfig" where
  "setInboundDefaults i = i
     \<lparr>MaxBodySizeBytes := default_int (35 * 1024 * 1024) (MaxBodySizeBytes i),
      ReadTimeoutSecs := default_int 30 (ReadTimeoutSecs i),
      WriteTimeoutSecs := default_int 240 (WriteTimeoutSecs i),
      IdleTimeoutSecs := default_int 120 (IdleTimeoutSecs i),
      RateLimitRequestsPerIP := default_int 100 (RateLimitRequestsPerIP i),
      RateLimitWindowSeconds := default_int 60 (RateLimitWindowSeconds i)\<rparr>"

definition setMetricsDefaults :: "MetricsConfig \<Rightarrow> MetricsConfig" where
  "setMetricsDefaults m = m
     \<lparr>MetricsPath := default_str ''/metrics'' (MetricsPath m),
      MetricsBind := default_str '':8083'' (MetricsBind m)\<rparr>"

definition setAdminDefaults :: "AdminConfig \<Rightarrow> AdminConfig" where
  "setAdminDefaults a = a\<lparr>AdminBind := default_str ''127.0.0.1:8080'' (AdminBind a)\<rparr>"

text \<open>The S3 prefix: leading slashes are stripped, then a trailing slash is added if anything is left.\<close>

definition normalizeS3Prefix :: "string \<Rightarrow> string" where
  "normalizeS3Prefix p =
     (let stripped = dropWhile (\<lambda>c. c = CHR ''/'') p in
      if stripped \<noteq> [] \<and> last stripped \<noteq> CHR ''/'' then stripped @ ''/'' else stripped)"

definition setTLSDefaults :: "TLSConfig \<Rightarrow> TLSConfig" where
  "setTLSDefaults t =
     (let le = LetsEncrypt t;
          le' = le\<lparr>StorageProvider := default_str ''s3'' (StorageProvider le),
                   CacheDir := default_str ''./letsencrypt-cache'' (CacheDir le),
                   S3 := (S3 le)\<lparr>S3Prefix := normalizeS3Prefix (S3Prefix (S3 le))\<rparr>\<rparr>
      in t\<lparr>TLSProvider := default_str ''file'' (TLSProvider t), LetsEncrypt := le'\<rparr>)"

text \<open>\<open>hostname\<close> is the answer of \<open>os.Hostname\<close>, empty if it fails.\<close>

definition setOutboundDefaults :: "string \<Rightarrow> OutboundConfig \<Rightarrow> OutboundConfig" where
  "setOutboundDefaults hostname c = c
     \<lparr>DefaultProtocol := default_str ProtocolSMTP (DefaultProtocol c),
      MXCacheTTLSeconds := default_int 3600 (MXCacheTTLSeconds c),
      ConnectionPoolTTLSeconds := default_int 5 (ConnectionPoolTTLSeconds c),
      ConnectionTimeoutSeconds := default_int 15 (ConnectionTimeoutSeconds c),
      BannerTimeoutSeconds := default_int 30 (BannerTimeoutSeconds c),
      HandshakeTimeoutSeconds := default_int 30 (HandshakeTimeoutSeconds c),
      SMTPTimeoutSeconds := default_int 60 (SMTPTimeoutSeconds c),
      DataTerminationTimeoutSeconds := default_int 600 (DataTerminationTimeoutSeconds c),
      MaxTotalDeliverySeconds := default_int 200 (MaxTotalDeliverySeconds c),
      SourceIPSelection := default_str ''round-robin'' (SourceIPSelection c),
      SMTPIPMode := default_str IPModeDual (SMTPIPMode c),
      LMTPIPMode := default_str IPModeIPv4 (LMTPIPMode c),
      MaxIPsPerMX := default_int 5 (MaxIPsPerMX c),
      HelloHostname := default_str (default_str ''localhost'' hostname) (HelloHostname c),
      SMTPPort := default_int 25 (SMTPPort c),
      LMTPPort := default_int 24 (LMTPPort c),
      LMTPTimeoutSeconds := default_int 60 (LMTPTimeoutSeconds c),
      PerDomainIntervalSeconds := default_int 2 (PerDomainIntervalSeconds c),
      PerDomainBurst := default_int 10 (PerDomainBurst c)\<rparr>"

definition setDNSDefaults :: "DNSConfig \<Rightarrow> DNSConfig" where
  "setDNSDefaults d = d
     \<lparr>DNSTimeoutSeconds := default_int 5 (DNSTimeoutSeconds d),
      CacheTTLSeconds := default_int 3600 (CacheTTLSeconds d),
      CacheNegativeTTLSeconds := default_int 60 (CacheNegativeTTLSeconds d)\<rparr>"

definition setReputationDefaults :: "ReputationConfig \<Rightarrow> ReputationConfig" where
  "setReputationDefaults r = r
     \<lparr>AlertTimeoutSeconds := default_int 10 (AlertTimeoutSeconds r),
      DegradedRetryHours := default_int 48 (DegradedRetryHours r),
      DegradedIPCleanupHours := default_int 168 (DegradedIPCleanupHours r),
      DegradeFailureThreshold := default_int 3 (DegradeFailureThreshold r),
      DegradeWindowMinutes := default_int 30 (DegradeWindowMinutes r)\<rparr>"

definition setARCDefaults :: "ARCConfig \<Rightarrow> ARCConfig" where
  "setARCDefaults a = a
     \<lparr>ARCHeaderCanon := default_str ''relaxed'' (ARCHeaderCanon a),
      ARCBodyCanon := default_str ''relaxed'' (ARCBodyCanon a)\<rparr>"

definition setSRSDefaults :: "SRSConfig \<Rightarrow> SRSConfig" where
  "setSRSDefaults s = s
     \<lparr>SRSMaxAge := default_int 21 (SRSMaxAge s),
      SRSHashLength := default_int 4 (SRSHashLength s),
      SRSSeparator := default_str ''='' (SRSSeparator s),
      SRSSelection := default_str ''round-robin'' (SRSSelection s)\<rparr>"

definition SetDefaults :: "string \<Rightarrow> Config \<Rightarrow> Config" where
  "SetDefaults hostname c = c
     \<lparr>Logging := setLoggingDefaults (Logging c),
      Inbound := setInboundDefaults (Inbound c),
      Metrics := setMetricsDefaults (Metrics c),
      Admin := setAdminDefaults (Admin c),
      TLS := setTLSDefaults (TLS c),
      Outbound := setOutboundDefaults hostname (Outbound c),
      DNS := setDNSDefaults (DNS c),
      Reputation := setReputationDefaults (Reputation c),
      ARC := setARCDefaults (ARC c),
      SRS := setSRSDefaults (SRS c)\<rparr>"

section \<open>Validation and loading\<close>

definition validateHostPort :: "string \<Rightarrow> string \<Rightarrow> goerror option" where
  "validateHostPort value fieldName =
     (if value = [] then None
      else case SplitHostPort value of
        Inl err \<Rightarrow> Some (ErrWrap (fieldName @ '' must be in 'host:port' format: '' @ err_text err) [err])
      | Inr (host, port) \<Rightarrow>
          if host = [] then Some (ErrText (fieldName @ '' host cannot be empty''))
          else if port = [] then Some (ErrText (fieldName @ '' port cannot be empty''))
          else None)"

definition validIPMode :: "string \<Rightarrow> bool" where
  "validIPMode m \<longleftrightarrow> m \<in> set [[], IPModeDual, IPModeIPv4, IPModeIPv6]"

definition Validate :: "Config \<Rightarrow> goerror option" where
  "Validate c =
     (let ob = Outbound c in
      if DefaultProtocol ob \<noteq> ProtocolSMTP \<and> DefaultProtocol ob \<noteq> ProtocolLMTP
      then Some (ErrText (''outbound.default_protocol must be 'smtp' or 'lmtp', got: '' @ DefaultProtocol ob))
      else if DefaultProtocol ob = ProtocolLMTP \<and> DefaultLMTPDestination ob = []
      then Some (ErrText (''outbound.default_lmtp_destination is required when default_protocol is 'lmtp''
             @ [CHR 0x27]))
      else if \<not> validIPMode (SMTPIPMode ob)
      then Some (ErrText (''outbound.smtp_ip_mode must be 'dual', 'ipv4', or 'ipv6', got: '' @ SMTPIPMode ob))
      else if \<not> validIPMode (LMTPIPMode ob)
      then Some (ErrText (''outbound.lmtp_ip_mode must be 'dual', 'ipv4', or 'ipv6', got: '' @ LMTPIPMode ob))
      else case validateHostPort (DefaultLMTPDestination ob) ''outbound.default_lmtp_destination'' of
        Some err \<Rightarrow> Some err
      | None \<Rightarrow> validateHostPort (DefaultSMTPDestination ob) ''outbound.default_smtp_destination'')"

text \<open>
  The file and the decoder: the bytes of a path, the keys of the table \<open>outbound\<close> in the raw
  document (\<^const>\<open>None\<close> if there is no such table), and the decoded record.
\<close>

record config_source =
  ReadFile :: "string \<Rightarrow> goerror + string"
  UnmarshalRaw :: "string \<Rightarrow> goerror + string list option"
  UnmarshalConfig :: "string \<Rightarrow> goerror + Config"

text \<open>The defaults of the two \<open>prefer_ipv6\<close> flags, which only apply to a key the file does not set.\<close>

definition preferIPv6Defaults :: "string list option \<Rightarrow> OutboundConfig \<Rightarrow> OutboundConfig" where
  "preferIPv6Defaults raw ob =
     (case raw of
        Some keys \<Rightarrow>
          let ob1 = (if ''smtp_prefer_ipv6'' \<in> set keys then ob else ob\<lparr>SMTPPreferIPv6 := True\<rparr>)
          in (if ''lmtp_prefer_ipv6'' \<in> set keys then ob1 else ob1\<lparr>LMTPPreferIPv6 := False\<rparr>)
      | None \<Rightarrow> ob\<lparr>SMTPPreferIPv6 := True, LMTPPreferIPv6 := False\<rparr>)"

definition LoadConfig :: "config_source \<Rightarrow> string \<Rightarrow> string \<Rightarrow> goerror + Config" where
  "LoadConfig src hostname path =
     (case ReadFile src path of
        Inl err \<Rightarrow> Inl (wrapErr ''failed to read config file: '' err)
      | Inr data \<Rightarrow>
        (case UnmarshalRaw src data of
           Inl err \<Rightarrow> Inl (wrapErr ''failed to parse config: '' err)
         | Inr raw \<Rightarrow>
           (case UnmarshalConfig src data of
              Inl err \<Rightarrow> Inl (wrapErr ''failed to parse config: '' err)
            | Inr config \<Rightarrow>
                let config1 = SetDefaults hostname
                      (config\<lparr>Outbound := preferIPv6Defaults raw (Outbound config)\<rparr>)
                in (case Validate config1 of
                      Some err \<Rightarrow> Inl (wrapErr ''invalid configuration: '' err)
                    | None \<Rightarrow> Inr config1))))"

section \<open>Selectors\<close>

definition IPModeForProtocol :: "OutboundConfig \<Rightarrow> string \<Rightarrow> string" where
  "IPModeForProtocol c protocol = (if protocol = ProtocolLMTP then LMTPIPMode c else SMTPIPMode c)"

definition PreferIPv6ForProtocol :: "OutboundConfig \<Rightarrow> string \<Rightarrow> bool" where
  "PreferIPv6ForProtocol c protocol =
     (if protocol = ProtocolLMTP then LMTPPreferIPv6 c else SMTPPreferIPv6 c)"

definition GetBindAddr :: "ClusterConfig \<Rightarrow> string" where
  "GetBindAddr c =
     (if ClusterBind c = [] then ''0.0.0.0''
      else case SplitHostPort (ClusterBind c) of
        Inr (host, _) \<Rightarrow> host
      | Inl _ \<Rightarrow> ClusterBind c)"

definition bindPortFallback :: "ClusterConfig \<Rightarrow> int" where
  "bindPortFallback c = (if ClusterPort c > 0 then ClusterPort c else 7946)"

definition GetBindPort :: "ClusterConfig \<Rightarrow> int" where
  "GetBindPort c =
     (if ClusterBind c = [] then bindPortFallback c
      else case SplitHostPort (ClusterBind c) of
        Inl _ \<Rightarrow> bindPortFallback c
      | Inr (_, portStr) \<Rightarrow>
          (case Atoi portStr of Some port \<Rightarrow> port | None \<Rightarrow> bindPortFallback c))"

section \<open>Hot reload\<close>

text \<open>
  A reload callback may change the components it belongs to, the state \<open>'w\<close>, and may refuse the new
  configuration.
\<close>

type_synonym 'w callback = "Config \<Rightarrow> 'w \<Rightarrow> 'w \<times> goerror option"

record 'w ReloadableConfig =
  rc_config :: Config
  rc_configPath :: string
  rc_onReload :: "'w callback list"

definition NewReloadableConfig ::
  "config_source \<Rightarrow> string \<Rightarrow> string \<Rightarrow> goerror + 'w ReloadableConfig" where
  "NewReloadableConfig src hostname path =
     (case LoadConfig src hostname path of
        Inl err \<Rightarrow> Inl err
      | Inr cfg \<Rightarrow> Inr \<lparr>rc_config = cfg, rc_configPath = path, rc_onReload = []\<rparr>)"

definition ReloadableConfig_Get :: "'w ReloadableConfig \<Rightarrow> Config" where
  "ReloadableConfig_Get rc = rc_config rc"

definition GetInbound :: "'w ReloadableConfig \<Rightarrow> InboundConfig" where
  "GetInbound rc = Inbound (rc_config rc)"

definition GetOutbound :: "'w ReloadableConfig \<Rightarrow> OutboundConfig" where
  "GetOutbound rc = Outbound (rc_config rc)"

definition RegisterReloadCallback :: "'w callback \<Rightarrow> 'w ReloadableConfig \<Rightarrow> 'w ReloadableConfig" where
  "RegisterReloadCallback cb rc = rc\<lparr>rc_onReload := rc_onReload rc @ [cb]\<rparr>"

definition validateReload :: "Config \<Rightarrow> Config \<Rightarrow> goerror option" where
  "validateReload oldCfg newCfg =
     (if Listen (Inbound oldCfg) \<noteq> Listen (Inbound newCfg)
      then Some (ErrText (''http.listen cannot be changed during reload (old: ''
             @ Listen (Inbound oldCfg) @ '', new: '' @ Listen (Inbound newCfg) @ '')''))
      else None)"

fun runCallbacks :: "'w callback list \<Rightarrow> Config \<Rightarrow> 'w \<Rightarrow> 'w \<times> goerror option" where
  "runCallbacks [] cfg w = (w, None)"
| "runCallbacks (cb # cbs) cfg w =
     (case cb cfg w of
        (w', Some err) \<Rightarrow> (w', Some (wrapErr ''reload callback failed: '' err))
      | (w', None) \<Rightarrow> runCallbacks cbs cfg w')"

definition Reload ::
  "config_source \<Rightarrow> string \<Rightarrow> 'w ReloadableConfig \<Rightarrow> 'w \<Rightarrow> 'w ReloadableConfig \<times> 'w \<times> goerror option" where
  "Reload src hostname rc w =
     (case LoadConfig src hostname (rc_configPath rc) of
        Inl err \<Rightarrow> (rc, w, Some (wrapErr ''failed to reload config: '' err))
      | Inr newConfig \<Rightarrow>
        (case validateReload (rc_config rc) newConfig of
           Some err \<Rightarrow> (rc, w, Some err)
         | None \<Rightarrow>
           (case runCallbacks (rc_onReload rc) newConfig w of
              (w', Some err) \<Rightarrow> (rc, w', Some err)
            | (w', None) \<Rightarrow> (rc\<lparr>rc_config := newConfig\<rparr>, w', None))))"

text \<open>
  \<open>loadKeyPair\<close> is \<open>tls.LoadX509KeyPair\<close>; the result is the certificate of the TLS configuration,
  whose minimum version is always TLS 1.2.
\<close>

definition LoadTLSConfig ::
  "(string \<Rightarrow> string \<Rightarrow> goerror + 'cert) \<Rightarrow> 'w ReloadableConfig \<Rightarrow> goerror + 'cert" where
  "LoadTLSConfig loadKeyPair rc =
     (let t = TLS (rc_config rc) in
      if \<not> TLSEnabled t then Inl (ErrText ''TLS not enabled'')
      else if TLSProvider t \<noteq> ''file'' then Inl (ErrText ''LoadTLSConfig only supports file provider'')
      else case loadKeyPair (CertFile t) (KeyFile t) of
        Inl err \<Rightarrow> Inl (wrapErr ''failed to load TLS certificate: '' err)
      | Inr cert \<Rightarrow> Inr cert)"

section \<open>Lemmas\<close>

lemma default_idem [simp]:
  "default_int d (default_int d v) = default_int d v"
  "default_str e (default_str e t) = default_str e t"
  by (simp_all add: default_int_def default_str_def)

lemma default_keep:
  "v \<noteq> 0 \<Longrightarrow> default_int d v = v"
  "t \<noteq> [] \<Longrightarrow> default_str e t = t"
  by (simp_all add: default_int_def default_str_def)

lemma default_nonzero:
  "d \<noteq> 0 \<Longrightarrow> default_int d v \<noteq> 0"
  "e \<noteq> [] \<Longrightarrow> default_str e t \<noteq> []"
  by (simp_all add: default_int_def default_str_def)

lemma hd_dropWhile_slash: "dropWhile P s \<noteq> [] \<Longrightarrow> \<not> P (hd (dropWhile P s))"
  by (induction s) auto

lemma normalizeS3Prefix_shape:
  "normalizeS3Prefix p = [] \<or> hd (normalizeS3Prefix p) \<noteq> CHR ''/'' \<and> last (normalizeS3Prefix p) = CHR ''/''"
  using hd_dropWhile_slash [of "\<lambda>c. c = CHR ''/''" p]
  by (auto simp: normalizeS3Prefix_def Let_def hd_append)

lemma normalizeS3Prefix_idem [simp]: "normalizeS3Prefix (normalizeS3Prefix p) = normalizeS3Prefix p"
proof -
  have "normalizeS3Prefix q = q"
    if "q = [] \<or> hd q \<noteq> CHR ''/'' \<and> last q = CHR ''/''" for q
    using that by (cases q) (auto simp: normalizeS3Prefix_def)
  with normalizeS3Prefix_shape show ?thesis by blast
qed

lemmas section_defaults =
  setLoggingDefaults_def setInboundDefaults_def setMetricsDefaults_def setAdminDefaults_def
  setTLSDefaults_def setOutboundDefaults_def setDNSDefaults_def setReputationDefaults_def
  setARCDefaults_def setSRSDefaults_def

lemma section_defaults_idem:
  "setLoggingDefaults (setLoggingDefaults l) = setLoggingDefaults l"
  "setInboundDefaults (setInboundDefaults i) = setInboundDefaults i"
  "setMetricsDefaults (setMetricsDefaults m) = setMetricsDefaults m"
  "setAdminDefaults (setAdminDefaults a) = setAdminDefaults a"
  "setTLSDefaults (setTLSDefaults t) = setTLSDefaults t"
  "setOutboundDefaults h (setOutboundDefaults h ob) = setOutboundDefaults h ob"
  "setDNSDefaults (setDNSDefaults d) = setDNSDefaults d"
  "setReputationDefaults (setReputationDefaults r) = setReputationDefaults r"
  "setARCDefaults (setARCDefaults ac) = setARCDefaults ac"
  "setSRSDefaults (setSRSDefaults sc) = setSRSDefaults sc"
  by (simp_all add: section_defaults Let_def)

lemma SetDefaults_idem: "SetDefaults h (SetDefaults h c) = SetDefaults h c"
  by (simp add: SetDefaults_def section_defaults_idem)

lemma validateHostPort_None:
  "validateHostPort v f = None \<longleftrightarrow>
     v = [] \<or> (\<exists>h p. SplitHostPort v = Inr (h, p) \<and> h \<noteq> [] \<and> p \<noteq> [])"
  by (auto simp: validateHostPort_def split: sum.splits if_splits)

lemma LoadConfig_Inr:
  assumes "LoadConfig src h path = Inr cfg"
  shows "Validate cfg = None \<and> (\<exists>c. cfg = SetDefaults h c)"
  using assms by (auto simp: LoadConfig_def Let_def split: sum.splits option.splits)

lemma Validate_None:
  assumes "Validate c = None"
  shows "DefaultProtocol (Outbound c) \<in> {ProtocolSMTP, ProtocolLMTP}"
    and "validIPMode (SMTPIPMode (Outbound c))" and "validIPMode (LMTPIPMode (Outbound c))"
    and "validateHostPort (DefaultLMTPDestination (Outbound c)) ''outbound.default_lmtp_destination'' = None"
    and "validateHostPort (DefaultSMTPDestination (Outbound c)) ''outbound.default_smtp_destination'' = None"
    and "DefaultProtocol (Outbound c) = ProtocolLMTP \<Longrightarrow> DefaultLMTPDestination (Outbound c) \<noteq> []"
  using assms unfolding Validate_def Let_def
  by (auto split: if_splits option.splits)

definition modes_resolved :: "OutboundConfig \<Rightarrow> bool" where
  "modes_resolved ob \<longleftrightarrow>
     SMTPIPMode ob \<in> set [IPModeDual, IPModeIPv4, IPModeIPv6]
     \<and> LMTPIPMode ob \<in> set [IPModeDual, IPModeIPv4, IPModeIPv6]"

definition destination_ok :: "string \<Rightarrow> bool" where
  "destination_ok v \<longleftrightarrow>
     v = [] \<or> (case SplitHostPort v of Inr (h, p) \<Rightarrow> h \<noteq> [] \<and> p \<noteq> [] | Inl _ \<Rightarrow> False)"

lemma destination_ok_iff: "destination_ok v \<longleftrightarrow> validateHostPort v f = None"
  by (auto simp: destination_ok_def validateHostPort_None split: sum.splits)

lemma setOutboundDefaults_modes:
  "SMTPIPMode (setOutboundDefaults h ob) \<noteq> []" "LMTPIPMode (setOutboundDefaults h ob) \<noteq> []"
  by (simp_all add: setOutboundDefaults_def default_nonzero)

lemma setOutboundDefaults_numbers:
  "SMTPPort (setOutboundDefaults h ob) \<noteq> 0" "LMTPPort (setOutboundDefaults h ob) \<noteq> 0"
  "MaxTotalDeliverySeconds (setOutboundDefaults h ob) \<noteq> 0"
  "PerDomainBurst (setOutboundDefaults h ob) \<noteq> 0"
  "HelloHostname (setOutboundDefaults h ob) \<noteq> []"
  by (simp_all add: setOutboundDefaults_def default_nonzero)

lemma Outbound_SetDefaults [simp]: "Outbound (SetDefaults h c) = setOutboundDefaults h (Outbound c)"
  by (simp add: SetDefaults_def)

lemma runCallbacks_append:
  "runCallbacks (cbs @ cbs') cfg w =
     (case runCallbacks cbs cfg w of
        (w', Some err) \<Rightarrow> (w', Some err)
      | (w', None) \<Rightarrow> runCallbacks cbs' cfg w')"
  by (induction cbs arbitrary: w) (auto split: prod.splits option.splits)

lemma Reload_path [simp]:
  "rc_configPath (fst (Reload src h rc w)) = rc_configPath rc"
  "rc_onReload (fst (Reload src h rc w)) = rc_onReload rc"
  by (auto simp: Reload_def split: sum.splits option.splits prod.splits)

lemma Reload_error:
  "snd (snd (Reload src h rc w)) \<noteq> None \<Longrightarrow> fst (Reload src h rc w) = rc"
  by (auto simp: Reload_def split: sum.splits option.splits prod.splits)

lemma Reload_success:
  assumes "Reload src h rc w = (rc', w', None)"
  shows "\<exists>cfg. LoadConfig src h (rc_configPath rc) = Inr cfg \<and> rc' = rc\<lparr>rc_config := cfg\<rparr>
           \<and> Listen (Inbound cfg) = Listen (Inbound (rc_config rc))
           \<and> runCallbacks (rc_onReload rc) cfg w = (w', None)"
  using assms
  by (auto simp: Reload_def validateReload_def split: sum.splits option.splits prod.splits if_splits)

section \<open>Properties\<close>


definition empty_file :: config_source where
  "empty_file = \<lparr>ReadFile = (\<lambda>_. Inr []), UnmarshalRaw = (\<lambda>_. Inr None),
                 UnmarshalConfig = (\<lambda>_. Inr zero_config)\<rparr>"

lemma empty_file_loads:
  "LoadConfig empty_file ''mx1'' ''strela.toml''
     = Inr (SetDefaults ''mx1'' (zero_config\<lparr>Outbound := preferIPv6Defaults None (Outbound zero_config)\<rparr>))"
  by (simp add: LoadConfig_def empty_file_def Let_def Validate_def validIPMode_def validateHostPort_def
      setOutboundDefaults_def default_str_def preferIPv6Defaults_def zero_config_def)


text \<open>
  A hot reload is all or nothing for the active configuration: with an error it is the old one;
  without, it is a freshly loaded one that keeps the listen address and that every callback accepted.
  The path and the callbacks never change.
\<close>

lemma reload_all_or_nothing:
  "case Reload src h rc w of
     (rc', w', Some err) \<Rightarrow> rc' = rc
   | (rc', w', None) \<Rightarrow>
       rc_configPath rc' = rc_configPath rc \<and> rc_onReload rc' = rc_onReload rc
       \<and> LoadConfig src h (rc_configPath rc) = Inr (rc_config rc')
       \<and> Listen (Inbound (rc_config rc')) = Listen (Inbound (rc_config rc))
       \<and> runCallbacks (rc_onReload rc) (rc_config rc') w = (w', None)"
proof (cases "Reload src h rc w")
  case (fields rc' w' e)
  then show ?thesis
    using Reload_error [of src h rc w] Reload_success [of src h rc w rc' w'] by (cases e) auto
qed

end
