(* ===== verification/Logging.thy ===== *)
theory Logging
  imports Config
begin

text \<open>
  The logger, \<^verbatim>\<open>internal/config/logger.go\<close>: the level, the format and the output of the log, and the
  reopening of the log file for rotation. The operating system's files are a table of open handles; whether
  a file can be opened is a parameter.
\<close>

section \<open>Model\<close>

datatype file_handle = Stdout | Stderr | Handle nat

text \<open>The open files by handle, the next free handle and what has been written.\<close>

record file_table =
  ft_open :: "(nat \<times> string) list"
  ft_next :: nat
  ft_written :: "(file_handle \<times> string) list"

definition no_files :: file_table where
  "no_files = \<lparr>ft_open = [], ft_next = 0, ft_written = []\<rparr>"

definition OpenFile :: "(string \<Rightarrow> goerror option) \<Rightarrow> string \<Rightarrow> file_table \<Rightarrow> (goerror + file_handle) \<times> file_table" where
  "OpenFile openErr path ft =
     (case openErr path of
        Some err \<Rightarrow> (Inl err, ft)
      | None \<Rightarrow> (Inr (Handle (ft_next ft)),
                 ft\<lparr>ft_open := (ft_next ft, path) # ft_open ft, ft_next := Suc (ft_next ft)\<rparr>))"

fun CloseFile :: "file_handle \<Rightarrow> file_table \<Rightarrow> goerror option \<times> file_table" where
  "CloseFile (Handle h) ft =
     (if h \<in> fst ` set (ft_open ft) then (None, ft\<lparr>ft_open := AList.delete h (ft_open ft)\<rparr>)
      else (Some (ErrText ''file already closed''), ft))"
| "CloseFile _ ft = (None, ft)"

text \<open>A standard stream is always open: the logger never closes it.\<close>

definition is_open :: "file_handle \<Rightarrow> file_table \<Rightarrow> bool" where
  "is_open f ft \<longleftrightarrow> (case f of Handle h \<Rightarrow> h \<in> fst ` set (ft_open ft) | _ \<Rightarrow> True)"

definition WriteFile :: "file_handle \<Rightarrow> string \<Rightarrow> file_table \<Rightarrow> (goerror + nat) \<times> file_table" where
  "WriteFile f p ft =
     (if is_open f ft then (Inr (length p), ft\<lparr>ft_written := ft_written ft @ [(f, p)]\<rparr>)
      else (Inl (ErrText ''file already closed''), ft))"

record LogWriter =
  lw_path :: string
  lw_file :: file_handle

definition LogWriter_Write :: "string \<Rightarrow> LogWriter \<Rightarrow> file_table \<Rightarrow> (goerror + nat) \<times> file_table" where
  "LogWriter_Write p w ft = WriteFile (lw_file w) p ft"

definition LogWriter_Reopen ::
  "(string \<Rightarrow> goerror option) \<Rightarrow> LogWriter \<Rightarrow> file_table \<Rightarrow> goerror option \<times> LogWriter \<times> file_table" where
  "LogWriter_Reopen openErr w ft =
     (if lw_path w = [] then (None, w, ft)
      else case OpenFile openErr (lw_path w) ft of
        (Inl err, ft') \<Rightarrow> (Some (wrapErr (''reopen log file '' @ lw_path w @ '': '') err), w, ft')
      | (Inr newFile, ft') \<Rightarrow> (None, w\<lparr>lw_file := newFile\<rparr>, snd (CloseFile (lw_file w) ft')))"

definition LogWriter_Close :: "LogWriter \<Rightarrow> file_table \<Rightarrow> goerror option \<times> file_table" where
  "LogWriter_Close w ft = (if lw_path w = [] then (None, ft) else CloseFile (lw_file w) ft)"

datatype slog_level = LevelDebug | LevelInfo | LevelWarn | LevelError

datatype slog_format = JSONHandler | TextHandler

record slog_logger =
  sl_level :: slog_level
  sl_format :: slog_format

definition parseLogLevel :: "string \<Rightarrow> goerror + slog_level" where
  "parseLogLevel level =
     (let l = ToLower level in
      if l = ''debug'' then Inr LevelDebug
      else if l = ''info'' \<or> l = [] then Inr LevelInfo
      else if l = ''warn'' \<or> l = ''warning'' then Inr LevelWarn
      else if l = ''error'' then Inr LevelError
      else Inl (ErrText (''unknown level: '' @ level @ '' (must be debug, info, warn, or error)'')))"

definition newLogWriter :: "(string \<Rightarrow> goerror option) \<Rightarrow> string \<Rightarrow> file_table \<Rightarrow> (goerror + LogWriter) \<times> file_table" where
  "newLogWriter openErr output ft =
     (let out = ToLower output in
      if out = ''stderr'' \<or> out = [] then (Inr \<lparr>lw_path = [], lw_file = Stderr\<rparr>, ft)
      else if out = ''stdout'' then (Inr \<lparr>lw_path = [], lw_file = Stdout\<rparr>, ft)
      else if out = ''syslog'' then (Inr \<lparr>lw_path = [], lw_file = Stderr\<rparr>, ft)
      else case OpenFile openErr output ft of
        (Inl err, ft') \<Rightarrow> (Inl (wrapErr (''failed to open log file '' @ output @ '': '') err), ft')
      | (Inr file, ft') \<Rightarrow> (Inr \<lparr>lw_path = output, lw_file = file\<rparr>, ft'))"

definition NewLogger ::
  "(string \<Rightarrow> goerror option) \<Rightarrow> LoggingConfig \<Rightarrow> file_table \<Rightarrow> (goerror + slog_logger \<times> LogWriter) \<times> file_table" where
  "NewLogger openErr cfg ft =
     (case parseLogLevel (LogLevel cfg) of
        Inl err \<Rightarrow> (Inl (wrapErr ''invalid log level: '' err), ft)
      | Inr level \<Rightarrow>
          (case newLogWriter openErr (LogOutput cfg) ft of
             (Inl err, ft') \<Rightarrow> (Inl (wrapErr ''failed to create log writer: '' err), ft')
           | (Inr writer, ft') \<Rightarrow>
               let format = ToLower (LogFormat cfg) in
               if format = ''json'' then (Inr (\<lparr>sl_level = level, sl_format = JSONHandler\<rparr>, writer), ft')
               else if format = ''console'' \<or> format = [] then
                 (Inr (\<lparr>sl_level = level, sl_format = TextHandler\<rparr>, writer), ft')
               else (Inl (ErrText (''invalid log format: '' @ LogFormat cfg @ '' (must be 'console' or 'json')'')),
                     snd (LogWriter_Close writer ft'))))"

section \<open>The log stays open\<close>

text \<open>
  The files that are open are exactly the one of the writer, under its path, or none for a standard stream.
  Handles are never used twice.
\<close>

definition log_ok :: "LogWriter \<Rightarrow> file_table \<Rightarrow> bool" where
  "log_ok w ft \<longleftrightarrow>
     (case lw_file w of
        Handle h \<Rightarrow> lw_path w \<noteq> [] \<and> ft_open ft = [(h, lw_path w)] \<and> h < ft_next ft
      | _ \<Rightarrow> lw_path w = [] \<and> ft_open ft = [])"

lemma log_ok_open: "log_ok w ft \<Longrightarrow> is_open (lw_file w) ft"
  by (auto simp: log_ok_def is_open_def split: file_handle.splits)

lemma NewLogger_ok:
  assumes "NewLogger openErr cfg ft = (r, ft')" and "ft_open ft = []"
  shows "case r of Inl err \<Rightarrow> ft_open ft' = [] | Inr (l, w) \<Rightarrow> log_ok w ft'"
proof -
  have "LogOutput cfg \<noteq> []" if "ToLower (LogOutput cfg) \<noteq> []" using that by auto
  with assms show ?thesis
    by (auto simp: NewLogger_def newLogWriter_def OpenFile_def LogWriter_Close_def log_ok_def Let_def
        split: sum.splits option.splits if_splits)
qed

lemma Reopen_ok:
  assumes "log_ok w ft" and "LogWriter_Reopen openErr w ft = (e, w', ft')"
  shows "log_ok w' ft' \<and> lw_path w' = lw_path w \<and> ft_written ft' = ft_written ft \<and> (e \<noteq> None \<longrightarrow> w' = w \<and> ft' = ft)"
  using assms
  by (auto simp: log_ok_def LogWriter_Reopen_def OpenFile_def split: file_handle.splits option.splits if_splits)

lemma Write_ok:
  assumes "log_ok w ft"
  shows "\<exists>ft'. LogWriter_Write p w ft = (Inr (length p), ft') \<and> log_ok w ft' \<and> ft_written ft' = ft_written ft @ [(lw_file w, p)]"
  using assms log_ok_open [OF assms]
  by (auto simp: LogWriter_Write_def WriteFile_def log_ok_def split: file_handle.splits)

lemma Close_ok:
  assumes "log_ok w ft"
  shows "fst (LogWriter_Close w ft) = None \<and> ft_open (snd (LogWriter_Close w ft)) = []"
  using assms by (auto simp: log_ok_def LogWriter_Close_def split: file_handle.splits)

text \<open>
  Rotation: after a successful reopening of a log file, what is written goes to a new handle of the same path.
\<close>

lemma reopened_is_new:
  assumes "log_ok w ft" and "lw_path w \<noteq> []" and "LogWriter_Reopen openErr w ft = (None, w', ft')"
  shows "lw_file w' \<noteq> lw_file w \<and> \<not> is_open (lw_file w) ft' \<and> ft_open ft' = [(ft_next ft, lw_path w)]"
  using assms
  by (auto simp: log_ok_def LogWriter_Reopen_def OpenFile_def is_open_def split: file_handle.splits option.splits)

text \<open>A configuration that says nothing about the log gives a logger on the error stream.\<close>

lemma NewLogger_default:
  "NewLogger openErr (setLoggingDefaults \<lparr>LogOutput = [], LogFormat = [], LogLevel = []\<rparr>) ft
     = (Inr (\<lparr>sl_level = LevelInfo, sl_format = TextHandler\<rparr>, \<lparr>lw_path = [], lw_file = Stderr\<rparr>), ft)"
  by (simp add: setLoggingDefaults_def default_str_def NewLogger_def parseLogLevel_def newLogWriter_def ToLower_def
      lower_char_def Let_def)

text \<open>An output whose name is one of the streams in another case is that stream, never a file.\<close>

lemma stream_names:
  "ToLower output \<in> {'''', ''stderr'', ''stdout'', ''syslog''} \<Longrightarrow>
     \<exists>w. newLogWriter openErr output ft = (Inr w, ft) \<and> lw_path w = []"
  by (auto simp: newLogWriter_def Let_def)

end
