(* ===== verification/IP_Expansion.thy ===== *)
theory IP_Expansion
  imports Go_Net
begin

text \<open>
  The expansion of source address lists, \<^verbatim>\<open>internal/config/ip_expansion.go\<close>: \<open>ExpandSourceIPs\<close>,
  \<open>expandCIDR\<close> and \<open>isIPv4\<close>, with what they use of package \<^verbatim>\<open>net\<close> (\<open>ParseCIDR\<close>, \<open>IP.Mask\<close>,
  \<open>IP.String\<close>).
\<close>

section \<open>Subnets and the textual form of an address\<close>

text \<open>A subnet is the masked network address with the length \<open>ones\<close> of its mask of \<open>bits\<close> bits.\<close>

record IPNet =
  NetIP :: ipbytes
  NetOnes :: nat
  NetBits :: nat

text \<open>The byte \<open>i\<close> of a mask of \<open>ones\<close> bits keeps the high bits of the address byte.\<close>

definition mask_byte :: "nat \<Rightarrow> nat \<Rightarrow> nat \<Rightarrow> nat" where
  "mask_byte ones i b =
     (if 8 * (i + 1) \<le> ones then b
      else if ones \<le> 8 * i then 0
      else b - b mod 2 ^ (8 * (i + 1) - ones))"

definition mask_ip :: "nat \<Rightarrow> ipbytes \<Rightarrow> ipbytes" where
  "mask_ip ones ip = map (\<lambda>(i, b). mask_byte ones i b) (enumerate 0 ip)"

definition ParseCIDR :: "string \<Rightarrow> IPNet option" where
  "ParseCIDR s =
     (case IndexByte s CHR ''/'' of
        None \<Rightarrow> None
      | Some i \<Rightarrow>
          let addr = take i s; mask = drop (Suc i) s in
          (case ParseIP addr of
             None \<Rightarrow> None
           | Some ip16 \<Rightarrow>
               let v4 = (case find (\<lambda>c. c \<in> set ''.:'') addr of Some c \<Rightarrow> c = CHR ''.'' | None \<Rightarrow> False);
                   bits = (if v4 then 32 else 128);
                   ip = (if v4 then drop 12 ip16 else ip16)
               in if mask = [] \<or> \<not> list_all is_digit mask \<or> digits_value mask > bits then None
                  else Some \<lparr>NetIP = mask_ip (digits_value mask) ip,
                             NetOnes = digits_value mask, NetBits = bits\<rparr>))"

definition hex_char :: "nat \<Rightarrow> char" where
  "hex_char d = (if d < 10 then char_of (48 + d) else char_of (87 + d))"

fun hex_digits :: "nat \<Rightarrow> string" where
  "hex_digits n = (if n < 16 then [hex_char n] else hex_digits (n div 16) @ [hex_char (n mod 16)])"

declare hex_digits.simps [simp del]

fun groups16 :: "ipbytes \<Rightarrow> nat list" where
  "groups16 (a # b # bs) = (256 * a + b) # groups16 bs"
| "groups16 _ = []"

definition zero_run :: "nat list \<Rightarrow> nat" where
  "zero_run gs = length (takeWhile (\<lambda>g. g = 0) gs)"

text \<open>The leftmost of the longest runs of zero groups, as start and length.\<close>

fun longest_run :: "nat \<Rightarrow> nat list \<Rightarrow> nat \<times> nat" where
  "longest_run i [] = (i, 0)"
| "longest_run i (g # gs) =
     (let l = zero_run (g # gs); (j, m) = longest_run (Suc i) gs in if l \<ge> m then (i, l) else (j, m))"

definition v6_string :: "ipbytes \<Rightarrow> string" where
  "v6_string ip =
     (let gs = groups16 ip; (j, m) = longest_run 0 gs in
      if m < 2 then Join (map hex_digits gs) '':''
      else Join (map hex_digits (take j gs)) '':'' @ ''::'' @ Join (map hex_digits (drop (j + m) gs)) '':'')"

definition v4_string :: "ipbytes \<Rightarrow> string" where
  "v4_string ip = Join (map (\<lambda>b. Itoa (int b)) ip) ''.''"

text \<open>\<open>IP.String\<close> for addresses of 4 and 16 bytes.\<close>

definition ip_string :: "ipbytes \<Rightarrow> string" where
  "ip_string ip = (case To4 ip of Some v4 \<Rightarrow> v4_string v4 | None \<Rightarrow> v6_string ip)"

section \<open>Expansion\<close>

text \<open>
  The carry loop runs from the last byte to the first; here the bytes come least significant first.
  The carry stays below \<open>2 ^ 12\<close>, so the 32-bit arithmetic of the source does not wrap.
\<close>

fun addCarry :: "nat list \<Rightarrow> nat \<Rightarrow> nat list" where
  "addCarry [] carry = []"
| "addCarry (b # bs) carry =
     (if carry = 0 then b # bs
      else let val = b + carry mod 256
           in val mod 256 # addCarry bs (carry div 256 + val div 256))"

definition nextIP :: "ipbytes \<Rightarrow> nat \<Rightarrow> ipbytes" where
  "nextIP ip i = rev (addCarry (rev ip) i)"

text \<open>Does the loop body skip host number \<open>i\<close>?\<close>

definition skipHost :: "nat \<Rightarrow> nat \<Rightarrow> nat \<Rightarrow> nat \<Rightarrow> bool" where
  "skipHost bits ones numHosts i \<longleftrightarrow>
     bits = 32 \<and> ones < 31 \<and> (i = 0 \<or> i = numHosts - 1) \<or> bits = 128 \<and> i = 0"

definition expandedHosts :: "IPNet \<Rightarrow> ipbytes list" where
  "expandedHosts n =
     (let numHosts = 2 ^ (NetBits n - NetOnes n) in
      map (nextIP (mask_ip (NetOnes n) (NetIP n)))
        (filter (\<lambda>i. \<not> skipHost (NetBits n) (NetOnes n) numHosts i) [0..<numHosts]))"

definition expandCIDR :: "IPNet \<Rightarrow> goerror + string list" where
  "expandCIDR n =
     (let ones = NetOnes n; bits = NetBits n; numHosts = 2 ^ (bits - ones) :: nat in
      if bits = 32 \<and> ones < 22
      then Inl (ErrText (''IPv4 subnet too large (/'' @ Itoa (int ones) @ ''), maximum allowed is /22 (1024 IPs)''))
      else if bits \<noteq> 32 \<and> ones < 120
      then Inl (ErrText (''IPv6 subnet too large (/'' @ Itoa (int ones) @ ''), maximum allowed is /120 (256 IPs)''))
      else if numHosts > 2048
      then Inl (ErrText (''subnet too large ('' @ Itoa (int numHosts) @ '' IPs), maximum 2048 allowed''))
      else Inr (map ip_string (expandedHosts n)))"

definition isIPv4 :: "string \<Rightarrow> bool" where
  "isIPv4 s = (case ParseIP s of None \<Rightarrow> False | Some ip \<Rightarrow> To4 ip \<noteq> None)"

record ExpandedSourceIPs =
  ExpIPv4 :: "string list"
  ExpIPv6 :: "string list"

definition appendIP :: "ExpandedSourceIPs \<Rightarrow> string \<Rightarrow> ExpandedSourceIPs" where
  "appendIP r ip =
     (if isIPv4 ip then r\<lparr>ExpIPv4 := ExpIPv4 r @ [ip]\<rparr> else r\<lparr>ExpIPv6 := ExpIPv6 r @ [ip]\<rparr>)"

fun expandEntries :: "string list \<Rightarrow> ExpandedSourceIPs \<Rightarrow> goerror + ExpandedSourceIPs" where
  "expandEntries [] result = Inr result"
| "expandEntries (entry # es) result =
     (case ParseCIDR entry of
        Some ipNet \<Rightarrow>
          (case expandCIDR ipNet of
             Inl err \<Rightarrow> Inl (wrapErr (''failed to expand CIDR '' @ entry @ '': '') err)
           | Inr expanded \<Rightarrow> expandEntries es (foldl appendIP result expanded))
      | None \<Rightarrow>
          (case ParseIP entry of
             None \<Rightarrow> Inl (ErrText (''invalid IP address: '' @ entry))
           | Some ip \<Rightarrow> expandEntries es (appendIP result (ip_string ip))))"

definition ExpandSourceIPs :: "string list \<Rightarrow> goerror + ExpandedSourceIPs" where
  "ExpandSourceIPs sourceIPs = expandEntries sourceIPs \<lparr>ExpIPv4 = [], ExpIPv6 = []\<rparr>"

section \<open>Lemmas\<close>

text \<open>The number an address stands for.\<close>

fun le_value :: "nat list \<Rightarrow> nat" where
  "le_value [] = 0"
| "le_value (b # bs) = b + 256 * le_value bs"

definition ip_value :: "ipbytes \<Rightarrow> nat" where
  "ip_value ip = le_value (rev ip)"

lemma length_addCarry [simp]: "length (addCarry bs c) = length bs"
  by (induction bs c rule: addCarry.induct) (simp_all add: Let_def)

lemma addCarry_bytes: "\<forall>b\<in>set bs. b < 256 \<Longrightarrow> \<forall>b\<in>set (addCarry bs c). b < 256"
proof (induction bs c rule: addCarry.induct)
  case (1 c)
  show ?case by simp
next
  case (2 b bs c)
  show ?case
  proof (cases "c = 0")
    case True
    with 2 show ?thesis by simp
  next
    case False
    let ?v = "b + c mod 256"
    let ?k = "c div 256 + ?v div 256"
    from 2 have "\<forall>b\<in>set bs. b < 256" by simp
    from 2(1) [OF False refl this] have "\<forall>b\<in>set (addCarry bs ?k). b < 256" .
    moreover have "?v mod 256 < 256" by simp
    moreover have "addCarry (b # bs) c = ?v mod 256 # addCarry bs ?k"
      using False by (simp only: addCarry.simps Let_def if_False)
    ultimately show ?thesis by (simp only: list.set ball_simps simp_thms)
  qed
qed

lemma le_value_bound: "\<forall>b\<in>set bs. b < 256 \<Longrightarrow> le_value bs < 256 ^ length bs"
proof (induction bs)
  case Nil
  show ?case by simp
next
  case (Cons b bs)
  then have "b < 256" and "Suc (le_value bs) \<le> 256 ^ length bs" by (auto simp: Suc_le_eq)
  then have "256 * Suc (le_value bs) \<le> 256 * 256 ^ length bs" by (intro mult_le_mono2)
  with \<open>b < 256\<close> show ?case by (simp only: le_value.simps list.size power_Suc power_add) simp
qed

lemma carry_split:
  "(b::nat) + 256 * v + c = 256 * (v + (c div 256 + (b + c mod 256) div 256)) + (b + c mod 256) mod 256"
proof -
  have "c = 256 * (c div 256) + c mod 256" by simp
  moreover have "b + c mod 256 = 256 * ((b + c mod 256) div 256) + (b + c mod 256) mod 256" by simp
  ultimately show ?thesis by (simp only: distrib_left)
qed

lemma byte_mod_step: "(r::nat) < 256 \<Longrightarrow> (256 * x + r) mod (256 * m) = r + 256 * (x mod m)"
  by (simp add: mod_mult2_eq)

lemma addCarry_value:
  "\<forall>b\<in>set bs. b < 256 \<Longrightarrow> le_value (addCarry bs c) = (le_value bs + c) mod 256 ^ length bs"
proof (induction bs c rule: addCarry.induct)
  case (1 c)
  show ?case by simp
next
  case (2 b bs c)
  show ?case
  proof (cases "c = 0")
    case True
    with 2 le_value_bound [of "b # bs"] show ?thesis by simp
  next
    case False
    let ?v = "b + c mod 256" and ?m = "256 ^ length bs :: nat"
    let ?k = "c div 256 + ?v div 256"
    have IH: "le_value (addCarry bs ?k) = (le_value bs + ?k) mod ?m"
      using 2 False by simp
    have "le_value (addCarry (b # bs) c) = ?v mod 256 + 256 * ((le_value bs + ?k) mod ?m)"
      using False IH by (simp add: Let_def)
    also have "\<dots> = (256 * (le_value bs + ?k) + ?v mod 256) mod (256 * ?m)"
      by (rule byte_mod_step [symmetric]) simp
    finally show ?thesis by (simp only: carry_split [of b "le_value bs" c] le_value.simps list.size power_Suc
          add_Suc_right add_0_right)
  qed
qed

lemma nextIP_value:
  "\<forall>b\<in>set ip. b < 256 \<Longrightarrow> ip_value (nextIP ip i) = (ip_value ip + i) mod 256 ^ length ip"
  by (simp add: nextIP_def ip_value_def addCarry_value)

lemma ip_value_Cons: "ip_value (b # bs) = b * 256 ^ length bs + ip_value bs"
proof -
  have "le_value (xs @ [b]) = le_value xs + 256 ^ length xs * b" for xs
    by (induction xs) (simp_all add: algebra_simps)
  then show ?thesis by (simp add: ip_value_def)
qed

lemma ip_value_Nil [simp]: "ip_value [] = 0"
  by (simp add: ip_value_def)

lemma pow256: "(256::nat) ^ n = 2 ^ (8 * n)"
  by (simp add: power_mult)

lemma masked_dvd:
  "2 ^ (8 * (i + length bs) - ones) dvd ip_value (map (\<lambda>(i, b). mask_byte ones i b) (enumerate i bs))"
proof (induction bs arbitrary: i)
  case Nil
  show ?case by simp
next
  case (Cons b bs)
  let ?n = "length bs"
  let ?e = "8 * (i + length (b # bs)) - ones"
  have rest: "2 ^ ?e dvd ip_value (map (\<lambda>(i, b). mask_byte ones i b) (enumerate (Suc i) bs))"
    using Cons [of "Suc i"] by simp
  have "2 ^ ?e dvd mask_byte ones i b * 256 ^ ?n"
  proof (cases "8 * (i + 1) \<le> ones")
    case True
    then have "?e \<le> 8 * ?n" by simp
    then have "(2::nat) ^ ?e dvd 256 ^ ?n" by (simp only: pow256 le_imp_power_dvd)
    then show ?thesis by (rule dvd_mult)
  next
    case False
    let ?k = "8 * (i + 1) - ones"
    have e: "ones > 8 * i \<Longrightarrow> ?e = ?k + 8 * ?n" using False by simp
    have "2 ^ ?k dvd b - b mod 2 ^ ?k" by (rule dvd_minus_mod)
    then have "2 ^ ?k * 256 ^ ?n dvd (b - b mod 2 ^ ?k) * 256 ^ ?n" by (rule mult_dvd_mono) simp
    then have "2 ^ (?k + 8 * ?n) dvd (b - b mod 2 ^ ?k) * 256 ^ ?n" by (simp only: pow256 power_add)
    then show ?thesis using False e unfolding mask_byte_def by (cases "ones \<le> 8 * i") simp_all
  qed
  with rest show ?case by (simp add: ip_value_Cons dvd_add)
qed

lemma mask_ip_length [simp]: "length (mask_ip ones ip) = length ip"
  by (simp add: mask_ip_def)

lemma mask_byte_le: "mask_byte ones i b \<le> b"
  by (simp add: mask_byte_def)

lemma mask_ip_bytes:
  assumes "\<forall>b\<in>set ip. b < 256"
  shows "\<forall>b\<in>set (mask_ip ones ip). b < 256"
proof
  fix b assume "b \<in> set (mask_ip ones ip)"
  then obtain i where "i < length ip" and "b = mask_byte ones i (ip ! i)"
    by (auto simp: mask_ip_def in_set_conv_nth nth_enumerate_eq)
  with assms mask_byte_le [of ones i "ip ! i"] show "b < 256"
    by (meson le_less_trans nth_mem)
qed

text \<open>Inside the subnet no host number carries out of the host part.\<close>

lemma host_no_wrap:
  assumes "\<forall>b\<in>set ip. b < 256" and "ones \<le> 8 * length ip" and "i < 2 ^ (8 * length ip - ones)"
  shows "ip_value (nextIP (mask_ip ones ip) i) = ip_value (mask_ip ones ip) + i"
proof -
  let ?n = "mask_ip ones ip" and ?h = "2 ^ (8 * length ip - ones) :: nat"
  have bytes: "\<forall>b\<in>set ?n. b < 256" by (rule mask_ip_bytes [OF assms(1)])
  have dvd: "?h dvd ip_value ?n" using masked_dvd [of 0 ip ones] by (simp add: mask_ip_def)
  have "?h * 2 ^ ones = (2::nat) ^ (8 * length ip)" using assms(2) by (simp flip: power_add)
  then have total: "256 ^ length ip = ?h * 2 ^ ones" by (simp add: pow256)
  have "ip_value ?n < 256 ^ length ip"
    using le_value_bound [of "rev ?n"] bytes by (simp add: ip_value_def)
  with dvd total obtain q where q: "ip_value ?n = ?h * q" and "q < 2 ^ ones" by (auto elim!: dvdE)
  then have "?h * Suc q \<le> ?h * 2 ^ ones" by (intro mult_le_mono2) simp
  with q assms(3) total have "ip_value ?n + i < 256 ^ length ip" by simp
  then show ?thesis using nextIP_value [OF bytes, of i] by simp
qed

section \<open>Properties\<close>

text \<open>The subnets that \<open>ParseCIDR\<close> gives.\<close>

definition net_ok :: "IPNet \<Rightarrow> bool" where
  "net_ok n \<longleftrightarrow> list_all (\<lambda>b. b < 256) (NetIP n) \<and> 8 * length (NetIP n) = NetBits n
     \<and> NetOnes n \<le> NetBits n \<and> NetBits n \<in> set [32, 128]"

definition net_base :: "IPNet \<Rightarrow> nat" where
  "net_base n = ip_value (mask_ip (NetOnes n) (NetIP n))"

lemma expandedHosts_values:
  assumes "net_ok n"
  shows "map ip_value (expandedHosts n) =
    map (\<lambda>i. net_base n + i)
      (filter (\<lambda>i. \<not> skipHost (NetBits n) (NetOnes n) (2 ^ (NetBits n - NetOnes n)) i)
         [0..<2 ^ (NetBits n - NetOnes n)])"
  using assms host_no_wrap [of "NetIP n" "NetOnes n"]
  by (auto simp: expandedHosts_def net_base_def net_ok_def list_all_iff Let_def)

lemma tail_filter: "filter (\<lambda>i. 0 < i) [0..<m] = [1..<m]"
  by (cases m) (auto simp: upt_conv_Cons filter_id_conv simp del: upt_Suc)

lemma interior_filter:
  "filter (\<lambda>i. \<not> (i = 0 \<or> i = m - 1)) [0..<m] = [1..<m - 1]"
proof (cases m)
  case 0
  then show ?thesis by simp
next
  case (Suc k)
  then have m: "[0..<m] = [0..<k] @ [k]" by simp
  have "filter (\<lambda>i. \<not> (i = 0 \<or> i = k)) [0..<k] = filter (\<lambda>i. 0 < i) [0..<k]"
    by (rule filter_cong) auto
  then show ?thesis by (simp only: m) (simp add: Suc tail_filter)
qed



text \<open>
  A single IPv6 address written as a /128 subnet is accepted and expands to no address at all:
  the rule that skips the unspecified address skips host number 0 of every IPv6 subnet.
\<close>

lemma single_ipv6_subnet_lost:
  "expandCIDR \<lparr>NetIP = ip, NetOnes = 128, NetBits = 128\<rparr> = Inr []
   \<and> ExpandSourceIPs [''::1/128''] = Inr \<lparr>ExpIPv4 = [], ExpIPv6 = []\<rparr>"
proof -
  have "ParseCIDR ''::1/128''
      = Some \<lparr>NetIP = [0, 0, 0, 0, 0, 0, 0, 0, 0, 0, 0, 0, 0, 0, 0, 1], NetOnes = 128, NetBits = 128\<rparr>"
    by code_simp
  moreover have "expandCIDR \<lparr>NetIP = ip, NetOnes = 128, NetBits = 128\<rparr> = Inr []" for ip
    by (simp add: expandCIDR_def expandedHosts_def skipHost_def Let_def)
  ultimately show ?thesis by (simp add: ExpandSourceIPs_def)
qed

end
