(* ===== verification/Error_Classifier.thy ===== *)
theory Error_Classifier
  imports Go_Prelude
begin

text \<open>
  The error classifier, \<^verbatim>\<open>internal/delivery/error_classifier.go\<close>: the categories, the record
  \<open>DeliveryError\<close>, the classification of network errors and of SMTP replies, and the two decisions
  taken from a category (deactivation of an address, retry). A nil result of the source is
  \<^const>\<open>None\<close>.
\<close>

section \<open>Model\<close>

text \<open>
  \<open>ErrorCategory\<close> is a string type with six constants; \<open>ErrorOther\<close> stands for any other string, so
  that the default branches of the switches on it are branches of the model.
\<close>

datatype ErrorCategory =
    ErrorTemporary
  | ErrorPermanent
  | ErrorGreylist
  | ErrorNetwork
  | ErrorThrottled
  | ErrorReputation
  | ErrorOther string

fun category_text :: "ErrorCategory \<Rightarrow> string" where
  "category_text ErrorTemporary = ''temporary''"
| "category_text ErrorPermanent = ''permanent''"
| "category_text ErrorGreylist = ''greylist''"
| "category_text ErrorNetwork = ''network''"
| "category_text ErrorThrottled = ''throttled''"
| "category_text ErrorReputation = ''reputation''"
| "category_text (ErrorOther s) = s"

record DeliveryError =
  Category :: ErrorCategory
  DE_SMTPCode :: int
  DE_SMTPResponse :: string
  DE_Message :: string
  OriginalErr :: "goerror option"
  ImmediateDegrade :: bool

definition DeliveryError_Error :: "DeliveryError \<Rightarrow> string" where
  "DeliveryError_Error e =
     (if DE_SMTPCode e > 0
      then category_text (Category e) @ '' error (SMTP '' @ Itoa (DE_SMTPCode e) @ ''): '' @ DE_Message e
      else category_text (Category e) @ '' error: '' @ DE_Message e)"

definition DeliveryError_Unwrap :: "DeliveryError \<Rightarrow> goerror option" where
  "DeliveryError_Unwrap e = OriginalErr e"

definition networkDeliveryError :: "string \<Rightarrow> goerror \<Rightarrow> DeliveryError" where
  "networkDeliveryError label err =
     \<lparr>Category = ErrorNetwork, DE_SMTPCode = 0, DE_SMTPResponse = [],
      DE_Message = label @ err_text err, OriginalErr = Some err, ImmediateDegrade = False\<rparr>"

definition classifyNetworkError :: "goerror \<Rightarrow> DeliveryError" where
  "classifyNetworkError err =
     (let errStr = ToLower (err_text err) in
      if Contains errStr ''deadline exceeded'' \<or> Contains errStr ''timeout''
      then networkDeliveryError ''Timeout exceeded: '' err
      else if Contains errStr ''no such host'' \<or> Contains errStr ''dns'' \<or> Contains errStr ''lookup''
      then networkDeliveryError ''DNS lookup failed: '' err
      else if Contains errStr ''connection refused'' \<or> Contains errStr ''connection reset''
        \<or> Contains errStr ''connection timeout'' \<or> Contains errStr ''i/o timeout''
        \<or> Contains errStr ''network''
      then networkDeliveryError ''Network connection failed: '' err
      else if Contains errStr ''tls'' \<or> Contains errStr ''certificate'' \<or> Contains errStr ''handshake''
      then networkDeliveryError ''TLS error: '' err
      else networkDeliveryError ''Network error: '' err)"

definition ipSignals :: "string list" where
  "ipSignals =
     [''your ip'', ''ip address'', ''sending ip'', ''is listed'', ''listed on'', ''listed in'',
      ''listed by'', ''reputation'', ''ptr'', ''rdns'', ''reverse dns'', ''blocklist'', ''blacklist'']"

definition hasIPScopedSignal :: "string \<Rightarrow> string \<Rightarrow> bool" where
  "hasIPScopedSignal responseLower sourceIP \<longleftrightarrow>
     (if sourceIP \<noteq> [] \<and> Contains responseLower (ToLower sourceIP) then True
      else contains_any responseLower ipSignals)"

definition strongKeywords :: "string list" where
  "strongKeywords =
     [''blacklist'', ''poor reputation'', ''rbl'', ''dnsbl'', ''spamhaus'', ''proofpoint'',
      ''cloudmark'', ''barracuda'']"

definition weakKeywords :: "string list" where
  "weakKeywords = [''blocked'', ''rejected for policy reasons'']"

text \<open>The result is the pair \<open>(isRep, strong)\<close>.\<close>

definition isReputationError :: "int \<Rightarrow> string \<Rightarrow> string \<Rightarrow> bool \<times> bool" where
  "isReputationError code response sourceIP =
     (let responseLower = ToLower response in
      if contains_any responseLower strongKeywords then (True, True)
      else if code \<ge> 500 \<and> code < 600
        \<and> list_ex (\<lambda>k. Contains responseLower k \<and> hasIPScopedSignal responseLower sourceIP) weakKeywords
      then (True, False)
      else (False, False))"

definition greylistKeywords :: "string list" where
  "greylistKeywords =
     [''greylist'', ''graylist'', ''grey-list'', ''gray-list'', ''grey listed'', ''gray listed'']"

definition isGreylistResponse :: "string \<Rightarrow> bool" where
  "isGreylistResponse response \<longleftrightarrow> contains_any (ToLower response) greylistKeywords"

definition classifyTemporaryError :: "int \<Rightarrow> string \<Rightarrow> string" where
  "classifyTemporaryError code response =
     (let r = ToLower response in
      if code = 421 then ''Service not available (rate limiting or server shutdown)''
      else if code = 450 then
        (if Contains r ''rate'' \<or> Contains r ''limit'' \<or> Contains r ''too many''
         then ''Rate limit exceeded'' else ''Mailbox busy or unavailable'')
      else if code = 451 then
        (if Contains r ''rate'' \<or> Contains r ''limit''
         then ''Rate limit exceeded'' else ''Local processing error'')
      else if code = 452 then
        (if Contains r ''recipient'' then ''Too many recipients''
         else if Contains r ''rate'' \<or> Contains r ''limit'' then ''Rate limit exceeded''
         else ''Insufficient system storage'')
      else if code = 454 then
        (if Contains r ''tls'' \<or> Contains r ''starttls'' then ''TLS negotiation failed''
         else if Contains r ''relay'' then ''Relay access denied (deferred)''
         else ''Temporary failure (SMTP 454)'')
      else if Contains r ''quota'' then ''Mailbox quota exceeded''
      else if Contains r ''rate'' then ''Rate limiting''
      else if Contains r ''busy'' then ''Server busy''
      else ''Temporary failure (SMTP '' @ Itoa code @ '')'')"

definition classifyPermanentError :: "int \<Rightarrow> string \<Rightarrow> string" where
  "classifyPermanentError code response =
     (let r = ToLower response in
      if code = 550 then
        (if Contains r ''user'' \<and> (Contains r ''not found'' \<or> Contains r ''unknown'')
         then ''User not found''
         else if Contains r ''mailbox'' \<and> Contains r ''unavailable'' then ''Mailbox unavailable''
         else if Contains r ''relay'' \<or> Contains r ''relaying'' then ''Relaying denied''
         else if Contains r ''spam'' \<or> Contains r ''blocked'' then ''Message rejected as spam''
         else ''Mailbox unavailable or policy rejection'')
      else if code = 551 then ''User not local, try different path''
      else if code = 552 then ''Message size exceeds limit''
      else if code = 553 then
        (if Contains r ''relay'' then ''Relaying denied'' else ''Invalid mailbox name'')
      else if code = 554 then
        (if Contains r ''spam'' then ''Rejected as spam''
         else if Contains r ''policy'' then ''Policy rejection''
         else ''Transaction failed'')
      else ''Permanent failure (SMTP '' @ Itoa code @ '')'')"

definition replyError :: "ErrorCategory \<Rightarrow> int \<Rightarrow> string \<Rightarrow> string \<Rightarrow> bool \<Rightarrow> DeliveryError" where
  "replyError cat code response message immediate =
     \<lparr>Category = cat, DE_SMTPCode = code, DE_SMTPResponse = response, DE_Message = message,
      OriginalErr = None, ImmediateDegrade = immediate\<rparr>"

definition classifySMTPCode :: "int \<Rightarrow> string \<Rightarrow> string \<Rightarrow> DeliveryError option" where
  "classifySMTPCode code response sourceIP =
     (if code \<ge> 200 \<and> code < 300 then None
      else let (isRep, strong) = isReputationError code response sourceIP in
      if isRep
      then Some (replyError ErrorReputation code response ''IP reputation/blacklist error'' strong)
      else if code \<ge> 400 \<and> code < 500 \<and> isGreylistResponse response
      then Some (replyError ErrorGreylist code response ''Greylisting detected'' False)
      else if code \<ge> 400 \<and> code < 500
      then Some (replyError ErrorTemporary code response (classifyTemporaryError code response) False)
      else if code \<ge> 500 \<and> code < 600
      then Some (replyError ErrorPermanent code response (classifyPermanentError code response) False)
      else Some (replyError ErrorNetwork code response (''Unknown SMTP code: '' @ Itoa code) False))"

definition ClassifyError ::
  "int \<Rightarrow> string \<Rightarrow> string \<Rightarrow> goerror option \<Rightarrow> DeliveryError option" where
  "ClassifyError smtpCode smtpResponse sourceIP err =
     (case err of
        Some e \<Rightarrow>
          if smtpCode = 0 then Some (classifyNetworkError e)
          else classifySMTPCode smtpCode smtpResponse sourceIP
      | None \<Rightarrow> classifySMTPCode smtpCode smtpResponse sourceIP)"

definition ShouldDeactivateEmail :: "ErrorCategory \<Rightarrow> int \<Rightarrow> string \<Rightarrow> bool" where
  "ShouldDeactivateEmail category smtpCode response =
     (if category \<noteq> ErrorPermanent then False
      else let r = ToLower response in
      if smtpCode = 550 \<and> Contains r ''user'' \<and> (Contains r ''not found'' \<or> Contains r ''unknown'')
      then True
      else if smtpCode = 550 \<and> Contains r ''mailbox''
        \<and> (Contains r ''not found'' \<or> Contains r ''does not exist'')
      then True
      else if smtpCode = 550 \<and> Contains r ''recipient''
        \<and> (Contains r ''not found'' \<or> Contains r ''unknown'')
      then True
      else if smtpCode = 553 \<and> \<not> Contains r ''relay'' then True
      else False)"

fun IsRetryable :: "ErrorCategory \<Rightarrow> bool" where
  "IsRetryable ErrorTemporary = True"
| "IsRetryable ErrorGreylist = True"
| "IsRetryable ErrorNetwork = True"
| "IsRetryable ErrorThrottled = True"
| "IsRetryable ErrorReputation = True"
| "IsRetryable ErrorPermanent = False"
| "IsRetryable (ErrorOther _) = False"

section \<open>Lemmas\<close>

lemma networkDeliveryError_sel [simp]:
  "Category (networkDeliveryError p e) = ErrorNetwork"
  "DE_SMTPCode (networkDeliveryError p e) = 0"
  "OriginalErr (networkDeliveryError p e) = Some e"
  "ImmediateDegrade (networkDeliveryError p e) = False"
  "DE_Message (networkDeliveryError p e) = p @ err_text e"
  by (simp_all add: networkDeliveryError_def)

lemma replyError_sel [simp]:
  "Category (replyError c code r m b) = c"
  "DE_SMTPCode (replyError c code r m b) = code"
  "DE_SMTPResponse (replyError c code r m b) = r"
  "DE_Message (replyError c code r m b) = m"
  "OriginalErr (replyError c code r m b) = None"
  "ImmediateDegrade (replyError c code r m b) = b"
  by (simp_all add: replyError_def)

lemma classifyNetworkError_sel [simp]:
  "Category (classifyNetworkError e) = ErrorNetwork"
  "DE_SMTPCode (classifyNetworkError e) = 0"
  "OriginalErr (classifyNetworkError e) = Some e"
  "ImmediateDegrade (classifyNetworkError e) = False"
  by (simp_all add: classifyNetworkError_def Let_def)

lemma networkDeliveryError_text: "suffix (err_text e) (DE_Message (networkDeliveryError p e))"
  by (simp add: suffix_def)

lemma classifyNetworkError_text: "suffix (err_text e) (DE_Message (classifyNetworkError e))"
  by (simp add: classifyNetworkError_def Let_def networkDeliveryError_text
        del: networkDeliveryError_sel(5))

text \<open>The decisions on a reply as facts about its code and its lower-cased text.\<close>

lemma isReputationError_strong:
  "isReputationError code r ip = (True, True) \<longleftrightarrow> contains_any (ToLower r) strongKeywords"
  by (auto simp: isReputationError_def Let_def)

lemma isReputationError_weak:
  "isReputationError code r ip = (True, False) \<longleftrightarrow>
     \<not> contains_any (ToLower r) strongKeywords \<and> 500 \<le> code \<and> code < 600
     \<and> contains_any (ToLower r) weakKeywords \<and> hasIPScopedSignal (ToLower r) ip"
  by (auto simp: isReputationError_def Let_def weakKeywords_def)

lemma isReputationError_result:
  "isReputationError code r ip \<in> {(True, True), (True, False), (False, False)}"
  by (simp add: isReputationError_def Let_def)

lemma isReputationError_cases:
  obtains (strong) "isReputationError code r ip = (True, True)"
  | (weak) "isReputationError code r ip = (True, False)"
  | (none) "isReputationError code r ip = (False, False)"
  using isReputationError_result [of code r ip] by auto

lemma classifySMTPCode_None_iff:
  "classifySMTPCode code r ip = None \<longleftrightarrow> 200 \<le> code \<and> code < 300"
  by (cases rule: isReputationError_cases [of code r ip]) (simp_all add: classifySMTPCode_def)

lemma classifySMTPCode_code:
  "classifySMTPCode code r ip = Some d \<Longrightarrow>
     DE_SMTPCode d = code \<and> DE_SMTPResponse d = r \<and> OriginalErr d = None"
  by (cases rule: isReputationError_cases [of code r ip])
     (auto simp: classifySMTPCode_def split: if_splits)

lemma classifySMTPCode_reputation:
  "classifySMTPCode code r ip = Some d \<Longrightarrow>
     Category d = ErrorReputation \<longleftrightarrow> fst (isReputationError code r ip)"
  by (cases rule: isReputationError_cases [of code r ip])
     (auto simp: classifySMTPCode_def split: if_splits)

lemma classifySMTPCode_immediate:
  "classifySMTPCode code r ip = Some d \<Longrightarrow>
     ImmediateDegrade d \<longleftrightarrow> isReputationError code r ip = (True, True)"
  by (cases rule: isReputationError_cases [of code r ip])
     (auto simp: classifySMTPCode_def split: if_splits)

lemma classifySMTPCode_permanent:
  "classifySMTPCode code r ip = Some d \<Longrightarrow>
     Category d = ErrorPermanent \<longleftrightarrow>
       500 \<le> code \<and> code < 600 \<and> \<not> fst (isReputationError code r ip)"
  by (cases rule: isReputationError_cases [of code r ip])
     (auto simp: classifySMTPCode_def split: if_splits)

lemma classifySMTPCode_category:
  "classifySMTPCode code r ip = Some d \<Longrightarrow>
     Category d \<in> {ErrorReputation, ErrorGreylist, ErrorTemporary, ErrorPermanent, ErrorNetwork}"
  by (cases rule: isReputationError_cases [of code r ip])
     (auto simp: classifySMTPCode_def split: if_splits)

lemma IsRetryable_classified:
  "classifySMTPCode code r ip = Some d \<Longrightarrow> IsRetryable (Category d) \<longleftrightarrow> Category d \<noteq> ErrorPermanent"
  by (drule classifySMTPCode_category) auto

lemma ClassifyError_smtp: "code \<noteq> 0 \<Longrightarrow> ClassifyError code r ip err = classifySMTPCode code r ip"
  by (simp add: ClassifyError_def split: option.split)

lemma ClassifyError_network: "ClassifyError 0 r ip (Some e) = Some (classifyNetworkError e)"
  by (simp add: ClassifyError_def)

lemma contains_any_append_left: "contains_any t ks \<Longrightarrow> contains_any (s @ t) ks"
  unfolding contains_any_def list_ex_iff by (blast intro: Contains_append_left)

lemma strong_keyword_classified:
  assumes "contains_any (ToLower r) strongKeywords" and "\<not> (200 \<le> code \<and> code < 300)"
  shows "classifySMTPCode code r ip =
    Some (replyError ErrorReputation code r ''IP reputation/blacklist error'' True)"
proof -
  from assms(1) have "isReputationError code r ip = (True, True)"
    by (simp only: isReputationError_strong)
  with assms(2) show ?thesis by (auto simp: classifySMTPCode_def)
qed

text \<open>The verdict reads the response through its lower-case form only.\<close>

definition verdict :: "DeliveryError \<Rightarrow> ErrorCategory \<times> int \<times> string \<times> bool" where
  "verdict d = (Category d, DE_SMTPCode d, DE_Message d, ImmediateDegrade d)"

lemma verdict_replyError [simp]: "verdict (replyError c code r m b) = (c, code, m, b)"
  by (simp add: verdict_def)

lemma reply_texts_fold:
  assumes "ToLower r = ToLower r'"
  shows "isReputationError code r ip = isReputationError code r' ip"
    and "isGreylistResponse r = isGreylistResponse r'"
    and "classifyTemporaryError code r = classifyTemporaryError code r'"
    and "classifyPermanentError code r = classifyPermanentError code r'"
  using assms
  by (simp_all only: isReputationError_def isGreylistResponse_def classifyTemporaryError_def
      classifyPermanentError_def Let_def)

section \<open>Properties\<close>

text \<open>
  The classification of a reply does not depend on the case of its text: two responses that
  are equal up to case get the same category, code, message and immediate-degrade flag.
\<close>

lemma classify_case_insensitive:
  assumes "ToLower r = ToLower r'"
  shows "map_option verdict (classifySMTPCode code r ip) = map_option verdict (classifySMTPCode code r' ip)"
  using reply_texts_fold [OF assms]
  by (cases rule: isReputationError_cases [of code r' ip]) (simp_all add: classifySMTPCode_def)

lemma classify_case_insensitive_witness:
  "map_option verdict (classifySMTPCode 554 ''Listed on SpamHaus'' [])
     = map_option verdict (classifySMTPCode 554 ''LISTED ON SPAMHAUS'' [])"
  by (rule classify_case_insensitive) code_simp

text \<open>
  C30. What counts as an IP reputation event: an explicit blocklist keyword at any code, which alone
  asks for immediate degradation, or, on a 5xx reply only, a weak keyword together with a signal that
  points at the sending IP. A per-message content block without such a signal never counts.
\<close>

theorem reputation_evidence:
  assumes "classifySMTPCode code r ip = Some d"
  shows "(Category d = ErrorReputation \<longleftrightarrow>
           contains_any (ToLower r) strongKeywords
           \<or> 500 \<le> code \<and> code < 600 \<and> contains_any (ToLower r) weakKeywords
             \<and> hasIPScopedSignal (ToLower r) ip)
       \<and> (ImmediateDegrade d \<longleftrightarrow> contains_any (ToLower r) strongKeywords)"
  using classifySMTPCode_reputation [OF assms] classifySMTPCode_immediate [OF assms]
    isReputationError_strong [of code r ip] isReputationError_weak [of code r ip]
  by (cases rule: isReputationError_cases [of code r ip]) simp_all

theorem reputation_evidence_witness:
  "\<exists>d. classifySMTPCode 550 ''5.7.1 this message has been blocked'' [] = Some d
     \<and> Category d \<noteq> ErrorReputation \<and> \<not> ImmediateDegrade d"
proof -
  let ?r = "''5.7.1 this message has been blocked''"
  obtain d where d: "classifySMTPCode 550 ?r [] = Some d"
    using classifySMTPCode_None_iff [of 550 ?r "[]"] by auto
  have "\<not> contains_any (ToLower ?r) strongKeywords" by code_simp
  moreover have "\<not> hasIPScopedSignal (ToLower ?r) []" by code_simp
  ultimately show ?thesis using d reputation_evidence [OF d] by simp
qed

end
