(* ===== verification/IP_Reputation.thy ===== *)
theory IP_Reputation
  imports Config Error_Classifier
begin

text \<open>
  The source IP reputation tracker, \<^verbatim>\<open>internal/delivery/ip_reputation.go\<close>. The two Go maps are
  association lists with distinct keys. The lock makes every operation atomic; each reading of the
  clock in an operation is an argument of its own. What the tracker emits is part of its state: the
  calls of the metrics interface (absent while no recorder is set) and the webhook requests, whose
  outcome the code only logs.
\<close>

section \<open>Model\<close>

record DegradedIPInfo =
  InfoIP :: string
  DegradedAt :: gotime
  RetryAfter :: gotime
  FailureCount :: int
  LastFailureError :: string
  LastSMTPCode :: int
  LastSMTPResponse :: string

record DeliveryInfo =
  InfoFrom :: string
  InfoTo :: string
  InfoSubject :: string
  InfoIdempotencyKey :: string
  InfoMXHost :: string

record ReputationAlert =
  AlertTimestamp :: gotime
  AlertSourceIP :: string
  EventType :: string
  AlertInfo :: "DeliveryInfo option"
  AlertSMTPCode :: int
  AlertSMTPResponse :: string
  AlertRetryAfter :: "gotime option"
  DegradedIPsCount :: nat

text \<open>The request of the webhook: its URL, the \<open>Authorization\<close> header if any, the alert.\<close>

record AlertRequest =
  ReqURL :: string
  ReqAuthorization :: "string option"
  ReqBody :: ReputationAlert

datatype reputation_metric =
    SetIPReputationDegraded string bool
  | RecordIPReputationEvent string string

record IPReputationTracker =
  degradedIPs :: "(string \<times> DegradedIPInfo) list"
  repStrikes :: "(string \<times> gotime list) list"
  rt_config :: ReputationConfig
  rt_enabled :: bool
  rt_metrics :: "reputation_metric list option"
  rt_alerts :: "AlertRequest list"

definition NewIPReputationTracker :: "ReputationConfig \<Rightarrow> IPReputationTracker" where
  "NewIPReputationTracker cfg =
     \<lparr>degradedIPs = [], repStrikes = [], rt_config = cfg, rt_enabled = EnableIPTracking cfg,
      rt_metrics = None, rt_alerts = []\<rparr>"

definition Enabled :: "IPReputationTracker \<Rightarrow> bool" where
  "Enabled rt = rt_enabled rt"

definition IsIPHealthy :: "IPReputationTracker \<Rightarrow> gotime \<Rightarrow> string \<Rightarrow> bool" where
  "IsIPHealthy rt now ip =
     (if \<not> rt_enabled rt then True
      else case map_of (degradedIPs rt) ip of
        None \<Rightarrow> True
      | Some info \<Rightarrow> RetryAfter info < now)"

definition sendAlert :: "ReputationAlert \<Rightarrow> IPReputationTracker \<Rightarrow> IPReputationTracker" where
  "sendAlert alert rt =
     (if AlertWebhookURL (rt_config rt) = [] then rt
      else rt\<lparr>rt_alerts := rt_alerts rt @
        [\<lparr>ReqURL = AlertWebhookURL (rt_config rt),
          ReqAuthorization =
            (if AlertAuthToken (rt_config rt) \<noteq> []
             then Some (''Bearer '' @ AlertAuthToken (rt_config rt)) else None),
          ReqBody = alert\<rparr>]\<rparr>)"

definition emitMetrics :: "reputation_metric list \<Rightarrow> IPReputationTracker \<Rightarrow> IPReputationTracker" where
  "emitMetrics ms rt = rt\<lparr>rt_metrics := map_option (\<lambda>xs. xs @ ms) (rt_metrics rt)\<rparr>"

definition degradedEntry ::
  "string \<Rightarrow> gotime \<Rightarrow> gotime \<Rightarrow> int \<Rightarrow> string \<Rightarrow> DegradedIPInfo option \<Rightarrow> DegradedIPInfo" where
  "degradedEntry ip now retryAfter smtpCode smtpResponse old =
     (let info = (case old of
                    None \<Rightarrow> \<lparr>InfoIP = ip, DegradedAt = now, RetryAfter = retryAfter, FailureCount = 1,
                             LastFailureError = [], LastSMTPCode = 0, LastSMTPResponse = []\<rparr>
                  | Some i \<Rightarrow> i\<lparr>FailureCount := FailureCount i + 1, DegradedAt := now, RetryAfter := retryAfter\<rparr>)
      in info\<lparr>LastFailureError := ''IP reputation/blacklist error'',
              LastSMTPCode := smtpCode, LastSMTPResponse := smtpResponse\<rparr>)"

definition MarkIPDegraded ::
  "string \<Rightarrow> int \<Rightarrow> string \<Rightarrow> DeliveryInfo \<Rightarrow> gotime \<Rightarrow> IPReputationTracker \<Rightarrow> IPReputationTracker" where
  "MarkIPDegraded ip smtpCode smtpResponse deliveryInfo now rt =
     (if \<not> rt_enabled rt then rt
      else let retryAfter = now + DegradedRetryHours (rt_config rt) * Hour;
               info = degradedEntry ip now retryAfter smtpCode smtpResponse (map_of (degradedIPs rt) ip);
               rt1 = rt\<lparr>degradedIPs := AList.update ip info (degradedIPs rt)\<rparr>;
               rt2 = emitMetrics [SetIPReputationDegraded ip True, RecordIPReputationEvent ''degraded'' ip] rt1
           in sendAlert \<lparr>AlertTimestamp = now, AlertSourceIP = ip, EventType = ''degraded'',
                AlertInfo = Some deliveryInfo, AlertSMTPCode = smtpCode, AlertSMTPResponse = smtpResponse,
                AlertRetryAfter = Some retryAfter, DegradedIPsCount = length (degradedIPs rt1)\<rparr> rt2)"

definition MarkIPRecovered :: "string \<Rightarrow> gotime \<Rightarrow> IPReputationTracker \<Rightarrow> IPReputationTracker" where
  "MarkIPRecovered ip now rt =
     (if \<not> rt_enabled rt then rt
      else if map_of (degradedIPs rt) ip = None then rt
      else let rt1 = rt\<lparr>degradedIPs := AList.delete ip (degradedIPs rt)\<rparr>;
               rt2 = emitMetrics [SetIPReputationDegraded ip False, RecordIPReputationEvent ''recovered'' ip] rt1
           in sendAlert \<lparr>AlertTimestamp = now, AlertSourceIP = ip, EventType = ''recovered'',
                AlertInfo = None, AlertSMTPCode = 0, AlertSMTPResponse = [],
                AlertRetryAfter = None, DegradedIPsCount = length (degradedIPs rt1)\<rparr> rt2)"

definition strikeWindow :: "ReputationConfig \<Rightarrow> duration" where
  "strikeWindow cfg =
     (if DegradeWindowMinutes cfg \<le> 0 then 30 * Minute else DegradeWindowMinutes cfg * Minute)"

text \<open>The result is whether the threshold is reached.\<close>

definition recordStrike :: "string \<Rightarrow> gotime \<Rightarrow> IPReputationTracker \<Rightarrow> IPReputationTracker \<times> bool" where
  "recordStrike ip now rt =
     (let threshold = DegradeFailureThreshold (rt_config rt) in
      if threshold \<le> 1 then (rt, True)
      else let cutoff = now - strikeWindow (rt_config rt);
               strikes = (case map_of (repStrikes rt) ip of Some ts \<Rightarrow> ts | None \<Rightarrow> []);
               kept = filter (\<lambda>t. cutoff < t) strikes @ [now]
           in if int (length kept) \<ge> threshold
              then (rt\<lparr>repStrikes := AList.delete ip (repStrikes rt)\<rparr>, True)
              else (rt\<lparr>repStrikes := AList.update ip kept (repStrikes rt)\<rparr>, False))"

definition clearStrikes :: "string \<Rightarrow> IPReputationTracker \<Rightarrow> IPReputationTracker" where
  "clearStrikes ip rt =
     (if map_of (repStrikes rt) ip = None then rt
      else rt\<lparr>repStrikes := AList.delete ip (repStrikes rt)\<rparr>)"

text \<open>
  The instants of one call: when \<open>IsIPHealthy\<close>, \<open>recordStrike\<close> and the final marking read the clock.
\<close>

record attempt_clock =
  healthAt :: gotime
  strikeAt :: gotime
  markAt :: gotime

definition RecordDeliveryAttempt ::
  "string \<Rightarrow> bool \<Rightarrow> DeliveryError option \<Rightarrow> DeliveryInfo \<Rightarrow> attempt_clock
     \<Rightarrow> IPReputationTracker \<Rightarrow> IPReputationTracker" where
  "RecordDeliveryAttempt ip success err deliveryInfo clk rt =
     (if \<not> rt_enabled rt \<or> ip = [] then rt
      else if success then
        (let rt1 = clearStrikes ip rt in
         if map_of (degradedIPs rt1) ip \<noteq> None then MarkIPRecovered ip (markAt clk) rt1 else rt1)
      else case err of
        None \<Rightarrow> rt
      | Some e \<Rightarrow>
          if Category e \<noteq> ErrorReputation then rt
          else if ImmediateDegrade e then
            MarkIPDegraded ip (DE_SMTPCode e) (DE_SMTPResponse e) deliveryInfo (markAt clk) (clearStrikes ip rt)
          else if \<not> IsIPHealthy rt (healthAt clk) ip then rt
          else (case recordStrike ip (strikeAt clk) rt of
                  (rt1, crossed) \<Rightarrow>
                    if crossed
                    then MarkIPDegraded ip (DE_SMTPCode e) (DE_SMTPResponse e) deliveryInfo (markAt clk) rt1
                    else rt1))"

definition GetDegradedIPs :: "IPReputationTracker \<Rightarrow> (string \<times> DegradedIPInfo) list" where
  "GetDegradedIPs rt = degradedIPs rt"

text \<open>The clock is read for the first cutoff, at each expired entry, and for the strike cutoff.\<close>

record cleanup_clock =
  cutoffAt :: gotime
  entryAt :: "string \<Rightarrow> gotime"
  strikeCutoffAt :: gotime

definition Cleanup :: "cleanup_clock \<Rightarrow> IPReputationTracker \<Rightarrow> IPReputationTracker" where
  "Cleanup clk rt =
     (if \<not> rt_enabled rt then rt
      else let cutoff = cutoffAt clk - DegradedIPCleanupHours (rt_config rt) * Hour;
               strikeCutoff = strikeCutoffAt clk - strikeWindow (rt_config rt)
           in rt\<lparr>degradedIPs := filter
                   (\<lambda>(ip, info). \<not> (DegradedAt info < cutoff \<and> RetryAfter info < entryAt clk ip))
                   (degradedIPs rt),
                 repStrikes := filter
                   (\<lambda>(ip, strikes). \<not> (strikes = [] \<or> last strikes < strikeCutoff))
                   (repStrikes rt)\<rparr>)"

text \<open>The filter reads the clock for every address of the list.\<close>

definition GetHealthyIPs :: "IPReputationTracker \<Rightarrow> (nat \<Rightarrow> gotime) \<Rightarrow> string list \<Rightarrow> string list" where
  "GetHealthyIPs rt clk ips =
     (if \<not> rt_enabled rt then ips
      else map snd (filter (\<lambda>(i, ip). IsIPHealthy rt (clk i) ip) (enumerate 0 ips)))"

definition SetMetrics :: "bool \<Rightarrow> IPReputationTracker \<Rightarrow> IPReputationTracker" where
  "SetMetrics present rt =
     rt\<lparr>rt_metrics := (if present
          then Some (map (\<lambda>(ip, _). SetIPReputationDegraded ip True) (degradedIPs rt)) else None)\<rparr>"

section \<open>Lemmas\<close>

lemma sendAlert_sel [simp]:
  "degradedIPs (sendAlert a rt) = degradedIPs rt" "repStrikes (sendAlert a rt) = repStrikes rt"
  "rt_config (sendAlert a rt) = rt_config rt" "rt_enabled (sendAlert a rt) = rt_enabled rt"
  "rt_metrics (sendAlert a rt) = rt_metrics rt"
  by (simp_all add: sendAlert_def)

lemma emitMetrics_sel [simp]:
  "degradedIPs (emitMetrics ms rt) = degradedIPs rt" "repStrikes (emitMetrics ms rt) = repStrikes rt"
  "rt_config (emitMetrics ms rt) = rt_config rt" "rt_enabled (emitMetrics ms rt) = rt_enabled rt"
  "rt_alerts (emitMetrics ms rt) = rt_alerts rt"
  by (simp_all add: emitMetrics_def)

lemma degradedEntry_sel [simp]:
  "DegradedAt (degradedEntry ip now ra c r old) = now"
  "RetryAfter (degradedEntry ip now ra c r old) = ra"
  "FailureCount (degradedEntry ip now ra c r old) = (case old of None \<Rightarrow> 1 | Some i \<Rightarrow> FailureCount i + 1)"
  "InfoIP (degradedEntry ip now ra c r old) = (case old of None \<Rightarrow> ip | Some i \<Rightarrow> InfoIP i)"
  "LastSMTPCode (degradedEntry ip now ra c r old) = c"
  by (simp_all add: degradedEntry_def Let_def split: option.split)

lemma MarkIPDegraded_sel [simp]:
  "repStrikes (MarkIPDegraded ip c r i now rt) = repStrikes rt"
  "rt_config (MarkIPDegraded ip c r i now rt) = rt_config rt"
  "rt_enabled (MarkIPDegraded ip c r i now rt) = rt_enabled rt"
  by (simp_all add: MarkIPDegraded_def Let_def)

lemma MarkIPDegraded_degraded:
  "rt_enabled rt \<Longrightarrow> degradedIPs (MarkIPDegraded ip c r i now rt) =
     AList.update ip (degradedEntry ip now (now + DegradedRetryHours (rt_config rt) * Hour) c r
       (map_of (degradedIPs rt) ip)) (degradedIPs rt)"
  by (simp add: MarkIPDegraded_def Let_def)

lemma MarkIPRecovered_sel [simp]:
  "repStrikes (MarkIPRecovered ip now rt) = repStrikes rt"
  "rt_config (MarkIPRecovered ip now rt) = rt_config rt"
  "rt_enabled (MarkIPRecovered ip now rt) = rt_enabled rt"
  by (simp_all add: MarkIPRecovered_def Let_def)

lemma MarkIPRecovered_degraded:
  "rt_enabled rt \<Longrightarrow> map_of (degradedIPs (MarkIPRecovered ip now rt)) = (map_of (degradedIPs rt))(ip := None)"
  by (auto simp: MarkIPRecovered_def Let_def)

lemma clearStrikes_sel [simp]:
  "degradedIPs (clearStrikes ip rt) = degradedIPs rt"
  "rt_config (clearStrikes ip rt) = rt_config rt" "rt_enabled (clearStrikes ip rt) = rt_enabled rt"
  "map_of (repStrikes (clearStrikes ip rt)) = (map_of (repStrikes rt))(ip := None)"
  by (auto simp: clearStrikes_def)

lemma recordStrike_sel [simp]:
  "degradedIPs (fst (recordStrike ip now rt)) = degradedIPs rt"
  "rt_config (fst (recordStrike ip now rt)) = rt_config rt"
  "rt_enabled (fst (recordStrike ip now rt)) = rt_enabled rt"
  by (simp_all add: recordStrike_def Let_def)

text \<open>The strikes of an address that a reading at \<open>now\<close> still counts.\<close>

definition live_strikes :: "IPReputationTracker \<Rightarrow> gotime \<Rightarrow> string \<Rightarrow> gotime list" where
  "live_strikes rt now ip =
     filter (\<lambda>t. now - strikeWindow (rt_config rt) < t)
       (case map_of (repStrikes rt) ip of Some ts \<Rightarrow> ts | None \<Rightarrow> [])"

lemma recordStrike_crossed:
  "snd (recordStrike ip now rt) \<longleftrightarrow>
     DegradeFailureThreshold (rt_config rt) \<le> int (Suc (length (live_strikes rt now ip)))
     \<or> DegradeFailureThreshold (rt_config rt) \<le> 1"
  by (auto simp: recordStrike_def live_strikes_def Let_def)

lemma recordStrike_strikes:
  "1 < DegradeFailureThreshold (rt_config rt) \<Longrightarrow>
   map_of (repStrikes (fst (recordStrike ip now rt))) =
     (map_of (repStrikes rt))(ip := if snd (recordStrike ip now rt) then None
                                    else Some (live_strikes rt now ip @ [now]))"
  by (simp add: recordStrike_def live_strikes_def Let_def)

section \<open>Invariant\<close>

definition entry_ok :: "ReputationConfig \<Rightarrow> string \<times> DegradedIPInfo \<Rightarrow> bool" where
  "entry_ok cfg e \<longleftrightarrow> InfoIP (snd e) = fst e \<and> FailureCount (snd e) \<ge> 1
     \<and> RetryAfter (snd e) = DegradedAt (snd e) + DegradedRetryHours cfg * Hour"

definition strikes_ok :: "ReputationConfig \<Rightarrow> string \<times> gotime list \<Rightarrow> bool" where
  "strikes_ok cfg e \<longleftrightarrow> snd e \<noteq> [] \<and> int (length (snd e)) < DegradeFailureThreshold cfg"

definition tracker_inv :: "IPReputationTracker \<Rightarrow> bool" where
  "tracker_inv rt \<longleftrightarrow>
     distinct (map fst (degradedIPs rt)) \<and> distinct (map fst (repStrikes rt))
     \<and> list_all (entry_ok (rt_config rt)) (degradedIPs rt)
     \<and> list_all (strikes_ok (rt_config rt)) (repStrikes rt)
     \<and> (\<not> rt_enabled rt \<longrightarrow> degradedIPs rt = [] \<and> repStrikes rt = [])"

text \<open>The operations of the tracker that change its state.\<close>

datatype tracker_op =
    OpAttempt string bool "DeliveryError option" DeliveryInfo attempt_clock
  | OpCleanup cleanup_clock
  | OpSetMetrics bool

fun tracker_step :: "IPReputationTracker \<Rightarrow> tracker_op \<Rightarrow> IPReputationTracker" where
  "tracker_step rt (OpAttempt ip success err info clk) = RecordDeliveryAttempt ip success err info clk rt"
| "tracker_step rt (OpCleanup clk) = Cleanup clk rt"
| "tracker_step rt (OpSetMetrics present) = SetMetrics present rt"

lemma degradedEntry_ok:
  assumes "list_all (entry_ok cfg) al"
  shows "entry_ok cfg (ip, degradedEntry ip now (now + DegradedRetryHours cfg * Hour) c r (map_of al ip))"
  using map_of_list_all [OF assms, of ip] by (auto simp: entry_ok_def split: option.split)

lemma MarkIPDegraded_inv [strela_inv]: "tracker_inv rt \<Longrightarrow> tracker_inv (MarkIPDegraded ip c r i now rt)"
  by (cases "rt_enabled rt")
     (auto simp: tracker_inv_def MarkIPDegraded_degraded distinct_update intro!: list_all_update degradedEntry_ok,
      simp_all add: MarkIPDegraded_def)

lemma MarkIPRecovered_inv [strela_inv]: "tracker_inv rt \<Longrightarrow> tracker_inv (MarkIPRecovered ip now rt)"
  by (auto simp: tracker_inv_def MarkIPRecovered_def Let_def distinct_delete list_all_delete)

lemma clearStrikes_inv [strela_inv]: "tracker_inv rt \<Longrightarrow> tracker_inv (clearStrikes ip rt)"
  by (auto simp: tracker_inv_def clearStrikes_def distinct_delete list_all_delete)

lemma recordStrike_inv [strela_inv]:
  "tracker_inv rt \<Longrightarrow> rt_enabled rt \<Longrightarrow> tracker_inv (fst (recordStrike ip now rt))"
  by (auto simp: tracker_inv_def recordStrike_def Let_def strikes_ok_def distinct_delete list_all_delete
      distinct_update intro!: list_all_update)

lemma RecordDeliveryAttempt_inv [strela_inv]:
  "tracker_inv rt \<Longrightarrow> tracker_inv (RecordDeliveryAttempt ip success err info clk rt)"
  using recordStrike_inv [of rt ip "strikeAt clk"]
  by (auto simp: RecordDeliveryAttempt_def Let_def strela_inv case_prod_beta split: option.split)

lemma Cleanup_inv [strela_inv]: "tracker_inv rt \<Longrightarrow> tracker_inv (Cleanup clk rt)"
  by (auto simp: tracker_inv_def Cleanup_def Let_def distinct_filter_keys list_all_filter)

lemma SetMetrics_inv [strela_inv]: "tracker_inv rt \<Longrightarrow> tracker_inv (SetMetrics present rt)"
  by (simp add: tracker_inv_def SetMetrics_def)

interpretation tracker: machine tracker_step tracker_inv
proof
  fix rt op
  show "tracker_inv rt \<Longrightarrow> tracker_inv (tracker_step rt op)"
    by (cases op) (simp_all add: strela_inv)
qed

section \<open>Strike sequences\<close>

definition weak_error :: "DeliveryError \<Rightarrow> bool" where
  "weak_error e \<longleftrightarrow> Category e = ErrorReputation \<and> \<not> ImmediateDegrade e"

definition weak_attempts ::
  "string \<Rightarrow> DeliveryError \<Rightarrow> DeliveryInfo \<Rightarrow> attempt_clock list \<Rightarrow> IPReputationTracker \<Rightarrow> IPReputationTracker" where
  "weak_attempts ip e info clks rt = foldl (\<lambda>r c. RecordDeliveryAttempt ip False (Some e) info c r) rt clks"

text \<open>A source address the tracker knows nothing bad of.\<close>

definition clean_ip :: "IPReputationTracker \<Rightarrow> string \<Rightarrow> bool" where
  "clean_ip rt ip \<longleftrightarrow> rt_enabled rt \<and> ip \<noteq> [] \<and> map_of (degradedIPs rt) ip = None
     \<and> map_of (repStrikes rt) ip = None"

text \<open>All strikes of the sequence fall into one window.\<close>

definition one_window :: "ReputationConfig \<Rightarrow> attempt_clock list \<Rightarrow> bool" where
  "one_window cfg clks \<longleftrightarrow>
     list_all (\<lambda>c. list_all (\<lambda>c'. strikeAt c - strikeAt c' < strikeWindow cfg) clks) clks"

definition degrade_alerts :: "IPReputationTracker \<Rightarrow> nat" where
  "degrade_alerts rt = length (filter (\<lambda>r. EventType (ReqBody r) = ''degraded'') (rt_alerts rt))"

lemma weak_step:
  assumes "weak_error e" and "rt_enabled rt" and "ip \<noteq> []" and "map_of (degradedIPs rt) ip = None"
  shows "RecordDeliveryAttempt ip False (Some e) info c rt =
    (if snd (recordStrike ip (strikeAt c) rt)
     then MarkIPDegraded ip (DE_SMTPCode e) (DE_SMTPResponse e) info (markAt c) (fst (recordStrike ip (strikeAt c) rt))
     else fst (recordStrike ip (strikeAt c) rt))"
  using assms by (simp add: RecordDeliveryAttempt_def weak_error_def IsIPHealthy_def case_prod_beta)

lemma recordStrike_alerts [simp]: "rt_alerts (fst (recordStrike ip now rt)) = rt_alerts rt"
  by (simp add: recordStrike_def Let_def)

lemma MarkIPDegraded_alerts:
  "rt_enabled rt \<Longrightarrow> AlertWebhookURL (rt_config rt) \<noteq> [] \<Longrightarrow>
     degrade_alerts (MarkIPDegraded ip c r i now rt) = Suc (degrade_alerts rt)"
  by (simp add: MarkIPDegraded_def Let_def degrade_alerts_def sendAlert_def)

lemma weak_attempts_snoc:
  "weak_attempts ip e info (clks @ [c]) rt =
     RecordDeliveryAttempt ip False (Some e) info c (weak_attempts ip e info clks rt)"
  by (simp add: weak_attempts_def)

lemma one_window_snoc:
  "one_window cfg (clks @ [c]) \<Longrightarrow> one_window cfg clks \<and> (\<forall>c'\<in>set clks. strikeAt c - strikeWindow cfg < strikeAt c')"
  by (auto simp: one_window_def list_all_iff)

text \<open>Below the threshold the strikes pile up and nothing else happens.\<close>

lemma weak_attempts_below:
  assumes "weak_error e" and "clean_ip rt ip"
  shows "one_window (rt_config rt) clks \<Longrightarrow> int (length clks) < DegradeFailureThreshold (rt_config rt) \<Longrightarrow>
    (let rt' = weak_attempts ip e info clks rt in
       rt_config rt' = rt_config rt \<and> rt_enabled rt' \<and> rt_alerts rt' = rt_alerts rt
       \<and> degradedIPs rt' = degradedIPs rt
       \<and> map_of (repStrikes rt') ip = (if clks = [] then None else Some (map strikeAt clks)))"
proof (induction clks rule: rev_induct)
  case Nil
  show ?case using assms(2) by (simp add: weak_attempts_def clean_ip_def Let_def)
next
  case (snoc c clks)
  let ?rt = "weak_attempts ip e info clks rt"
  have IH: "rt_config ?rt = rt_config rt" "rt_enabled ?rt" "rt_alerts ?rt = rt_alerts rt"
    "degradedIPs ?rt = degradedIPs rt"
    "map_of (repStrikes ?rt) ip = (if clks = [] then None else Some (map strikeAt clks))"
    using snoc one_window_snoc by (auto simp: Let_def)
  have live: "live_strikes ?rt (strikeAt c) ip = map strikeAt clks"
    using one_window_snoc [OF snoc.prems(1)] IH by (auto simp: live_strikes_def)
  have "\<not> snd (recordStrike ip (strikeAt c) ?rt)"
    using snoc.prems(2) live IH by (simp add: recordStrike_crossed)
  moreover have "1 < DegradeFailureThreshold (rt_config ?rt)"
    using snoc.prems(2) IH by simp
  ultimately show ?case
    using assms IH live weak_step [OF assms(1), of ?rt ip info c]
    by (simp add: weak_attempts_snoc clean_ip_def recordStrike_strikes Let_def)
qed

lemma weak_attempts_reach:
  assumes "weak_error e" and "clean_ip rt ip" and "one_window (rt_config rt) (clks @ [c])"
    and "int (length (clks @ [c])) = DegradeFailureThreshold (rt_config rt)"
  shows "weak_attempts ip e info (clks @ [c]) rt =
    MarkIPDegraded ip (DE_SMTPCode e) (DE_SMTPResponse e) info (markAt c)
      (fst (recordStrike ip (strikeAt c) (weak_attempts ip e info clks rt)))"
proof -
  let ?rt = "weak_attempts ip e info clks rt"
  have below: "rt_config ?rt = rt_config rt" "rt_enabled ?rt" "degradedIPs ?rt = degradedIPs rt"
    "map_of (repStrikes ?rt) ip = (if clks = [] then None else Some (map strikeAt clks))"
    using weak_attempts_below [OF assms(1,2), of clks info] one_window_snoc [OF assms(3)] assms(4)
    by (auto simp: Let_def)
  have "live_strikes ?rt (strikeAt c) ip = map strikeAt clks"
    using one_window_snoc [OF assms(3)] below by (auto simp: live_strikes_def)
  then have "snd (recordStrike ip (strikeAt c) ?rt)"
    using assms(4) below by (simp add: recordStrike_crossed)
  then show ?thesis
    using assms(2) below weak_step [OF assms(1), of ?rt ip info c]
    by (simp add: weak_attempts_snoc clean_ip_def)
qed

text \<open>What an operation on one address leaves alone: the entries of another one.\<close>

definition same_entries :: "IPReputationTracker \<Rightarrow> IPReputationTracker \<Rightarrow> string \<Rightarrow> bool" where
  "same_entries rt rt' ip \<longleftrightarrow>
     map_of (degradedIPs rt') ip = map_of (degradedIPs rt) ip
     \<and> map_of (repStrikes rt') ip = map_of (repStrikes rt) ip
     \<and> rt_config rt' = rt_config rt \<and> rt_enabled rt' = rt_enabled rt"

lemma same_entries_health: "same_entries rt rt' ip \<Longrightarrow> IsIPHealthy rt' t ip = IsIPHealthy rt t ip"
  by (simp add: same_entries_def IsIPHealthy_def)

lemma MarkIPDegraded_other: "ip' \<noteq> ip \<Longrightarrow> same_entries rt (MarkIPDegraded ip c r i now rt) ip'"
  by (cases "rt_enabled rt") (simp_all add: same_entries_def MarkIPDegraded_degraded, simp add: MarkIPDegraded_def)

lemma MarkIPRecovered_other: "ip' \<noteq> ip \<Longrightarrow> same_entries rt (MarkIPRecovered ip now rt) ip'"
  by (cases "rt_enabled rt") (simp_all add: same_entries_def MarkIPRecovered_degraded, simp add: MarkIPRecovered_def)

lemma clearStrikes_other: "ip' \<noteq> ip \<Longrightarrow> same_entries rt (clearStrikes ip rt) ip'"
  by (simp add: same_entries_def)

lemma recordStrike_other: "ip' \<noteq> ip \<Longrightarrow> same_entries rt (fst (recordStrike ip now rt)) ip'"
  by (simp add: same_entries_def recordStrike_def Let_def)

lemma same_entries_trans: "same_entries a b ip \<Longrightarrow> same_entries b c ip \<Longrightarrow> same_entries a c ip"
  by (simp add: same_entries_def)

lemma same_entries_refl [simp]: "same_entries a a ip"
  by (simp add: same_entries_def)

lemma attempt_other:
  assumes "ip' \<noteq> ip"
  shows "same_entries rt (RecordDeliveryAttempt ip success err info clk rt) ip'"
  using assms
  by (auto simp: RecordDeliveryAttempt_def Let_def case_prod_beta clearStrikes_other recordStrike_other
      MarkIPDegraded_other MarkIPRecovered_other split: option.split
      intro: same_entries_trans [OF clearStrikes_other MarkIPRecovered_other]
        same_entries_trans [OF clearStrikes_other MarkIPDegraded_other]
        same_entries_trans [OF recordStrike_other MarkIPDegraded_other])

lemma weak_attempts_reach_entry:
  assumes "weak_error e" and "clean_ip rt ip" and "one_window (rt_config rt) (clks @ [c])"
    and "int (length (clks @ [c])) = DegradeFailureThreshold (rt_config rt)"
    and rt'_def: "rt' = weak_attempts ip e info (clks @ [c]) rt"
  shows "map_of (degradedIPs rt') ip =
      Some (degradedEntry ip (markAt c) (markAt c + DegradedRetryHours (rt_config rt) * Hour)
              (DE_SMTPCode e) (DE_SMTPResponse e) None)"
    and "map_of (repStrikes rt') ip = None" and "rt_enabled rt'"
    and "AlertWebhookURL (rt_config rt) \<noteq> [] \<Longrightarrow> degrade_alerts rt' = Suc (degrade_alerts rt)"
proof -
  let ?rt = "weak_attempts ip e info clks rt"
  let ?rs = "fst (recordStrike ip (strikeAt c) ?rt)"
  have below: "rt_config ?rt = rt_config rt" "rt_enabled ?rt" "degradedIPs ?rt = degradedIPs rt"
    "rt_alerts ?rt = rt_alerts rt"
    "map_of (repStrikes ?rt) ip = (if clks = [] then None else Some (map strikeAt clks))"
    using weak_attempts_below [OF assms(1,2), of clks info] one_window_snoc [OF assms(3)] assms(4)
    by (auto simp: Let_def)
  have rt': "rt' = MarkIPDegraded ip (DE_SMTPCode e) (DE_SMTPResponse e) info (markAt c) ?rs"
    unfolding rt'_def by (rule weak_attempts_reach [OF assms(1-4)])
  have crossed: "snd (recordStrike ip (strikeAt c) ?rt)"
  proof -
    have "live_strikes ?rt (strikeAt c) ip = map strikeAt clks"
      using one_window_snoc [OF assms(3)] below by (auto simp: live_strikes_def)
    then show ?thesis using assms(4) below by (simp add: recordStrike_crossed)
  qed
  show "map_of (degradedIPs rt') ip =
      Some (degradedEntry ip (markAt c) (markAt c + DegradedRetryHours (rt_config rt) * Hour)
              (DE_SMTPCode e) (DE_SMTPResponse e) None)"
    using below assms(2) by (simp add: rt' MarkIPDegraded_degraded clean_ip_def)
  show "rt_enabled rt'" using below by (simp add: rt')
  show "map_of (repStrikes rt') ip = None"
  proof (cases "DegradeFailureThreshold (rt_config ?rt) \<le> 1")
    case True
    with below(1) assms(4) have "int (length (clks @ [c])) \<le> 1" by (simp only:)
    then have "clks = []" by simp
    with True below show ?thesis by (simp add: rt' recordStrike_def)
  next
    case False
    with crossed show ?thesis by (simp add: rt' recordStrike_strikes)
  qed
  show "degrade_alerts rt' = Suc (degrade_alerts rt)" if "AlertWebhookURL (rt_config rt) \<noteq> []"
    using that below MarkIPDegraded_alerts [of ?rs] by (simp add: rt' degrade_alerts_def)
qed

section \<open>Properties\<close>

text \<open>
  Every state the tracker can reach from its creation, by any sequence of delivery outcomes,
  cleanups and recorder changes, keeps its invariant: one entry per address, filed under its own
  address, with at least one failure and a retry time that is the configured hours after the
  degradation; one non-empty strike list per address, always shorter than the threshold; nothing at
  all while tracking is disabled.
\<close>

lemma tracker_reachable:
  "tracker_inv (foldl tracker_step (NewIPReputationTracker cfg) ops)"
  by (rule tracker.run_inv) (simp add: tracker_inv_def NewIPReputationTracker_def)


definition sample_rep_config :: ReputationConfig where
  "sample_rep_config = setReputationDefaults
     \<lparr>AlertWebhookURL = ''http://hook'', AlertAuthToken = [], AlertTimeoutSeconds = 0, DegradedRetryHours = 0,
      EnableIPTracking = True, DegradedIPCleanupHours = 0, DegradeFailureThreshold = 0,
      DegradeWindowMinutes = 0\<rparr>"

definition sample_info :: DeliveryInfo where
  "sample_info = \<lparr>InfoFrom = ''a@b.c'', InfoTo = ''d@e.f'', InfoSubject = [], InfoIdempotencyKey = [],
                  InfoMXHost = ''mx.e.f''\<rparr>"

definition sample_clock :: "int \<Rightarrow> attempt_clock" where
  "sample_clock n = \<lparr>healthAt = n * Minute, strikeAt = n * Minute, markAt = n * Minute\<rparr>"

definition sample_weak :: DeliveryError where
  "sample_weak = replyError ErrorReputation 550 ''your ip is blocked'' ''IP reputation/blacklist error'' False"

lemma sample_rep_config_values:
  "DegradeFailureThreshold sample_rep_config = 3" "DegradedRetryHours sample_rep_config = 48"
  "strikeWindow sample_rep_config = 30 * Minute" "AlertWebhookURL sample_rep_config \<noteq> []"
  "EnableIPTracking sample_rep_config"
  by (simp_all add: sample_rep_config_def setReputationDefaults_def default_int_def strikeWindow_def)


text \<open>
  C28. An unambiguous listing degrades its address at once, whatever its strikes were: it is unhealthy
  until the retry period after the marking has passed, its strikes are gone, and no other address is
  touched.
\<close>

theorem strong_degrades_at_once:
  assumes "rt_enabled rt" and "ip \<noteq> []" and "Category e = ErrorReputation" and "ImmediateDegrade e"
  shows "let rt' = RecordDeliveryAttempt ip False (Some e) info clk rt in
     (IsIPHealthy rt' t ip \<longleftrightarrow> markAt clk + DegradedRetryHours (rt_config rt) * Hour < t)
     \<and> map_of (repStrikes rt') ip = None
     \<and> (\<forall>ip'. ip' \<noteq> ip \<longrightarrow> same_entries rt rt' ip')"
  using assms attempt_other [of _ ip rt False "Some e" info clk]
  by (auto simp: RecordDeliveryAttempt_def Let_def IsIPHealthy_def MarkIPDegraded_degraded)

theorem strong_degrades_at_once_witness:
  "let rt' = RecordDeliveryAttempt ''192.0.2.1'' False (Some (sample_weak\<lparr>ImmediateDegrade := True\<rparr>)) sample_info
         (sample_clock 5) (NewIPReputationTracker sample_rep_config)
   in \<not> IsIPHealthy rt' (6 * Minute) ''192.0.2.1''"
  using strong_degrades_at_once [of "NewIPReputationTracker sample_rep_config" "''192.0.2.1''"
      "sample_weak\<lparr>ImmediateDegrade := True\<rparr>" sample_info "sample_clock 5" "6 * Minute"]
  by (simp add: NewIPReputationTracker_def sample_rep_config_values sample_weak_def Let_def sample_clock_def
      replyError_def)

text \<open>
  A successful delivery ends a degradation and forgets all strikes of its address, and of no
  other.
\<close>

lemma success_recovers:
  assumes "rt_enabled rt" and "ip \<noteq> []"
  shows "let rt' = RecordDeliveryAttempt ip True err info clk rt in
     clean_ip rt' ip \<and> IsIPHealthy rt' t ip \<and> (\<forall>ip'. ip' \<noteq> ip \<longrightarrow> same_entries rt rt' ip')"
  using assms attempt_other [of _ ip rt True err info clk]
  by (auto simp: RecordDeliveryAttempt_def Let_def IsIPHealthy_def clean_ip_def MarkIPRecovered_degraded)

lemma success_recovers_witness:
  "clean_ip (RecordDeliveryAttempt ''192.0.2.1'' True None sample_info (sample_clock 5)
     (NewIPReputationTracker sample_rep_config)) ''192.0.2.1''"
  using success_recovers [of "NewIPReputationTracker sample_rep_config" "''192.0.2.1''" None sample_info "sample_clock 5"]
  by (simp add: NewIPReputationTracker_def sample_rep_config_values Let_def)

text \<open>
  C29. The periodic cleanup is invisible: if strike lists are in time order and the clock does not run
  backwards, it changes neither whether an address is healthy nor which strikes a later failure
  counts.
\<close>

theorem cleanup_transparent:
  assumes "list_all (\<lambda>(ip, ts). sorted ts) (repStrikes rt)" and "tracker_inv rt"
    and "entryAt clk ip \<le> now" and "strikeCutoffAt clk \<le> now"
  shows "IsIPHealthy (Cleanup clk rt) now ip = IsIPHealthy rt now ip
    \<and> live_strikes (Cleanup clk rt) now ip = live_strikes rt now ip"
proof -
  let ?P = "\<lambda>(ip, info). \<not> (DegradedAt info < cutoffAt clk - DegradedIPCleanupHours (rt_config rt) * Hour
              \<and> RetryAfter info < entryAt clk ip)"
  let ?Q = "\<lambda>(ip, ts). \<not> (ts = [] \<or> last ts < strikeCutoffAt clk - strikeWindow (rt_config rt))"
  have dist: "distinct (map fst (degradedIPs rt))" "distinct (map fst (repStrikes rt))"
    using assms(2) by (simp_all add: tracker_inv_def)
  have health: "IsIPHealthy (Cleanup clk rt) now ip = IsIPHealthy rt now ip"
    using assms(3) map_of_filter_distinct [OF dist(1), of ?P ip]
    by (auto simp: IsIPHealthy_def Cleanup_def Let_def split: option.splits)
  have old: "\<forall>t\<in>set ts. \<not> now - strikeWindow (rt_config rt) < t"
    if "map_of (repStrikes rt) ip = Some ts" "\<not> ?Q (ip, ts)" for ts
  proof -
    from that(1) assms(1) have "sorted ts" by (auto simp: list_all_iff dest: map_of_SomeD)
    with that(2) assms(4) show ?thesis by (cases ts rule: rev_cases) (auto simp: sorted_append)
  qed
  have "live_strikes (Cleanup clk rt) now ip = live_strikes rt now ip"
    using old map_of_filter_distinct [OF dist(2), of ?Q ip]
    by (auto simp: live_strikes_def Cleanup_def Let_def filter_empty_conv split: option.splits)
  with health show ?thesis by simp
qed

theorem cleanup_transparent_witness:
  "let rt = weak_attempts ''192.0.2.1'' sample_weak sample_info [sample_clock 0] (NewIPReputationTracker sample_rep_config);
       clk = \<lparr>cutoffAt = 40 * Minute, entryAt = (\<lambda>_. 40 * Minute), strikeCutoffAt = 40 * Minute\<rparr>
   in repStrikes rt \<noteq> [] \<and> repStrikes (Cleanup clk rt) = []
      \<and> live_strikes (Cleanup clk rt) (40 * Minute) ''192.0.2.1'' = live_strikes rt (40 * Minute) ''192.0.2.1''"
proof -
  let ?rt = "weak_attempts ''192.0.2.1'' sample_weak sample_info [sample_clock 0] (NewIPReputationTracker sample_rep_config)"
  let ?clk = "\<lparr>cutoffAt = 40 * Minute, entryAt = (\<lambda>_. 40 * Minute), strikeCutoffAt = 40 * Minute\<rparr>"
  have rt: "?rt = NewIPReputationTracker sample_rep_config\<lparr>repStrikes := [(''192.0.2.1'', [0])]\<rparr>"
    by (simp add: weak_attempts_def RecordDeliveryAttempt_def NewIPReputationTracker_def sample_weak_def
        IsIPHealthy_def recordStrike_def sample_rep_config_values sample_clock_def replyError_def Let_def)
  have "tracker_inv ?rt" "list_all (\<lambda>(ip, ts). sorted ts) (repStrikes ?rt)"
    unfolding rt by (simp_all add: tracker_inv_def NewIPReputationTracker_def strikes_ok_def
        sample_rep_config_values)
  from cleanup_transparent [OF this(2,1), of ?clk "''192.0.2.1''" "40 * Minute"] show ?thesis
    unfolding rt by (simp add: Let_def Cleanup_def NewIPReputationTracker_def sample_rep_config_values)
qed

end
