(* ===== verification/Rotation.thy ===== *)
theory Rotation
  imports Go_Prelude
begin

text \<open>
  Rotation over a list, which the source address selector, the DNS client and the sender rewriting
  share: a list read from a start index on with wrap-around, the FNV-1a hash that picks a start index
  from a name, and the contract of a round-robin counter.
\<close>

section \<open>Reading a list from an index on\<close>

definition rotateFrom :: "nat \<Rightarrow> 'a list \<Rightarrow> 'a list" where
  "rotateFrom start xs = map (\<lambda>i. xs ! ((start + i) mod length xs)) [0..<length xs]"

lemma rotateFrom_rotate: "rotateFrom start xs = rotate start xs"
  by (rule nth_equalityI) (simp_all add: rotateFrom_def nth_rotate)

lemma set_rotateFrom [simp]: "set (rotateFrom k xs) = set xs"
  by (simp add: rotateFrom_rotate)

lemma length_rotateFrom [simp]: "length (rotateFrom k xs) = length xs"
  by (simp add: rotateFrom_def)

lemma rotateFrom_0 [simp]: "rotateFrom 0 xs = xs"
  by (simp add: rotateFrom_rotate)

lemma distinct_rotateFrom [simp]: "distinct (rotateFrom k xs) = distinct xs"
  by (simp add: rotateFrom_rotate)

lemma hd_rotateFrom: "xs \<noteq> [] \<Longrightarrow> hd (rotateFrom k xs) = xs ! (k mod length xs)"
  by (simp add: rotateFrom_rotate hd_rotate_conv_nth)

section \<open>FNV-1a\<close>

unbundle bit_operations_syntax

definition fnv32a :: "string \<Rightarrow> 32 word" where
  "fnv32a s = foldl (\<lambda>h c. (h XOR of_nat (of_char c)) * 16777619) 2166136261 s"

definition fnv64a :: "string \<Rightarrow> 64 word" where
  "fnv64a s = foldl (\<lambda>h c. (h XOR of_nat (of_char c)) * 1099511628211) 14695981039346656037 s"

section \<open>Round robin\<close>

primrec picks :: "('s \<Rightarrow> nat \<Rightarrow> nat \<times> 's) \<Rightarrow> nat \<Rightarrow> 's \<Rightarrow> nat \<Rightarrow> nat list" where
  "picks pick 0 s n = []"
| "picks pick (Suc k) s n = fst (pick s n) # picks pick k (snd (pick s n)) n"

text \<open>
  A counter of bounded width picks an index below \<open>n\<close>. As long as it does not wrap around, the picks
  follow its position, so that any \<open>n\<close> picks in a row take every index once.
\<close>

locale round_robin =
  fixes pick :: "'s \<Rightarrow> nat \<Rightarrow> nat \<times> 's"
    and pos :: "'s \<Rightarrow> nat"
    and limit :: nat
  assumes pick_bound: "0 < n \<Longrightarrow> n < limit \<Longrightarrow> fst (pick s n) < n"
    and pick_index: "0 < n \<Longrightarrow> n < limit \<Longrightarrow> Suc (pos s) < limit \<Longrightarrow> fst (pick s n) = pos s mod n"
    and pick_pos: "Suc (pos s) < limit \<Longrightarrow> pos (snd (pick s n)) = Suc (pos s)"
begin

lemma picks_positions:
  assumes "0 < n" and "n < limit"
  shows "pos s + k < limit \<Longrightarrow> picks pick k s n = map (\<lambda>i. (pos s + i) mod n) [0..<k]"
proof (induction k arbitrary: s)
  case 0
  show ?case by simp
next
  case (Suc k)
  have "Suc (pos s) < limit \<or> k = 0" using Suc.prems by (cases k) auto
  then have "picks pick k (snd (pick s n)) n = map (\<lambda>i. (Suc (pos s) + i) mod n) [0..<k]"
    using Suc by (auto simp: pick_pos)
  moreover have "map (\<lambda>i. (pos s + i) mod n) [0..<Suc k] =
      (pos s mod n) # map (\<lambda>i. (Suc (pos s) + i) mod n) [0..<k]"
    by (simp add: map_upt_Suc del: upt_Suc)
  ultimately show ?case using Suc.prems assms by (simp add: pick_index del: upt_Suc)
qed

lemma picks_fair:
  assumes "0 < n" and "n < limit" and "pos s + n < limit"
  shows "distinct (picks pick n s n) \<and> set (picks pick n s n) = {0..<n}"
proof -
  have "picks pick n s n = rotateFrom (pos s) [0..<n]"
    using picks_positions [OF assms] assms(1) by (simp add: rotateFrom_def)
  then show ?thesis by simp
qed

end

end
