(* ===== verification/IP_Rotator.thy ===== *)
theory IP_Rotator
  imports Rotation
begin

text \<open>
  The source address rotator, \<open>IPRotator\<close> of \<^verbatim>\<open>internal/delivery/delivery.go\<close>. The counters keep
  their 32 bits. The random generator is a parameter: \<open>intn n\<close> is the number \<open>rand.Intn\<close> draws in the
  call, documented to be below \<open>n\<close>.
\<close>

section \<open>Model\<close>

record IPRotator =
  ipsV4 :: "string list"
  ipsV6 :: "string list"
  strategy :: string
  counterV4 :: "32 word"
  counterV6 :: "32 word"

definition NewIPRotator :: "string list \<Rightarrow> string list \<Rightarrow> string \<Rightarrow> IPRotator" where
  "NewIPRotator v4 v6 strat =
     \<lparr>ipsV4 = v4, ipsV6 = v6, strategy = strat, counterV4 = 0, counterV6 = 0\<rparr>"

text \<open>The round-robin case: the counter is incremented, its old value taken modulo the length.\<close>

definition rrStart :: "32 word \<Rightarrow> nat \<Rightarrow> nat \<times> 32 word" where
  "rrStart counter n = (let c = counter + 1 in (unat ((c - 1) mod of_nat n), c))"

definition hashStart :: "string \<Rightarrow> nat \<Rightarrow> nat" where
  "hashStart domain n = unat (fnv32a domain mod of_nat n)"

definition poolOf :: "bool \<Rightarrow> IPRotator \<Rightarrow> string list" where
  "poolOf useIPv6 r = (if useIPv6 then ipsV6 r else ipsV4 r)"

definition counterOf :: "bool \<Rightarrow> IPRotator \<Rightarrow> 32 word" where
  "counterOf useIPv6 r = (if useIPv6 then counterV6 r else counterV4 r)"

definition setCounter :: "bool \<Rightarrow> 32 word \<Rightarrow> IPRotator \<Rightarrow> IPRotator" where
  "setCounter useIPv6 c r = (if useIPv6 then r\<lparr>counterV6 := c\<rparr> else r\<lparr>counterV4 := c\<rparr>)"

definition SelectIPs :: "(nat \<Rightarrow> nat) \<Rightarrow> bool \<Rightarrow> string \<Rightarrow> IPRotator \<Rightarrow> string list \<times> IPRotator" where
  "SelectIPs intn useIPv6 domain r =
     (let ips = poolOf useIPv6 r in
      if ips = [] then ([], r)
      else if length ips = 1 then ([ips ! 0], r)
      else if strategy r = ''random'' then (rotateFrom (intn (length ips)) ips, r)
      else if strategy r = ''hash-domain'' then (rotateFrom (hashStart domain (length ips)) ips, r)
      else let (start, c) = rrStart (counterOf useIPv6 r) (length ips)
           in (rotateFrom start ips, setCounter useIPv6 c r))"

definition RandomIntn :: "(nat \<Rightarrow> nat) \<Rightarrow> nat \<Rightarrow> nat" where
  "RandomIntn intn n = intn n"

definition HasIPv4 :: "IPRotator \<Rightarrow> bool" where
  "HasIPv4 r \<longleftrightarrow> length (ipsV4 r) > 0"

definition HasIPv6 :: "IPRotator \<Rightarrow> bool" where
  "HasIPv6 r \<longleftrightarrow> length (ipsV6 r) > 0"

section \<open>Lemmas\<close>

lemma rrStart_bound: "0 < n \<Longrightarrow> n < 2 ^ 32 \<Longrightarrow> fst (rrStart c n) < n"
  by (simp add: rrStart_def Let_def unat_mod take_bit_nat_eq_self unsigned_of_nat)

lemma rrStart_index: "0 < n \<Longrightarrow> n < 2 ^ 32 \<Longrightarrow> fst (rrStart c n) = unat c mod n"
  by (simp add: rrStart_def Let_def unat_mod take_bit_nat_eq_self unsigned_of_nat)

lemma rrStart_pos: "Suc (unat c) < 2 ^ 32 \<Longrightarrow> unat (snd (rrStart c n)) = Suc (unat c)"
  by (simp add: rrStart_def Let_def unat_word_ariths)

interpretation ip_rr: round_robin rrStart unat "2 ^ 32"
  by unfold_locales (simp_all add: rrStart_bound rrStart_index rrStart_pos)

text \<open>The start index of a selection from at least two addresses.\<close>

definition selectStart :: "(nat \<Rightarrow> nat) \<Rightarrow> bool \<Rightarrow> string \<Rightarrow> IPRotator \<Rightarrow> nat" where
  "selectStart intn v6 domain r =
     (let n = length (poolOf v6 r) in
      if n \<le> 1 then 0
      else if strategy r = ''random'' then intn n
      else if strategy r = ''hash-domain'' then hashStart domain n
      else fst (rrStart (counterOf v6 r) n))"

lemma SelectIPs_rotation:
  "fst (SelectIPs intn v6 domain r) = rotateFrom (selectStart intn v6 domain r) (poolOf v6 r)"
proof (cases "length (poolOf v6 r) \<le> 1")
  case True
  then show ?thesis
    by (cases "poolOf v6 r") (auto simp: SelectIPs_def selectStart_def Let_def)
next
  case False
  then show ?thesis by (auto simp: SelectIPs_def selectStart_def Let_def case_prod_beta)
qed

lemma SelectIPs_pools [simp]:
  "poolOf b (snd (SelectIPs intn v6 domain r)) = poolOf b r"
  "strategy (snd (SelectIPs intn v6 domain r)) = strategy r"
  by (simp_all add: SelectIPs_def Let_def case_prod_beta setCounter_def poolOf_def)

lemma set_SelectIPs [simp]: "set (fst (SelectIPs intn v6 domain r)) = set (poolOf v6 r)"
  using SelectIPs_rotation [of intn v6 domain r] by auto

lemma rotator_round_robin:
  assumes "strategy r \<notin> {''random'', ''hash-domain''}" and "length (poolOf v6 r) > 1"
  shows "SelectIPs intn v6 domain r =
    (rotateFrom (fst (rrStart (counterOf v6 r) (length (poolOf v6 r)))) (poolOf v6 r),
     setCounter v6 (snd (rrStart (counterOf v6 r) (length (poolOf v6 r)))) r)"
  using assms by (auto simp: SelectIPs_def Let_def case_prod_beta)

text \<open>The first addresses of consecutive selections.\<close>

primrec firstChoices :: "(nat \<Rightarrow> nat) \<Rightarrow> bool \<Rightarrow> string \<Rightarrow> nat \<Rightarrow> IPRotator \<Rightarrow> string list" where
  "firstChoices intn v6 domain 0 r = []"
| "firstChoices intn v6 domain (Suc k) r =
     (case SelectIPs intn v6 domain r of (ips, r') \<Rightarrow> hd ips # firstChoices intn v6 domain k r')"

lemma counterOf_setCounter [simp]: "counterOf v6 (setCounter v6 c r) = c"
  by (simp add: counterOf_def setCounter_def)

lemma setCounter_sel [simp]: "poolOf b (setCounter v6 c r) = poolOf b r" "strategy (setCounter v6 c r) = strategy r"
  by (simp_all add: poolOf_def setCounter_def)

lemma rrStart_state: "snd (rrStart c n) = c + 1"
  by (simp add: rrStart_def Let_def)

lemma firstChoices_picks:
  assumes "strategy r \<notin> {''random'', ''hash-domain''}" and "length (poolOf v6 r) > 1"
    and "length (poolOf v6 r) < 2 ^ 32"
  shows "firstChoices intn v6 domain k r =
    map ((!) (poolOf v6 r)) (picks rrStart k (counterOf v6 r) (length (poolOf v6 r)))"
  using assms
proof (induction k arbitrary: r)
  case 0
  show ?case by simp
next
  case (Suc k)
  let ?n = "length (poolOf v6 r)"
  have "fst (rrStart (counterOf v6 r) ?n) < ?n" using Suc.prems by (intro rrStart_bound) auto
  moreover have "poolOf v6 r \<noteq> []" using Suc.prems(2) by auto
  ultimately show ?case
    using Suc by (simp add: rotator_round_robin hd_rotateFrom)
qed

section \<open>Properties\<close>

text \<open>
  Whatever the strategy, a selection is a rotation of the configured pool of the family: the same
  addresses in the same cyclic order, so that every source address of the family is tried and none
  twice; the selection never changes the pools.
\<close>

lemma selection_is_rotation:
  "fst (SelectIPs intn v6 domain r) = rotate (selectStart intn v6 domain r) (poolOf v6 r)
   \<and> set (fst (SelectIPs intn v6 domain r)) = set (poolOf v6 r)
   \<and> length (fst (SelectIPs intn v6 domain r)) = length (poolOf v6 r)
   \<and> (distinct (poolOf v6 r) \<longrightarrow> distinct (fst (SelectIPs intn v6 domain r)))
   \<and> (\<forall>b. poolOf b (snd (SelectIPs intn v6 domain r)) = poolOf b r)"
  by (simp add: SelectIPs_rotation) (simp add: rotateFrom_rotate)

lemma selection_is_rotation_witness:
  "distinct (fst (SelectIPs (\<lambda>n. 1) False ''example.com'' (NewIPRotator [''192.0.2.1'', ''192.0.2.2''] [] ''random'')))"
  using selection_is_rotation [of "\<lambda>n. 1" False "''example.com''" "NewIPRotator [''192.0.2.1'', ''192.0.2.2''] [] ''random''"]
  by (simp add: NewIPRotator_def poolOf_def)

text \<open>
  C31. Round robin is fair: while the 32-bit counter does not wrap, as many selections in a row as the
  pool has addresses put every address first exactly once.
\<close>

theorem round_robin_fair:
  assumes "strategy r \<notin> {''random'', ''hash-domain''}" and "length (poolOf v6 r) > 1"
    and "unat (counterOf v6 r) + length (poolOf v6 r) < 2 ^ 32" and "distinct (poolOf v6 r)"
  shows "distinct (firstChoices intn v6 domain (length (poolOf v6 r)) r)
    \<and> set (firstChoices intn v6 domain (length (poolOf v6 r)) r) = set (poolOf v6 r)"
proof -
  let ?n = "length (poolOf v6 r)"
  let ?ps = "picks rrStart ?n (counterOf v6 r) ?n"
  have fair: "distinct ?ps \<and> set ?ps = {0..<?n}"
    using assms by (intro ip_rr.picks_fair) auto
  then have "distinct (map ((!) (poolOf v6 r)) ?ps)"
    using assms(4) by (auto simp: distinct_map inj_on_def nth_eq_iff_index_eq)
  moreover have "(!) (poolOf v6 r) ` {0..<?n} = set (poolOf v6 r)"
    by (auto simp: in_set_conv_nth image_iff Bex_def)
  ultimately show ?thesis using assms fair by (simp add: firstChoices_picks)
qed

theorem round_robin_fair_witness:
  "set (firstChoices (\<lambda>n. 0) False ''example.com'' 3
     (NewIPRotator [''192.0.2.1'', ''192.0.2.2'', ''192.0.2.3''] [] ''round-robin''))
   = {''192.0.2.1'', ''192.0.2.2'', ''192.0.2.3''}"
  using round_robin_fair [of "NewIPRotator [''192.0.2.1'', ''192.0.2.2'', ''192.0.2.3''] [] ''round-robin''"
      False "\<lambda>n. 0" "''example.com''"]
  by (simp add: NewIPRotator_def poolOf_def counterOf_def numeral_3_eq_3)

text \<open>
  With the strategy \<open>hash-domain\<close> the order of the source addresses is a function of the
  recipient domain: it depends neither on earlier selections nor on the random generator.
\<close>

lemma hash_domain_sticky:
  assumes "strategy r = ''hash-domain''" and "poolOf v6 r' = poolOf v6 r" and "strategy r' = ''hash-domain''"
  shows "fst (SelectIPs intn v6 domain r) = fst (SelectIPs intn' v6 domain r')
    \<and> snd (SelectIPs intn v6 domain r) = r"
  using assms by (simp add: SelectIPs_def Let_def)

lemma hash_domain_sticky_witness:
  "let r = NewIPRotator [''192.0.2.1'', ''192.0.2.2''] [] ''hash-domain''
   in fst (SelectIPs (\<lambda>n. 0) False ''example.com'' r)
      = fst (SelectIPs (\<lambda>n. 1) False ''example.com'' (r\<lparr>counterV4 := 7\<rparr>))"
  using hash_domain_sticky [of "NewIPRotator [''192.0.2.1'', ''192.0.2.2''] [] ''hash-domain''" False
      "(NewIPRotator [''192.0.2.1'', ''192.0.2.2''] [] ''hash-domain'')\<lparr>counterV4 := 7\<rparr>"]
  by (simp add: NewIPRotator_def poolOf_def Let_def)

end
