(* ===== verification/Connection_Pool.thy ===== *)
theory Connection_Pool
  imports Go_Prelude "HOL-Library.Multiset"
begin

text \<open>
  The pool of idle SMTP connections, \<^verbatim>\<open>internal/delivery/pool.go\<close>. A client of the SMTP library is
  known by its identity, a number; what the pool does to clients is recorded as the list of the ones
  it has closed. The mutex makes \<open>popCandidate\<close>, \<open>Put\<close>, \<open>cleanupExpired\<close> and \<open>CloseAll\<close> atomic; the
  liveness probe of \<open>Get\<close> runs outside the lock, so \<open>Get\<close> is also given as the separate steps that
  other operations may come between.
\<close>

section \<open>Model\<close>

type_synonym client = nat

record PooledConnection =
  pc_client :: client
  pc_mxHost :: string
  pc_sourceIP :: string
  pc_timestamp :: gotime

record ConnectionPool =
  connections :: "(string \<times> PooledConnection list) list"
  pool_ttl :: duration
  maxIdle :: nat
  closedClients :: "client list"
  stopped :: bool

definition NewConnectionPool :: "int \<Rightarrow> ConnectionPool" where
  "NewConnectionPool ttlSeconds =
     \<lparr>connections = [], pool_ttl = (if ttlSeconds \<le> 0 then 5 else ttlSeconds) * Second, maxIdle = 10,
      closedClients = [], stopped = False\<rparr>"

definition poolKey :: "string \<Rightarrow> string \<Rightarrow> string" where
  "poolKey mxHost sourceIP = mxHost @ ''|'' @ sourceIP"

definition pooled :: "ConnectionPool \<Rightarrow> string \<Rightarrow> PooledConnection list" where
  "pooled p key = (case map_of (connections p) key of Some conns \<Rightarrow> conns | None \<Rightarrow> [])"

definition expired :: "ConnectionPool \<Rightarrow> gotime \<Rightarrow> PooledConnection \<Rightarrow> bool" where
  "expired p now conn \<longleftrightarrow> now - pc_timestamp conn > pool_ttl p"

definition closeClients :: "client list \<Rightarrow> ConnectionPool \<Rightarrow> ConnectionPool" where
  "closeClients cs p = p\<lparr>closedClients := closedClients p @ cs\<rparr>"

text \<open>The entries of the map without expired connections; entries left empty are deleted.\<close>

definition cleanupExpired :: "gotime \<Rightarrow> ConnectionPool \<Rightarrow> ConnectionPool" where
  "cleanupExpired now p =
     closeClients (concat (map (\<lambda>(key, conns). map pc_client (filter (expired p now) conns)) (connections p)))
       (p\<lparr>connections := filter (\<lambda>(key, conns). conns \<noteq> [])
            (map (\<lambda>(key, conns). (key, filter (\<lambda>c. \<not> expired p now c) conns)) (connections p))\<rparr>)"

text \<open>
  One round of the goroutine of \<open>startCleanup\<close>: every TTL it removes what has expired, until the pool
  is stopped.
\<close>

definition startCleanup :: "gotime \<Rightarrow> ConnectionPool \<Rightarrow> ConnectionPool" where
  "startCleanup now p = (if stopped p then p else cleanupExpired now p)"

text \<open>
  The loop of \<open>popCandidate\<close> on the connections of a key, most recent first: the connection found, the
  connections left and the clients closed on the way.
\<close>

fun popLoop ::
  "ConnectionPool \<Rightarrow> gotime \<Rightarrow> PooledConnection list \<Rightarrow> client list
     \<Rightarrow> PooledConnection option \<times> PooledConnection list \<times> client list" where
  "popLoop p now [] closed = (None, [], closed)"
| "popLoop p now (conn # conns) closed =
     (if expired p now conn then popLoop p now conns (closed @ [pc_client conn])
      else (Some conn, conns, closed))"

definition popCandidate :: "string \<Rightarrow> gotime \<Rightarrow> ConnectionPool \<Rightarrow> client option \<times> ConnectionPool" where
  "popCandidate key now p =
     (if pooled p key = [] then (None, p)
      else case popLoop p now (rev (pooled p key)) [] of (found, left, closed) \<Rightarrow>
        (map_option pc_client found,
         closeClients closed (p\<lparr>connections := AList.update key (rev left) (connections p)\<rparr>)))"

text \<open>
  \<open>Get\<close> without interference: \<open>alive\<close> is the answer of each client to \<open>NOOP\<close>, \<open>clk i\<close> the clock in the
  \<open>i\<close>-th round. Every round takes a connection from the pool, so as many rounds as connections, and one
  to find the pool empty, are enough.
\<close>

fun getLoop ::
  "nat \<Rightarrow> nat \<Rightarrow> (client \<Rightarrow> bool) \<Rightarrow> (nat \<Rightarrow> gotime) \<Rightarrow> string \<Rightarrow> ConnectionPool
     \<Rightarrow> client option \<times> ConnectionPool" where
  "getLoop 0 i alive clk key p = (None, p)"
| "getLoop (Suc n) i alive clk key p =
     (case popCandidate key (clk i) p of
        (None, p') \<Rightarrow> (None, p')
      | (Some candidate, p') \<Rightarrow>
          if \<not> alive candidate then getLoop n (Suc i) alive clk key (closeClients [candidate] p')
          else (Some candidate, p'))"

definition Get ::
  "(client \<Rightarrow> bool) \<Rightarrow> (nat \<Rightarrow> gotime) \<Rightarrow> string \<Rightarrow> string \<Rightarrow> ConnectionPool
     \<Rightarrow> client option \<times> ConnectionPool" where
  "Get alive clk mxHost sourceIP p =
     (let key = poolKey mxHost sourceIP in getLoop (Suc (length (pooled p key))) 0 alive clk key p)"

definition Put :: "client option \<Rightarrow> string \<Rightarrow> string \<Rightarrow> gotime \<Rightarrow> ConnectionPool \<Rightarrow> ConnectionPool" where
  "Put client mxHost sourceIP now p =
     (case client of
        None \<Rightarrow> p
      | Some c \<Rightarrow>
          let key = poolKey mxHost sourceIP; conns = pooled p key in
          if length conns \<ge> maxIdle p then closeClients [c] p
          else p\<lparr>connections := AList.update key
                   (conns @ [\<lparr>pc_client = c, pc_mxHost = mxHost, pc_sourceIP = sourceIP, pc_timestamp = now\<rparr>])
                   (connections p)\<rparr>)"

text \<open>
  \<open>CloseAll\<close> first closes the channel that stops the goroutine, which can be done only once: a second
  call panics, so the steps below have it only on a pool that is not stopped.
\<close>

definition CloseAll :: "ConnectionPool \<Rightarrow> ConnectionPool" where
  "CloseAll p =
     closeClients (concat (map (\<lambda>(key, conns). map pc_client conns) (connections p)))
       (p\<lparr>connections := [], stopped := True\<rparr>)"

definition Stats :: "ConnectionPool \<Rightarrow> nat \<times> nat" where
  "Stats p = (sum_list (map (\<lambda>(key, conns). length conns) (connections p)), length (connections p))"

section \<open>Lemmas\<close>

lemma closeClients_sel [simp]:
  "connections (closeClients cs p) = connections p" "pool_ttl (closeClients cs p) = pool_ttl p"
  "maxIdle (closeClients cs p) = maxIdle p" "closedClients (closeClients cs p) = closedClients p @ cs"
  by (simp_all add: closeClients_def)

lemma pooled_closeClients [simp]: "pooled (closeClients cs p) key = pooled p key"
  by (simp add: pooled_def)

lemma expired_closeClients [simp]: "expired (closeClients cs p) now c = expired p now c"
  by (simp add: expired_def)

lemma pooled_update [simp]:
  "pooled (p\<lparr>connections := AList.update key conns al\<rparr>) k =
     (if k = key then conns else case map_of al k of Some cs \<Rightarrow> cs | None \<Rightarrow> [])"
  by (simp add: pooled_def)

lemma popLoop_spec:
  "popLoop p now conns closed = (found, left, closed') \<Longrightarrow>
     \<exists>old. closed' = closed @ map pc_client old \<and> (\<forall>c\<in>set old. expired p now c)
       \<and> (case found of
            None \<Rightarrow> left = [] \<and> conns = old
          | Some c \<Rightarrow> conns = old @ c # left \<and> \<not> expired p now c)"
proof (induction p now conns closed rule: popLoop.induct)
  case (1 p now closed)
  then show ?case by simp
next
  case (2 p now conn conns closed)
  show ?case
  proof (cases "expired p now conn")
    case True
    with 2 obtain old where "closed' = (closed @ [pc_client conn]) @ map pc_client old"
      "\<forall>c\<in>set old. expired p now c"
      "case found of None \<Rightarrow> left = [] \<and> conns = old | Some c \<Rightarrow> conns = old @ c # left \<and> \<not> expired p now c"
      by auto
    with True show ?thesis by (intro exI [of _ "conn # old"]) (auto split: option.splits)
  next
    case False
    with 2 show ?thesis by auto
  qed
qed

text \<open>A popped connection splits the list of its key: what stays, the connection, the expired newer ones.\<close>

lemma popCandidate_Some:
  assumes "popCandidate key now p = (Some c, p')"
  obtains left conn old where "pooled p key = left @ conn # old" and "pc_client conn = c"
    and "\<not> expired p now conn" and "\<forall>x\<in>set old. expired p now x"
    and "p' = closeClients (map pc_client (rev old)) (p\<lparr>connections := AList.update key left (connections p)\<rparr>)"
proof -
  obtain found left closed where loop: "popLoop p now (rev (pooled p key)) [] = (found, left, closed)"
    by (cases "popLoop p now (rev (pooled p key)) []") auto
  with assms obtain conn where found: "found = Some conn" "pc_client conn = c"
    and p': "p' = closeClients closed (p\<lparr>connections := AList.update key (rev left) (connections p)\<rparr>)"
    by (auto simp: popCandidate_def split: if_splits)
  from popLoop_spec [OF loop] found obtain old where "closed = map pc_client old"
    "\<forall>x\<in>set old. expired p now x" "rev (pooled p key) = old @ conn # left" "\<not> expired p now conn"
    by auto
  moreover from this(3) have "pooled p key = rev left @ conn # rev old"
    by (metis append.assoc append_Cons append_Nil rev.simps(2) rev_append rev_swap)
  ultimately show ?thesis using that [of "rev left" conn "rev old"] found p' by simp
qed

lemma popCandidate_None:
  assumes "popCandidate key now p = (None, p')"
  shows "\<forall>x\<in>set (pooled p key). expired p now x" and "pooled p' key = []"
    and "closedClients p' = closedClients p @ map pc_client (rev (pooled p key))"
proof -
  obtain found left closed where loop: "popLoop p now (rev (pooled p key)) [] = (found, left, closed)"
    by (cases "popLoop p now (rev (pooled p key)) []") auto
  from popLoop_spec [OF loop] assms show "\<forall>x\<in>set (pooled p key). expired p now x" "pooled p' key = []"
    "closedClients p' = closedClients p @ map pc_client (rev (pooled p key))"
    by (auto simp: popCandidate_def loop split: if_splits option.splits dest: arg_cong [of _ _ rev])
qed

section \<open>Ownership\<close>

text \<open>The clients that lie idle in the pool, and every client the pool and its users ever knew.\<close>

definition idle_of :: "(string \<times> PooledConnection list) list \<Rightarrow> client list" where
  "idle_of al = concat (map (\<lambda>(key, conns). map pc_client conns) al)"

definition idle :: "ConnectionPool \<Rightarrow> client list" where
  "idle p = idle_of (connections p)"

definition known :: "ConnectionPool \<times> client list \<Rightarrow> client list" where
  "known s = idle (fst s) @ snd s @ closedClients (fst s)"

text \<open>
  The steps of the pool and its users; the second component are the clients checked out. A user dials
  a client the pool has never seen, takes one from the pool, closes one it holds (a failed probe, a
  failed transaction) or puts it back; a round of the clean-up and the shutdown may come at any time.
\<close>

inductive pool_step :: "ConnectionPool \<times> client list \<Rightarrow> ConnectionPool \<times> client list \<Rightarrow> bool" where
  dial: "c \<notin> set (known (p, held)) \<Longrightarrow> pool_step (p, held) (p, c # held)"
| pop: "popCandidate (poolKey mx ip) now p = (Some c, p') \<Longrightarrow> pool_step (p, held) (p', c # held)"
| miss: "popCandidate (poolKey mx ip) now p = (None, p') \<Longrightarrow> pool_step (p, held) (p', held)"
| close: "c \<in> set held \<Longrightarrow> pool_step (p, held) (closeClients [c] p, remove1 c held)"
| put: "c \<in> set held \<Longrightarrow> pool_step (p, held) (Put (Some c) mx ip now p, remove1 c held)"
| expire: "pool_step (p, held) (startCleanup now p, held)"
| shutdown: "\<not> stopped p \<Longrightarrow> pool_step (p, held) (CloseAll p, held)"

inductive_cases pool_stepE: "pool_step (p, held) s'"

inductive pool_reachable :: "int \<Rightarrow> ConnectionPool \<times> client list \<Rightarrow> bool" for ttl where
  init: "pool_reachable ttl (NewConnectionPool ttl, [])"
| step: "pool_reachable ttl s \<Longrightarrow> pool_step s s' \<Longrightarrow> pool_reachable ttl s'"

definition keyed_ok :: "nat \<Rightarrow> string \<times> PooledConnection list \<Rightarrow> bool" where
  "keyed_ok limit e \<longleftrightarrow> length (snd e) \<le> limit
     \<and> list_all (\<lambda>c. poolKey (pc_mxHost c) (pc_sourceIP c) = fst e) (snd e)"

definition pool_inv :: "ConnectionPool \<times> client list \<Rightarrow> bool" where
  "pool_inv s \<longleftrightarrow> distinct (map fst (connections (fst s))) \<and> distinct (known s)
     \<and> list_all (keyed_ok (maxIdle (fst s))) (connections (fst s))"

lemma idle_of_Cons: "idle_of ((k, cs) # al) = map pc_client cs @ idle_of al"
  by (simp add: idle_of_def)

lemma idle_of_Nil [simp]: "idle_of [] = []"
  by (simp add: idle_of_def)

lemma mset_idle_update:
  "distinct (map fst al) \<Longrightarrow>
     mset (idle_of (AList.update k cs al))
       + mset (map pc_client (case map_of al k of Some old \<Rightarrow> old | None \<Rightarrow> []))
     = mset (idle_of al) + mset (map pc_client cs)"
proof (induction al)
  case Nil
  show ?case by (simp add: idle_of_def)
next
  case (Cons e al)
  obtain k' old where e: "e = (k', old)" by force
  show ?case
  proof (cases "k' = k")
    case True
    with Cons.prems e have "map_of al k = None" by (auto simp: map_of_eq_None_iff)
    with True e show ?thesis by (simp add: idle_of_Cons)
  next
    case False
    with Cons e show ?thesis by (simp add: idle_of_Cons union_assoc)
  qed
qed

lemma mset_idle_set:
  assumes "distinct (map fst (connections p))"
  shows "mset (idle (p\<lparr>connections := AList.update k cs (connections p)\<rparr>)) + mset (map pc_client (pooled p k))
    = mset (idle p) + mset (map pc_client cs)"
  using mset_idle_update [OF assms, of k cs] by (simp add: idle_def pooled_def)

lemma idle_closeClients [simp]: "idle (closeClients cs p) = idle p"
  by (simp add: idle_def)

lemma pooled_ok: "pool_inv (p, held) \<Longrightarrow> keyed_ok (maxIdle p) (k, pooled p k)"
  by (auto simp: pool_inv_def pooled_def keyed_ok_def dest: map_of_list_all split: option.split)

lemma known_distinctI: "distinct (known s) \<Longrightarrow> mset (known s') = mset (known s) \<Longrightarrow> distinct (known s')"
  using mset_eq_imp_distinct_iff by blast

lemma pop_known:
  assumes "pool_inv (p, held)" and "popCandidate k now p = (Some c, p')"
  shows "mset (known (p', c # held)) = mset (known (p, held))"
proof -
  from assms(2) obtain left conn old where split: "pooled p k = left @ conn # old" "pc_client conn = c"
    and p': "p' = closeClients (map pc_client (rev old)) (p\<lparr>connections := AList.update k left (connections p)\<rparr>)"
    by (rule popCandidate_Some)
  have "mset (idle p') + mset (map pc_client (pooled p k)) = mset (idle p) + mset (map pc_client left)"
    using mset_idle_set [of p k left] assms(1) by (simp add: p' pool_inv_def)
  then show ?thesis using split by (simp add: known_def p' rev_map)
qed

lemma miss_known:
  assumes "pool_inv (p, held)" and "popCandidate k now p = (None, p')"
  shows "mset (known (p', held)) = mset (known (p, held))"
proof (cases "pooled p k = []")
  case True
  with assms(2) show ?thesis by (simp add: popCandidate_def)
next
  case False
  have conns: "connections p' = AList.update k [] (connections p)"
    using assms(2) False popLoop_spec [of p now "rev (pooled p k)" "[]"]
    by (auto simp: popCandidate_def split: prod.splits option.splits)
  have "mset (idle p') + mset (map pc_client (pooled p k)) = mset (idle p)"
    using mset_idle_set [of p k "[]"] assms(1) conns by (simp add: pool_inv_def idle_def)
  then show ?thesis
    using popCandidate_None(3) [OF assms(2)] by (simp add: known_def rev_map)
qed

lemma put_known:
  assumes "pool_inv (p, held)" and "c \<in> set held"
  shows "mset (known (Put (Some c) mx ip now p, remove1 c held)) = mset (known (p, held))"
proof (cases "length (pooled p (poolKey mx ip)) \<ge> maxIdle p")
  case True
  with assms(2) show ?thesis by (simp add: Put_def known_def Let_def)
next
  case False
  let ?conn = "\<lparr>pc_client = c, pc_mxHost = mx, pc_sourceIP = ip, pc_timestamp = now\<rparr>"
  have "mset (idle (Put (Some c) mx ip now p)) = mset (idle p) + {#c#}"
    using mset_idle_set [of p "poolKey mx ip" "pooled p (poolKey mx ip) @ [?conn]"] assms(1) False
    by (simp add: pool_inv_def Put_def Let_def)
  moreover have "closedClients (Put (Some c) mx ip now p) = closedClients p"
    using False by (simp add: Put_def Let_def)
  ultimately show ?thesis using assms(2) by (simp add: known_def)
qed

lemma mset_filter_split: "mset (map f (filter P xs)) + mset (map f (filter (\<lambda>x. \<not> P x) xs)) = mset (map f xs)"
  by (induction xs) simp_all

lemma idle_of_nonempty: "idle_of (filter (\<lambda>(key, conns). conns \<noteq> []) al) = idle_of al"
  by (induction al) (auto simp: idle_of_Cons)

lemma expire_split:
  "mset (concat (map (\<lambda>(key, conns). map pc_client (filter P conns)) al))
     + mset (idle_of (filter (\<lambda>(key, conns). conns \<noteq> []) (map (\<lambda>(key, conns). (key, filter (\<lambda>c. \<not> P c) conns)) al)))
   = mset (idle_of al)"
proof (induction al)
  case Nil
  show ?case by simp
next
  case (Cons e al)
  obtain k cs where "e = (k, cs)" by force
  with Cons mset_filter_split [of pc_client P cs] show ?case
    unfolding idle_of_nonempty by (simp add: idle_of_Cons ac_simps)
qed

lemma expire_known: "mset (known (cleanupExpired now p, held)) = mset (known (p, held))"
  using expire_split [of "expired p now" "connections p"]
  by (simp add: known_def cleanupExpired_def idle_def) (metis union_assoc union_commute)

lemma shutdown_known: "mset (known (CloseAll p, held)) = mset (known (p, held))"
  by (simp add: known_def CloseAll_def idle_def idle_of_def)

text \<open>What a step does to the entries of the map.\<close>

lemma pop_entries:
  assumes "popCandidate k now p = (r, p')"
  shows "maxIdle p' = maxIdle p"
    and "connections p' = connections p
       \<or> (\<exists>left rest. connections p' = AList.update k left (connections p) \<and> pooled p k = left @ rest)"
proof -
  show "maxIdle p' = maxIdle p"
    using assms by (auto simp: popCandidate_def split: if_splits prod.splits)
  show "connections p' = connections p
       \<or> (\<exists>left rest. connections p' = AList.update k left (connections p) \<and> pooled p k = left @ rest)"
  proof (cases r)
    case (Some c)
    with assms show ?thesis by (auto elim!: popCandidate_Some)
  next
    case None
    with assms popLoop_spec [of p now "rev (pooled p k)" "[]"] show ?thesis
      by (auto simp: popCandidate_def split: if_splits prod.splits option.splits)
  qed
qed

lemma pop_inv:
  assumes "pool_inv (p, held)" and "popCandidate k now p = (r, p')"
  shows "distinct (map fst (connections p')) \<and> list_all (keyed_ok (maxIdle p')) (connections p')"
  using pop_entries [OF assms(2)] assms(1) pooled_ok [OF assms(1), of k]
  by (auto simp: pool_inv_def distinct_update keyed_ok_def intro!: list_all_update)

lemma put_inv:
  assumes "pool_inv (p, held)"
  shows "distinct (map fst (connections (Put (Some c) mx ip now p)))
    \<and> list_all (keyed_ok (maxIdle (Put (Some c) mx ip now p))) (connections (Put (Some c) mx ip now p))"
  using assms pooled_ok [OF assms, of "poolKey mx ip"]
  by (auto simp: pool_inv_def Put_def Let_def distinct_update keyed_ok_def intro!: list_all_update)

lemma expire_inv:
  assumes "pool_inv (p, held)"
  shows "distinct (map fst (connections (cleanupExpired now p)))
    \<and> list_all (keyed_ok (maxIdle (cleanupExpired now p))) (connections (cleanupExpired now p))"
proof -
  let ?al = "map (\<lambda>(key, conns). (key, filter (\<lambda>c. \<not> expired p now c) conns)) (connections p)"
  have "map fst ?al = map fst (connections p)" by (simp add: case_prod_beta comp_def)
  then have "distinct (map fst ?al)" using assms by (simp only: pool_inv_def fst_conv)
  moreover have "list_all (keyed_ok (maxIdle p)) ?al"
    using assms by (fastforce simp: pool_inv_def list_all_iff keyed_ok_def intro: order_trans [OF length_filter_le])
  ultimately show ?thesis
    by (simp add: cleanupExpired_def distinct_filter_keys list_all_filter)
qed

lemma pool_step_inv:
  assumes "pool_step s s'" and "pool_inv s"
  shows "pool_inv s'"
  using assms
proof (induction rule: pool_step.induct)
  case (dial c p held)
  then show ?case by (simp add: pool_inv_def known_def)
next
  case (pop mx ip now p c p' held)
  then show ?case
    using pop_inv [OF pop(2,1)] pop_known [OF pop(2,1)] known_distinctI
    by (auto simp: pool_inv_def)
next
  case (miss mx ip now p p' held)
  then show ?case
    using pop_inv [OF miss(2,1)] miss_known [OF miss(2,1)] known_distinctI
    by (auto simp: pool_inv_def)
next
  case (close c held p)
  have "mset (known (closeClients [c] p, remove1 c held)) = mset (known (p, held))"
    using close(1) by (simp add: known_def)
  with close(2) known_distinctI show ?case by (auto simp: pool_inv_def)
next
  case (put c held p mx ip now)
  then show ?case
    using put_inv [OF put(2)] put_known [OF put(2,1)] known_distinctI by (auto simp: pool_inv_def)
next
  case (expire p held now)
  then show ?case
    using expire_inv [OF expire] expire_known known_distinctI by (auto simp: pool_inv_def startCleanup_def)
next
  case (shutdown p held)
  then show ?case
    using shutdown_known known_distinctI by (auto simp: pool_inv_def CloseAll_def)
qed

text \<open>
  How long a connection stays idle. A round of the clean-up leaves only connections returned in the last
  TTL, and what happens until the next round adds only newer ones; so with a round every TTL no idle
  connection is older than twice the TTL. After \<open>CloseAll\<close> there are no rounds any more: what is put
  into the pool then stays there until it is asked for.
\<close>

definition idle_since :: "gotime \<Rightarrow> ConnectionPool \<Rightarrow> bool" where
  "idle_since t p \<longleftrightarrow> list_all (\<lambda>(key, conns). list_all (\<lambda>c. t \<le> pc_timestamp c) conns) (connections p)"

lemma idle_since_pooled: "idle_since t p \<Longrightarrow> list_all (\<lambda>c. t \<le> pc_timestamp c) (pooled p key)"
proof (cases "map_of (connections p) key")
  case (Some conns)
  assume "idle_since t p"
  with map_of_SomeD [OF Some] Some show ?thesis by (auto simp: idle_since_def pooled_def list_all_iff)
qed (simp add: pooled_def)

lemma cleanup_idle_since: "\<not> stopped p \<Longrightarrow> idle_since (now - pool_ttl p) (startCleanup now p)"
  by (auto simp: idle_since_def startCleanup_def cleanupExpired_def expired_def list_all_iff)

lemma put_idle_since: "idle_since t p \<Longrightarrow> t \<le> now \<Longrightarrow> idle_since t (Put c mx ip now p)"
  using idle_since_pooled [of t p]
  by (auto simp: idle_since_def Put_def Let_def intro!: list_all_update split: option.split)

lemma pop_idle_since:
  assumes "idle_since t p" and "popCandidate key now p = (r, p')"
  shows "idle_since t p'"
  using pop_entries(2) [OF assms(2)] assms(1) idle_since_pooled [OF assms(1), of key]
  by (auto simp: idle_since_def intro!: list_all_update)

inductive used_since :: "gotime \<Rightarrow> ConnectionPool \<Rightarrow> ConnectionPool \<Rightarrow> bool" for t p where
  unused: "used_since t p p"
| taken: "used_since t p p' \<Longrightarrow> popCandidate key now p' = (r, p'') \<Longrightarrow> used_since t p p''"
| returned: "used_since t p p' \<Longrightarrow> t \<le> now \<Longrightarrow> used_since t p (Put c mx ip now p')"
| closed: "used_since t p p' \<Longrightarrow> used_since t p (closeClients cs p')"

lemma used_idle_since:
  assumes "used_since t p p'" and "u \<le> t" and "idle_since u p"
  shows "idle_since u p'"
  using assms
proof (induction rule: used_since.induct)
  case (taken p' key now r p'')
  then show ?case using pop_idle_since by blast
next
  case (returned p' now c mx ip)
  then show ?case by (simp add: put_idle_since)
qed (simp_all add: idle_since_def)

lemma idle_age_bounded:
  assumes "\<not> stopped p" and "used_since tick (startCleanup tick p) p'" and "0 \<le> pool_ttl p"
    and "now \<le> tick + pool_ttl p" and "conn \<in> set (pooled p' key)"
  shows "now - pc_timestamp conn \<le> 2 * pool_ttl p"
proof -
  have "idle_since (tick - pool_ttl p) p'"
    using used_idle_since [OF assms(2) _ cleanup_idle_since] assms(1,3) by simp
  then have "tick - pool_ttl p \<le> pc_timestamp conn"
    using idle_since_pooled assms(5) by (simp add: list_all_iff)
  with assms(4) show ?thesis by simp
qed

lemma stopped_pool_keeps: "stopped p \<Longrightarrow> startCleanup now (Put c mx ip now' p) = Put c mx ip now' p"
  by (simp add: startCleanup_def Put_def Let_def closeClients_def split: option.split)

lemma pool_reachable_inv: "pool_reachable ttl s \<Longrightarrow> pool_inv s"
proof (induction rule: pool_reachable.induct)
  case init
  show ?case by (simp add: pool_inv_def NewConnectionPool_def known_def idle_def)
next
  case (step s s')
  then show ?case using pool_step_inv by blast
qed

text \<open>
  Sequences of steps of one user that bring no new client: reachability is kept and every client known
  stays known. Taking a connection from the pool, closing it and putting it back are such sequences.
\<close>

definition keeps :: "int \<Rightarrow> ConnectionPool \<times> client list \<Rightarrow> ConnectionPool \<times> client list \<Rightarrow> bool" where
  "keeps ttl s s' \<longleftrightarrow>
     (pool_reachable ttl s \<longrightarrow> pool_reachable ttl s' \<and> mset (known s') = mset (known s))"

lemma keeps_refl [simp]: "keeps ttl s s"
  by (simp add: keeps_def)

lemma keeps_trans: "keeps ttl s s' \<Longrightarrow> keeps ttl s' s'' \<Longrightarrow> keeps ttl s s''"
  by (simp add: keeps_def)

lemma keepsD:
  "keeps ttl s s' \<Longrightarrow> pool_reachable ttl s \<Longrightarrow> pool_reachable ttl s' \<and> set (known s') = set (known s)"
  using mset_eq_setD by (auto simp only: keeps_def)

lemma keeps_pop: "popCandidate (poolKey mx ip) now p = (Some c, p') \<Longrightarrow> keeps ttl (p, held) (p', c # held)"
  unfolding keeps_def by (blast intro: pop_known pool_reachable_inv pool_step.pop pool_reachable.step)

lemma keeps_miss: "popCandidate (poolKey mx ip) now p = (None, p') \<Longrightarrow> keeps ttl (p, held) (p', held)"
  unfolding keeps_def by (blast intro: miss_known pool_reachable_inv pool_step.miss pool_reachable.step)

lemma keeps_close: "keeps ttl (p, c # held) (closeClients [c] p, held)"
proof -
  have "pool_step (p, c # held) (closeClients [c] p, held)"
    using pool_step.close [of c "c # held" p] by simp
  then show ?thesis by (auto simp: keeps_def known_def intro: pool_reachable.step)
qed

lemma keeps_put: "keeps ttl (p, c # held) (Put (Some c) mx ip now p, held)"
proof -
  have "pool_step (p, c # held) (Put (Some c) mx ip now p, held)"
    using pool_step.put [of c "c # held" p mx ip now] by simp
  then show ?thesis
    using put_known [of p "c # held" c mx ip now] pool_reachable_inv
    by (auto simp: keeps_def intro: pool_reachable.step)
qed

lemma keeps_getLoop:
  "getLoop n i alive clk (poolKey mx ip) p = (r, p') \<Longrightarrow>
     keeps ttl (p, held) (p', (case r of Some c \<Rightarrow> c # held | None \<Rightarrow> held))"
proof (induction n i alive clk "poolKey mx ip" p rule: getLoop.induct)
  case (1 i alive clk p)
  then show ?case by auto
next
  case (2 n i alive clk p)
  obtain q p1 where pop: "popCandidate (poolKey mx ip) (clk i) p = (q, p1)" by force
  show ?case
  proof (cases q)
    case None
    with 2 pop keeps_miss show ?thesis by auto
  next
    case (Some c)
    with pop have step: "keeps ttl (p, held) (p1, c # held)" by (auto intro: keeps_pop)
    show ?thesis
    proof (cases "alive c")
      case True
      with 2 pop Some step show ?thesis by auto
    next
      case False
      with 2 pop Some have "keeps ttl (closeClients [c] p1, held) (p', (case r of Some c \<Rightarrow> c # held | None \<Rightarrow> held))"
        by auto
      with step keeps_close keeps_trans show ?thesis by blast
    qed
  qed
qed

lemma keeps_Get:
  "Get alive clk mx ip p = (r, p') \<Longrightarrow> keeps ttl (p, held) (p', (case r of Some c \<Rightarrow> c # held | None \<Rightarrow> held))"
  unfolding Get_def Let_def by (rule keeps_getLoop)

lemmas keeps_intros = keeps_refl keeps_close keeps_put keeps_Get

text \<open>The key determines host and source address, as an address has no bar in it.\<close>

lemma poolKey_inject:
  assumes "CHR ''|'' \<notin> set ip" and "CHR ''|'' \<notin> set ip'"
  shows "poolKey mx ip = poolKey mx' ip' \<longleftrightarrow> mx = mx' \<and> ip = ip'"
proof
  assume eq: "poolKey mx ip = poolKey mx' ip'"
  have "LastIndexByte (poolKey mx ip) CHR ''|'' = Some (length mx)"
    "LastIndexByte (poolKey mx' ip') CHR ''|'' = Some (length mx')"
    using assms by (simp_all add: poolKey_def LastIndexByte_append)
  with eq have "length mx = length mx'" by simp
  with eq show "mx = mx' \<and> ip = ip'" by (simp add: poolKey_def)
qed simp

section \<open>Properties\<close>

text \<open>
  C7. In every reachable state, under any interleaving of dials, takes, returns, closes, expiry and
  shutdown, a connection is in one place only: idle in the pool once, held by one delivery, or closed.
  So no connection is given to two deliveries and none that was closed is given out; and no key holds
  more than the limit.
\<close>

theorem pool_exclusive:
  assumes "pool_reachable ttl (p, held)"
  shows "distinct (idle p @ held @ closedClients p)
    \<and> (\<forall>k. length (pooled p k) \<le> maxIdle p)
    \<and> (\<forall>k now c p'. popCandidate k now p = (Some c, p') \<longrightarrow> c \<notin> set held \<and> c \<notin> set (closedClients p'))"
proof -
  have inv: "pool_inv (p, held)" by (rule pool_reachable_inv [OF assms])
  then have dist: "distinct (known (p, held))" by (simp add: pool_inv_def)
  have "c \<notin> set held \<and> c \<notin> set (closedClients p')" if "popCandidate k now p = (Some c, p')" for k now c p'
    using known_distinctI [OF dist pop_known [OF inv that]] by (simp add: known_def)
  moreover have "\<forall>k. length (pooled p k) \<le> maxIdle p"
    using pooled_ok [OF inv] by (simp add: keyed_ok_def)
  ultimately show ?thesis using dist by (simp add: known_def)
qed

lemma sample_reachable:
  "pool_reachable 5 (Put (Some 7) ''mx.example.com'' ''192.0.2.1'' 0 (NewConnectionPool 5), [])"
proof -
  have "pool_step (NewConnectionPool 5, []) (NewConnectionPool 5, [7])"
    by (rule pool_step.dial) (simp add: known_def idle_def NewConnectionPool_def)
  moreover have "pool_step (NewConnectionPool 5, [7])
      (Put (Some 7) ''mx.example.com'' ''192.0.2.1'' 0 (NewConnectionPool 5), remove1 7 [7])"
    by (rule pool_step.put) simp
  ultimately show ?thesis
    using pool_reachable.step [OF pool_reachable.step [OF pool_reachable.init]] by simp
qed

theorem pool_exclusive_witness:
  "let p = Put (Some 7) ''mx.example.com'' ''192.0.2.1'' 0 (NewConnectionPool 5)
   in idle p = [7] \<and> distinct (idle p @ [] @ closedClients p)"
  using pool_exclusive [OF sample_reachable]
  by (simp add: Let_def Put_def idle_def idle_of_def pooled_def NewConnectionPool_def)

lemma getLoop_fit:
  assumes "getLoop n i alive clk key p = (Some c, p')"
  shows "alive c \<and> (\<exists>conn\<in>set (pooled p key). pc_client conn = c
    \<and> (\<exists>j<i + n. clk j - pc_timestamp conn \<le> pool_ttl p))"
  using assms
proof (induction n i alive clk key p rule: getLoop.induct)
  case (1 i alive clk key p)
  then show ?case by simp
next
  case (2 n i alive clk key p)
  obtain r q where pop: "popCandidate key (clk i) p = (r, q)" by force
  with 2(2) obtain d where r: "r = Some d" by (cases r) auto
  with pop obtain left conn old where split: "pooled p key = left @ conn # old" "pc_client conn = d"
    "\<not> expired p (clk i) conn"
    and q: "q = closeClients (map pc_client (rev old)) (p\<lparr>connections := AList.update key left (connections p)\<rparr>)"
    by (auto elim: popCandidate_Some)
  show ?case
  proof (cases "alive d")
    case True
    with 2(2) pop r have "c = d" by simp
    with True split show ?thesis by (auto simp: expired_def intro!: exI [of _ i])
  next
    case False
    with 2 pop r have "alive c \<and> (\<exists>conn\<in>set (pooled (closeClients [d] q) key). pc_client conn = c
        \<and> (\<exists>j<Suc i + n. clk j - pc_timestamp conn \<le> pool_ttl (closeClients [d] q)))"
      by auto
    with split q show ?thesis by auto
  qed
qed

text \<open>
  C19. What \<open>Get\<close> hands out is fit for the delivery that asked: the connection was put back for the very
  same MX host and source address, has not outlived its time at the moment it is taken, and answered
  the liveness probe.
\<close>

theorem get_fit_for_use:
  assumes "pool_reachable ttl (p, held)" and "Get alive clk mx ip p = (Some c, p')"
    and "CHR ''|'' \<notin> set ip" and "list_all (\<lambda>e. list_all (\<lambda>x. CHR ''|'' \<notin> set (pc_sourceIP x)) (snd e)) (connections p)"
  shows "alive c \<and> (\<exists>conn\<in>set (pooled p (poolKey mx ip)). pc_client conn = c
    \<and> pc_mxHost conn = mx \<and> pc_sourceIP conn = ip
    \<and> (\<exists>j. clk j - pc_timestamp conn \<le> pool_ttl p))"
proof -
  let ?k = "poolKey mx ip"
  from getLoop_fit assms(2) obtain conn where "alive c" and conn: "conn \<in> set (pooled p ?k)" "pc_client conn = c"
    and time: "\<exists>j. clk j - pc_timestamp conn \<le> pool_ttl p"
    unfolding Get_def Let_def by blast
  have "keyed_ok (maxIdle p) (?k, pooled p ?k)"
    by (rule pooled_ok [OF pool_reachable_inv [OF assms(1)]])
  with conn have key: "poolKey (pc_mxHost conn) (pc_sourceIP conn) = ?k"
    by (simp add: keyed_ok_def list_all_iff)
  obtain conns where "map_of (connections p) ?k = Some conns" "conn \<in> set conns"
    using conn(1) by (cases "map_of (connections p) ?k") (auto simp: pooled_def)
  with map_of_list_all [OF assms(4)] have "CHR ''|'' \<notin> set (pc_sourceIP conn)"
    by (fastforce simp: list_all_iff)
  with key assms(3) have "pc_mxHost conn = mx" "pc_sourceIP conn = ip"
    using poolKey_inject by blast+
  with \<open>alive c\<close> conn time show ?thesis by blast
qed

theorem get_fit_for_use_witness:
  "let p = Put (Some 7) ''mx.example.com'' ''192.0.2.1'' 0 (NewConnectionPool 5) in
   \<exists>p'. Get (\<lambda>c. c = 7) (\<lambda>i. 3 * Second) ''mx.example.com'' ''192.0.2.1'' p = (Some 7, p')
     \<and> (\<exists>conn\<in>set (pooled p (poolKey ''mx.example.com'' ''192.0.2.1'')). pc_client conn = 7
          \<and> (\<exists>j. (3 * Second :: int) - pc_timestamp conn \<le> pool_ttl p))"
proof -
  let ?p = "Put (Some 7) ''mx.example.com'' ''192.0.2.1'' 0 (NewConnectionPool 5)"
  let ?g = "Get (\<lambda>c. c = 7) (\<lambda>i. 3 * Second) ''mx.example.com'' ''192.0.2.1'' ?p"
  have got: "?g = (Some 7, snd ?g)"
    by (simp add: Get_def popCandidate_def pooled_def Put_def NewConnectionPool_def expired_def Let_def)
  have "list_all (\<lambda>e. list_all (\<lambda>x. CHR ''|'' \<notin> set (pc_sourceIP x)) (snd e)) (connections ?p)"
    by (simp add: Put_def NewConnectionPool_def pooled_def Let_def)
  from get_fit_for_use [OF sample_reachable got _ this] got show ?thesis by (auto simp: Let_def)
qed

lemma getLoop_None:
  assumes "getLoop n i alive clk key p = (None, p')" and "length (pooled p key) < n"
  shows "pooled p' key = [] \<and> set (map pc_client (pooled p key)) \<subseteq> set (closedClients p')
    \<and> set (closedClients p) \<subseteq> set (closedClients p')"
  using assms
proof (induction n i alive clk key p rule: getLoop.induct)
  case (1 i alive clk key p)
  then show ?case by simp
next
  case (2 n i alive clk key p)
  obtain r q where pop: "popCandidate key (clk i) p = (r, q)" by force
  show ?case
  proof (cases r)
    case None
    with 2 pop popCandidate_None [of key "clk i" p q] show ?thesis by auto
  next
    case (Some d)
    with pop obtain left conn old where split: "pooled p key = left @ conn # old" "pc_client conn = d"
      and q: "q = closeClients (map pc_client (rev old)) (p\<lparr>connections := AList.update key left (connections p)\<rparr>)"
      by (auto elim: popCandidate_Some)
    have "\<not> alive d" and cont: "getLoop n (Suc i) alive clk key (closeClients [d] q) = (None, p')"
      using 2(2) pop Some by (auto split: if_splits)
    moreover have "length (pooled (closeClients [d] q) key) < n" using 2(3) split q by simp
    ultimately have "pooled p' key = [] \<and> set (map pc_client (pooled (closeClients [d] q) key)) \<subseteq> set (closedClients p')
        \<and> set (closedClients (closeClients [d] q)) \<subseteq> set (closedClients p')"
      using 2(1) pop Some by auto
    with split q show ?thesis by auto
  qed
qed

text \<open>
  C32. \<open>Get\<close> always ends with a verdict: it returns a live connection of the key, or it returns nothing
  and then no connection is left under the key, every one it met having been closed as expired or dead.
\<close>

theorem get_verdict:
  "case Get alive clk mx ip p of
     (Some c, p') \<Rightarrow> alive c \<and> c \<in> set (map pc_client (pooled p (poolKey mx ip)))
   | (None, p') \<Rightarrow> pooled p' (poolKey mx ip) = []
       \<and> set (map pc_client (pooled p (poolKey mx ip))) \<subseteq> set (closedClients p')"
proof (cases "Get alive clk mx ip p")
  case (Pair r p')
  then have loop: "getLoop (Suc (length (pooled p (poolKey mx ip)))) 0 alive clk (poolKey mx ip) p = (r, p')"
    by (simp only: Get_def Let_def)
  show ?thesis
  proof (cases r)
    case None
    from getLoop_None [OF loop [unfolded None] lessI] Pair None show ?thesis by simp
  next
    case (Some c)
    from getLoop_fit [OF loop [unfolded Some]] Pair Some show ?thesis by auto
  qed
qed

end
