(* ===== verification/DNS_Resolver.thy ===== *)
theory DNS_Resolver
  imports Rotation Config
begin

text \<open>
  The DNS client, \<^verbatim>\<open>internal/delivery/dns_resolver.go\<close>: the dialling of the configured servers with
  round robin and UDP to TCP fallback, and the three lookups. Go's own resolver and the network are
  parameters: \<open>dial\<close> is the outcome of a dial, \<open>query\<close> the answer of the Go resolver.
\<close>

section \<open>Model\<close>

record DNSResolver =
  dns_resolvers :: "string list"
  dns_timeout :: duration
  currentIdx :: "32 word"

definition NewDNSResolver :: "DNSConfig \<Rightarrow> DNSResolver" where
  "NewDNSResolver cfg =
     \<lparr>dns_resolvers = Resolvers cfg, dns_timeout = DNSTimeoutSeconds cfg * Second, currentIdx = 0\<rparr>"

text \<open>The start of a dial: the incremented counter modulo the number of servers.\<close>

definition dialStart :: "32 word \<Rightarrow> nat \<Rightarrow> nat \<times> 32 word" where
  "dialStart idx n = (let c = idx + 1 in (unat (c mod of_nat n), c))"

text \<open>
  One server after the other; \<open>dial network server\<close> is \<^const>\<open>None\<close> if the connection is made. The
  result is the network and the server connected to.
\<close>

fun dialServers ::
  "(string \<Rightarrow> string \<Rightarrow> goerror option) \<Rightarrow> bool \<Rightarrow> string list \<Rightarrow> goerror option \<Rightarrow> goerror + (string \<times> string)" where
  "dialServers dial wantTCP [] lastErr =
     Inl (case lastErr of
            Some e \<Rightarrow> wrapErr ''all DNS resolvers failed, last error: '' e
          | None \<Rightarrow> ErrText ''all DNS resolvers failed, last error: %!w(<nil>)'')"
| "dialServers dial wantTCP (server # servers) lastErr =
     (if \<not> wantTCP \<and> dial ''udp'' server = None then Inr (''udp'', server)
      else case dial ''tcp'' server of
        Some e \<Rightarrow> dialServers dial wantTCP servers (Some e)
      | None \<Rightarrow> Inr (''tcp'', server))"

definition dialResolver ::
  "(string \<Rightarrow> string \<Rightarrow> goerror option) \<Rightarrow> string \<Rightarrow> DNSResolver \<Rightarrow> (goerror + (string \<times> string)) \<times> DNSResolver" where
  "dialResolver dial network d =
     (let (startIdx, c) = dialStart (currentIdx d) (length (dns_resolvers d))
      in (dialServers dial (HasPrefix network ''tcp'') (rotateFrom startIdx (dns_resolvers d)) None,
          d\<lparr>currentIdx := c\<rparr>))"

definition resolverError :: "DNSResolver \<Rightarrow> goerror \<Rightarrow> goerror" where
  "resolverError d err =
     (case errors_as_dns err of
        None \<Rightarrow> err
      | Some e \<Rightarrow>
          if dns_resolvers d = [] then err
          else ErrDNS (DNSError (dnsNotFound e) (dnsTimeout e) (dnsName e)
                 (Join (dns_resolvers d) '','') (dnsErr e)))"

definition LookupMX :: "DNSResolver \<Rightarrow> (string \<Rightarrow> goerror + 'mx list) \<Rightarrow> string \<Rightarrow> goerror + 'mx list" where
  "LookupMX d query domain =
     (case query domain of
        Inl err \<Rightarrow> Inl (wrapErr ''MX lookup failed: '' (resolverError d err))
      | Inr records \<Rightarrow> Inr records)"

definition LookupHost :: "DNSResolver \<Rightarrow> (string \<Rightarrow> goerror + string list) \<Rightarrow> string \<Rightarrow> goerror + string list" where
  "LookupHost d query host =
     (case query host of
        Inl err \<Rightarrow> Inl (wrapErr ''host lookup failed: '' (resolverError d err))
      | Inr addrs \<Rightarrow> Inr addrs)"

definition LookupTXT :: "DNSResolver \<Rightarrow> (string \<Rightarrow> goerror + string list) \<Rightarrow> string \<Rightarrow> goerror + string list" where
  "LookupTXT d query name =
     (case query name of
        Inl err \<Rightarrow> Inl (wrapErr ''TXT lookup failed: '' (resolverError d err))
      | Inr records \<Rightarrow> Inr records)"

section \<open>Lemmas\<close>

lemma dialStart_bound: "0 < n \<Longrightarrow> n < 2 ^ 32 \<Longrightarrow> fst (dialStart c n) < n"
  by (simp add: dialStart_def Let_def unat_mod take_bit_nat_eq_self unsigned_of_nat)

lemma dialStart_index:
  "0 < n \<Longrightarrow> n < 2 ^ 32 \<Longrightarrow> Suc (unat c) < 2 ^ 32 \<Longrightarrow> fst (dialStart c n) = Suc (unat c) mod n"
  by (simp add: dialStart_def Let_def unat_mod take_bit_nat_eq_self unsigned_of_nat unat_word_ariths)

lemma dialStart_pos: "Suc (unat c) < 2 ^ 32 \<Longrightarrow> unat (snd (dialStart c n)) = Suc (unat c)"
  by (simp add: dialStart_def Let_def unat_word_ariths)

interpretation dns_rr: round_robin dialStart "\<lambda>c. Suc (unat c)" "2 ^ 32"
  by unfold_locales (simp_all add: dialStart_bound dialStart_index dialStart_pos)

lemma dialServers_Inr:
  assumes "dialServers dial wantTCP servers e = Inr (net, server)"
  shows "server \<in> set servers \<and> dial net server = None \<and> (net = ''tcp'' \<or> \<not> wantTCP \<and> net = ''udp'')"
  using assms
  by (induction servers arbitrary: e) (auto split: if_splits option.splits)

lemma dialServers_Inl:
  "isl (dialServers dial wantTCP servers e) \<longleftrightarrow>
     (\<forall>server\<in>set servers. dial ''tcp'' server \<noteq> None \<and> (wantTCP \<or> dial ''udp'' server \<noteq> None))"
  by (induction servers arbitrary: e) (auto split: option.splits)

lemma resolverError_as_dns:
  "map_option dnsNotFound (errors_as_dns (resolverError d err)) = map_option dnsNotFound (errors_as_dns err)"
  by (simp add: resolverError_def split: option.split)

section \<open>Properties\<close>

text \<open>
  A dial fails only if every configured server is unreachable: it tries all servers, from the
  round-robin position on, so that whenever some server accepts a connection on a network the dial may
  use, it returns such a connection; a retry over TCP is never answered with a UDP connection.
\<close>

lemma dial_reaches_server:
  "case fst (dialResolver dial network d) of
     Inr (net, server) \<Rightarrow> server \<in> set (dns_resolvers d) \<and> dial net server = None
       \<and> (HasPrefix network ''tcp'' \<longrightarrow> net = ''tcp'')
   | Inl _ \<Rightarrow> \<forall>server\<in>set (dns_resolvers d).
       dial ''tcp'' server \<noteq> None \<and> (\<not> HasPrefix network ''tcp'' \<longrightarrow> dial ''udp'' server \<noteq> None)"
proof -
  let ?servers = "rotateFrom (fst (dialStart (currentIdx d) (length (dns_resolvers d)))) (dns_resolvers d)"
  have result: "fst (dialResolver dial network d) = dialServers dial (HasPrefix network ''tcp'') ?servers None"
    by (simp add: dialResolver_def case_prod_beta Let_def)
  show ?thesis
  proof (cases "dialServers dial (HasPrefix network ''tcp'') ?servers None")
    case (Inl e)
    with dialServers_Inl [of dial "HasPrefix network ''tcp''" ?servers None] result show ?thesis by auto
  next
    case (Inr ns)
    with dialServers_Inr [of dial "HasPrefix network ''tcp''" ?servers None "fst ns" "snd ns"] result
    show ?thesis by (auto split: prod.split)
  qed
qed

lemma dial_reaches_server_witness:
  "fst (dialResolver (\<lambda>net server. if server = ''192.0.2.2:53'' \<and> net = ''tcp'' then None else Some (ErrText ''down'')) ''udp''
     \<lparr>dns_resolvers = [''192.0.2.1:53'', ''192.0.2.2:53''], dns_timeout = 5 * Second, currentIdx = 1\<rparr>)
   = Inr (''tcp'', ''192.0.2.2:53'')"
  using dial_reaches_server
    [where dial = "\<lambda>net server. if server = ''192.0.2.2:53'' \<and> net = ''tcp'' then None else Some (ErrText ''down'')"
      and network = "''udp''" and d = "\<lparr>dns_resolvers = [''192.0.2.1:53'', ''192.0.2.2:53''], dns_timeout = 5 * Second, currentIdx = 1\<rparr>"]
  by (auto split: sum.splits if_splits)

end
