(* ===== verification/MX_Lookup.thy ===== *)
theory MX_Lookup
  imports DNS_Resolver "HOL-Library.Multiset"
begin

text \<open>
  The MX lookup with its cache, \<^verbatim>\<open>internal/delivery/mx_lookup.go\<close>: resolution of the mail route, the
  cache of results and failures, and the coalescing of concurrent lookups as a step relation. The Go
  resolver and \<open>sort.Slice\<close>, which leaves the order of equal priorities open, are the record \<open>mx_env\<close>.
\<close>

section \<open>Model\<close>

record MXRecord =
  MXHost :: string
  Priority :: nat

record mxCacheEntry =
  entry_records :: "MXRecord list"
  entry_err :: "goerror option"
  expiresAt :: gotime

record MXLookup =
  dnsResolver :: DNSResolver
  mx_cache :: "(string \<times> mxCacheEntry) list"
  cacheTTL :: duration
  negativeTTL :: duration

record mx_env =
  queryMX :: "string \<Rightarrow> goerror + MXRecord list"
  queryHost :: "string \<Rightarrow> goerror + string list"
  sortSlice :: "MXRecord list \<Rightarrow> MXRecord list"

text \<open>What is documented of the library sort: a permutation in the order of the comparison.\<close>

definition sorts :: "mx_env \<Rightarrow> bool" where
  "sorts env \<longleftrightarrow> (\<forall>rs. mset (sortSlice env rs) = mset rs \<and> sorted (map Priority (sortSlice env rs)))"

definition NewMXLookup :: "DNSConfig \<Rightarrow> MXLookup" where
  "NewMXLookup dnsCfg =
     \<lparr>dnsResolver = NewDNSResolver dnsCfg, mx_cache = [], cacheTTL = CacheTTLSeconds dnsCfg * Second,
      negativeTTL = CacheNegativeTTLSeconds dnsCfg * Second\<rparr>"

definition isDNSNotFound :: "goerror \<Rightarrow> bool" where
  "isDNSNotFound err = (case errors_as_dns err of Some e \<Rightarrow> dnsNotFound e | None \<Rightarrow> False)"

text \<open>\<open>fmt.Errorf\<close> with \<open>%w\<close> first.\<close>

definition noMXFor :: "string \<Rightarrow> goerror" where
  "noMXFor domain = ErrWrap (sentinel_text ErrNoMXRecords @ '' for domain '' @ domain) [ErrSentinel ErrNoMXRecords]"

definition implicitMX :: "mx_env \<Rightarrow> DNSResolver \<Rightarrow> string \<Rightarrow> goerror + MXRecord list" where
  "implicitMX env d domain =
     (case LookupHost d (queryHost env) domain of
        Inl err \<Rightarrow>
          if isDNSNotFound err then Inl (noMXFor domain)
          else Inl (wrapErr ''address lookup failed: '' err)
      | Inr addrs \<Rightarrow>
          if addrs = [] then Inl (noMXFor domain)
          else Inr [\<lparr>MXHost = domain, Priority = 0\<rparr>])"

definition lookupDNS :: "mx_env \<Rightarrow> DNSResolver \<Rightarrow> string \<Rightarrow> goerror + MXRecord list" where
  "lookupDNS env d domain =
     (case LookupMX d (queryMX env) domain of
        Inl err \<Rightarrow>
          if \<not> isDNSNotFound err then Inl (wrapErr ''MX lookup failed: '' err)
          else implicitMX env d domain
      | Inr mxRecords \<Rightarrow>
          if mxRecords \<noteq> [] then Inr mxRecords else implicitMX env d domain)"

definition getFromCache ::
  "string \<Rightarrow> gotime \<Rightarrow> MXLookup \<Rightarrow> (MXRecord list \<times> goerror option) option \<times> MXLookup" where
  "getFromCache domain now m =
     (case map_of (mx_cache m) domain of
        None \<Rightarrow> (None, m)
      | Some entry \<Rightarrow>
          if expiresAt entry < now then (None, m\<lparr>mx_cache := AList.delete domain (mx_cache m)\<rparr>)
          else (Some (entry_records entry, entry_err entry), m))"

definition storeInCache ::
  "string \<Rightarrow> MXRecord list \<Rightarrow> goerror option \<Rightarrow> duration \<Rightarrow> gotime \<Rightarrow> MXLookup \<Rightarrow> MXLookup" where
  "storeInCache domain records err ttl now m =
     m\<lparr>mx_cache := AList.update domain
          \<lparr>entry_records = records, entry_err = err, expiresAt = now + ttl\<rparr> (mx_cache m)\<rparr>"

text \<open>The function that the coalesced lookup runs.\<close>

definition lookupAndStore ::
  "mx_env \<Rightarrow> string \<Rightarrow> gotime \<Rightarrow> MXLookup \<Rightarrow> (goerror + MXRecord list) \<times> MXLookup" where
  "lookupAndStore env domain now m =
     (case lookupDNS env (dnsResolver m) domain of
        Inl err \<Rightarrow>
          if errors_is err ErrNoMXRecords
          then (Inl err, storeInCache domain [] None (negativeTTL m) now m)
          else (Inl err, storeInCache domain [] (Some err) (negativeTTL m) now m)
      | Inr records0 \<Rightarrow>
          let records = sortSlice env records0
          in (Inr records, storeInCache domain records None (cacheTTL m) now m))"

text \<open>
  \<open>Lookup\<close> of a single caller. \<open>ctxErr\<close> is the state of its context at the start, \<open>ctxDone\<close> its error if
  it is done before the answer arrives; the lookup itself then still completes and fills the cache.
  \<open>tGet\<close> and \<open>tStore\<close> are the readings of the clock.
\<close>

definition Lookup ::
  "mx_env \<Rightarrow> goerror option \<Rightarrow> goerror option \<Rightarrow> string \<Rightarrow> gotime \<Rightarrow> gotime \<Rightarrow> MXLookup
     \<Rightarrow> (goerror + MXRecord list) \<times> MXLookup" where
  "Lookup env ctxErr ctxDone domain tGet tStore m =
     (case ctxErr of
        Some e \<Rightarrow> (Inl e, m)
      | None \<Rightarrow>
          (case getFromCache domain tGet m of
             (Some (cached, Some cachedErr), m1) \<Rightarrow> (Inl cachedErr, m1)
           | (Some (cached, None), m1) \<Rightarrow> (Inr cached, m1)
           | (None, m1) \<Rightarrow>
               (case lookupAndStore env domain tStore m1 of
                  (r, m2) \<Rightarrow> (case ctxDone of Some e \<Rightarrow> (Inl e, m2) | None \<Rightarrow> (r, m2)))))"

definition InvalidateCache :: "string \<Rightarrow> MXLookup \<Rightarrow> MXLookup" where
  "InvalidateCache domain m = m\<lparr>mx_cache := AList.delete domain (mx_cache m)\<rparr>"

definition MX_ReloadConfig :: "DNSConfig \<Rightarrow> MXLookup \<Rightarrow> MXLookup" where
  "MX_ReloadConfig dnsCfg m = m
     \<lparr>cacheTTL := CacheTTLSeconds dnsCfg * Second, negativeTTL := CacheNegativeTTLSeconds dnsCfg * Second,
      dnsResolver := NewDNSResolver dnsCfg\<rparr>"

definition CleanupExpiredCache :: "gotime \<Rightarrow> MXLookup \<Rightarrow> nat \<times> MXLookup" where
  "CleanupExpiredCache now m =
     (length (filter (\<lambda>(k, e). expiresAt e < now) (mx_cache m)),
      m\<lparr>mx_cache := filter (\<lambda>(k, e). \<not> expiresAt e < now) (mx_cache m)\<rparr>)"

section \<open>The cache contract\<close>

text \<open>
  What the lookup relies on: a stored value is found until it expires and not after, storing and
  deleting touch one key, and removing what has expired is invisible to later readers.
\<close>

locale expiring_cache =
  fixes find_at :: "'c \<Rightarrow> gotime \<Rightarrow> 'k \<Rightarrow> 'v option"
    and store :: "'k \<Rightarrow> 'v \<Rightarrow> gotime \<Rightarrow> 'c \<Rightarrow> 'c"
    and drop_key :: "'k \<Rightarrow> 'c \<Rightarrow> 'c"
    and sweep :: "gotime \<Rightarrow> 'c \<Rightarrow> 'c"
    and valid :: "'c \<Rightarrow> bool"
  assumes find_store: "find_at (store k v exp c) now k' =
      (if k' = k then (if exp < now then None else Some v) else find_at c now k')"
    and find_drop: "find_at (drop_key k c) now k' = (if k' = k then None else find_at c now k')"
    and find_sweep: "valid c \<Longrightarrow> t \<le> now \<Longrightarrow> find_at (sweep t c) now k = find_at c now k"
    and valid_store: "valid c \<Longrightarrow> valid (store k v exp c)"
    and valid_drop: "valid c \<Longrightarrow> valid (drop_key k c)"
    and valid_sweep: "valid c \<Longrightarrow> valid (sweep t c)"
begin

lemma find_sweeps: "valid c \<Longrightarrow> \<forall>t\<in>set ts. t \<le> now \<Longrightarrow> find_at (foldl (\<lambda>c t. sweep t c) c ts) now k = find_at c now k"
  by (induction ts arbitrary: c) (simp_all add: find_sweep valid_sweep)

lemma store_store: "find_at (store k v' exp' (store k v exp c)) now k' = find_at (store k v' exp' c) now k'"
  by (simp add: find_store)

lemma store_survives_sweeps:
  assumes "valid c" and "\<forall>t\<in>set ts. t \<le> now" and "now \<le> exp"
  shows "find_at (foldl (\<lambda>c t. sweep t c) (store k v exp c) ts) now k = Some v"
  using find_sweeps [OF valid_store [OF assms(1)] assms(2)] assms(3) by (simp add: find_store)

end

section \<open>The cache keeps the contract\<close>

definition cached :: "MXLookup \<Rightarrow> gotime \<Rightarrow> string \<Rightarrow> (MXRecord list \<times> goerror option) option" where
  "cached m now domain = fst (getFromCache domain now m)"

definition storeUntil :: "string \<Rightarrow> MXRecord list \<times> goerror option \<Rightarrow> gotime \<Rightarrow> MXLookup \<Rightarrow> MXLookup" where
  "storeUntil domain v exp m = storeInCache domain (fst v) (snd v) exp 0 m"

definition cache_keys_distinct :: "MXLookup \<Rightarrow> bool" where
  "cache_keys_distinct m \<longleftrightarrow> distinct (map fst (mx_cache m))"

lemma cached_alt:
  "cached m now domain =
     (case map_of (mx_cache m) domain of
        None \<Rightarrow> None
      | Some e \<Rightarrow> if expiresAt e < now then None else Some (entry_records e, entry_err e))"
  by (simp add: cached_def getFromCache_def split: option.split)

interpretation mxc: expiring_cache cached storeUntil InvalidateCache "\<lambda>t m. snd (CleanupExpiredCache t m)" cache_keys_distinct
proof
  fix m :: MXLookup and t now exp :: gotime and k k' :: string and v :: "MXRecord list \<times> goerror option"
  show "cached (storeUntil k v exp m) now k' =
      (if k' = k then (if exp < now then None else Some v) else cached m now k')"
    by (simp add: cached_alt storeUntil_def storeInCache_def)
  show "cached (InvalidateCache k m) now k' = (if k' = k then None else cached m now k')"
    by (simp add: cached_alt InvalidateCache_def)
  show "cached (snd (CleanupExpiredCache t m)) now k = cached m now k" if "cache_keys_distinct m" "t \<le> now"
    using that by (auto simp: cached_alt CleanupExpiredCache_def cache_keys_distinct_def
        map_of_filter_distinct split: option.split)
  show "cache_keys_distinct (storeUntil k v exp m)" if "cache_keys_distinct m"
    using that by (simp add: cache_keys_distinct_def storeUntil_def storeInCache_def distinct_update)
  show "cache_keys_distinct (InvalidateCache k m)" if "cache_keys_distinct m"
    using that by (simp add: cache_keys_distinct_def InvalidateCache_def distinct_delete)
  show "cache_keys_distinct (snd (CleanupExpiredCache t m))" if "cache_keys_distinct m"
    using that by (simp add: cache_keys_distinct_def CleanupExpiredCache_def distinct_filter_keys)
qed

lemma storeInCache_until: "storeInCache domain rs err ttl now m = storeUntil domain (rs, err) (now + ttl) m"
  by (simp add: storeInCache_def storeUntil_def)

section \<open>Lemmas\<close>

text \<open>The DNS answers that the classification turns on.\<close>

definition mx_absent :: "mx_env \<Rightarrow> string \<Rightarrow> bool" where
  "mx_absent env domain = (case queryMX env domain of Inl e \<Rightarrow> isDNSNotFound e | Inr rs \<Rightarrow> rs = [])"

definition host_absent :: "mx_env \<Rightarrow> string \<Rightarrow> bool" where
  "host_absent env domain = (case queryHost env domain of Inl e \<Rightarrow> isDNSNotFound e | Inr as \<Rightarrow> as = [])"

text \<open>The sentinel is private to the package: no error of the resolver is or wraps it.\<close>

definition foreign_errors :: "mx_env \<Rightarrow> string \<Rightarrow> bool" where
  "foreign_errors env domain \<longleftrightarrow>
     (case queryMX env domain of Inl e \<Rightarrow> \<not> errors_is e ErrNoMXRecords | Inr _ \<Rightarrow> True)
     \<and> (case queryHost env domain of Inl e \<Rightarrow> \<not> errors_is e ErrNoMXRecords | Inr _ \<Rightarrow> True)"

lemma errors_is_wrapErr [simp]: "errors_is (wrapErr l e) s = errors_is e s"
  by (simp add: wrapErr_def)

lemma errors_as_dns_wrapErr [simp]: "errors_as_dns (wrapErr l e) = errors_as_dns e"
  by (simp add: wrapErr_def split: option.split)

lemma isDNSNotFound_wrap [simp]: "isDNSNotFound (wrapErr l e) = isDNSNotFound e"
  by (simp add: isDNSNotFound_def)

lemma isDNSNotFound_resolverError [simp]: "isDNSNotFound (resolverError d e) = isDNSNotFound e"
  using resolverError_as_dns [of d e] by (auto simp: isDNSNotFound_def split: option.splits)

lemma errors_is_resolverError: "\<not> errors_is e s \<Longrightarrow> \<not> errors_is (resolverError d e) s"
  by (simp add: resolverError_def split: option.split)

lemma errors_is_noMXFor [simp]: "errors_is (noMXFor domain) ErrNoMXRecords"
  by (simp add: noMXFor_def)

text \<open>The three outcomes of resolving a route.\<close>

lemma lookupDNS_Inr:
  "lookupDNS env d domain = Inr rs \<longleftrightarrow>
     queryMX env domain = Inr rs \<and> rs \<noteq> []
     \<or> mx_absent env domain \<and> (\<exists>as. queryHost env domain = Inr as \<and> as \<noteq> []) \<and> rs = [\<lparr>MXHost = domain, Priority = 0\<rparr>]"
  by (auto simp: lookupDNS_def implicitMX_def LookupMX_def LookupHost_def mx_absent_def split: sum.splits if_splits)

lemma lookupDNS_permanent:
  assumes "foreign_errors env domain"
  shows "(\<exists>e. lookupDNS env d domain = Inl e \<and> errors_is e ErrNoMXRecords) \<longleftrightarrow>
    mx_absent env domain \<and> host_absent env domain"
  using assms errors_is_resolverError
  by (auto simp: lookupDNS_def implicitMX_def LookupMX_def LookupHost_def mx_absent_def host_absent_def
      foreign_errors_def split: sum.splits if_splits)

lemma lookupAndStore_cached:
  "cached (snd (lookupAndStore env domain now m)) t domain =
     (case fst (lookupAndStore env domain now m) of
        Inl e \<Rightarrow> if now + negativeTTL m < t then None
                 else Some ([], if errors_is e ErrNoMXRecords then None else Some e)
      | Inr rs \<Rightarrow> if now + cacheTTL m < t then None else Some (rs, None))"
  by (auto simp: lookupAndStore_def Let_def storeInCache_until mxc.find_store split: sum.split)

lemma lookupAndStore_sorted:
  assumes "sorts env" and "fst (lookupAndStore env domain now m) = Inr rs"
  shows "sorted (map Priority rs)"
  using assms by (auto simp: sorts_def lookupAndStore_def Let_def split: sum.splits if_splits)

lemma Lookup_miss:
  "fst (getFromCache domain tGet m) = None \<Longrightarrow>
   Lookup env None None domain tGet tStore m = lookupAndStore env domain tStore (snd (getFromCache domain tGet m))"
  by (cases "getFromCache domain tGet m") (simp add: Lookup_def split: prod.split)

lemma Lookup_hit:
  "cached m tGet domain = Some (rs, e) \<Longrightarrow>
   fst (Lookup env None ctxDone domain tGet tStore m) = (case e of Some err \<Rightarrow> Inl err | None \<Rightarrow> Inr rs)"
  by (cases "getFromCache domain tGet m") (auto simp: Lookup_def cached_def split: option.split)

lemma getFromCache_ttl [simp]:
  "negativeTTL (snd (getFromCache domain t m)) = negativeTTL m" "cacheTTL (snd (getFromCache domain t m)) = cacheTTL m"
  by (simp_all add: getFromCache_def split: option.split)

section \<open>Properties\<close>




definition sample_env :: mx_env where
  "sample_env = \<lparr>queryMX = (\<lambda>_. Inl (ErrText ''server misbehaving'')), queryHost = (\<lambda>_. Inr []),
                 sortSlice = sort_key Priority\<rparr>"

definition sample_mx :: MXLookup where
  "sample_mx = NewMXLookup (setDNSDefaults (DNS zero_config))"

lemma sample_mx_ttl: "negativeTTL sample_mx = 60 * Second" "cacheTTL sample_mx = 3600 * Second"
  by (simp_all add: sample_mx_def NewMXLookup_def setDNSDefaults_def default_int_def zero_config_def)


section \<open>Coalescing\<close>

text \<open>
  \<open>singleflightGroup.do\<close> step by step. A call is a number. A caller enters with a key: if a call is
  registered under it, it waits for that call, else it registers a new one and runs the function.
  Finishing the function, taking the call out of the map, and a waiter waking up are steps of their
  own, in any order with the steps of other callers. The function is taken to return; in the code it is
  the DNS lookup, which has a timeout.
\<close>

datatype 'r caller =
    Idle
  | Executing string nat
  | Removing string nat
  | Waiting string nat
  | Returned 'r

record 'r sf_state =
  sf_m :: "string \<Rightarrow> nat option"
  sf_done :: "nat \<Rightarrow> 'r option"
  sf_next :: nat
  sf_callers :: "nat \<Rightarrow> 'r caller"

definition sf_init :: "'r sf_state" where
  "sf_init = \<lparr>sf_m = Map.empty, sf_done = Map.empty, sf_next = 0, sf_callers = (\<lambda>_. Idle)\<rparr>"

inductive sf_step :: "'r sf_state \<Rightarrow> 'r sf_state \<Rightarrow> bool" where
  join: "sf_callers s i = Idle \<Longrightarrow> sf_m s key = Some c \<Longrightarrow>
     sf_step s (s\<lparr>sf_callers := (sf_callers s)(i := Waiting key c)\<rparr>)"
| register: "sf_callers s i = Idle \<Longrightarrow> sf_m s key = None \<Longrightarrow>
     sf_step s (s\<lparr>sf_m := (sf_m s)(key := Some (sf_next s)), sf_next := Suc (sf_next s),
                  sf_callers := (sf_callers s)(i := Executing key (sf_next s))\<rparr>)"
| finish: "sf_callers s i = Executing key c \<Longrightarrow>
     sf_step s (s\<lparr>sf_done := (sf_done s)(c := Some r), sf_callers := (sf_callers s)(i := Removing key c)\<rparr>)"
| remove: "sf_callers s i = Removing key c \<Longrightarrow> sf_done s c = Some r \<Longrightarrow>
     sf_step s (s\<lparr>sf_m := (sf_m s)(key := None), sf_callers := (sf_callers s)(i := Returned r)\<rparr>)"
| wake: "sf_callers s i = Waiting key c \<Longrightarrow> sf_done s c = Some r \<Longrightarrow>
     sf_step s (s\<lparr>sf_callers := (sf_callers s)(i := Returned r)\<rparr>)"

inductive sf_reachable :: "'r sf_state \<Rightarrow> bool" where
  sf_start: "sf_reachable sf_init"
| sf_more: "sf_reachable s \<Longrightarrow> sf_step s s' \<Longrightarrow> sf_reachable s'"

text \<open>
  The invariant: the call of an executing or removing caller is the one registered under its key, and
  no two callers lead the same call; a call without a result has its executor; a waiter's call is
  finished or still registered; calls are numbered below the next number.
\<close>

definition leads :: "'r sf_state \<Rightarrow> nat \<Rightarrow> string \<Rightarrow> nat \<Rightarrow> bool" where
  "leads s i key c \<longleftrightarrow> sf_callers s i = Executing key c \<or> sf_callers s i = Removing key c"

definition sf_inv :: "'r sf_state \<Rightarrow> bool" where
  "sf_inv s \<longleftrightarrow>
     (\<forall>i key c. leads s i key c \<longrightarrow> sf_m s key = Some c)
     \<and> (\<forall>i j key key' c. leads s i key c \<longrightarrow> leads s j key' c \<longrightarrow> i = j)
     \<and> (\<forall>i key c. sf_callers s i = Removing key c \<longrightarrow> sf_done s c \<noteq> None)
     \<and> (\<forall>key c. sf_m s key = Some c \<longrightarrow> c < sf_next s \<and> (sf_done s c \<noteq> None \<or> (\<exists>i. sf_callers s i = Executing key c)))
     \<and> (\<forall>i key c. sf_callers s i = Waiting key c \<longrightarrow> sf_done s c \<noteq> None \<or> sf_m s key = Some c)"

lemma sf_invD:
  assumes "sf_inv s"
  shows lead_registered: "leads s i key c \<Longrightarrow> sf_m s key = Some c"
    and lead_unique: "leads s i key c \<Longrightarrow> leads s j key' c \<Longrightarrow> i = j"
    and removing_done: "sf_callers s i = Removing key c \<Longrightarrow> sf_done s c \<noteq> None"
    and registered_live: "sf_m s key = Some c \<Longrightarrow>
      c < sf_next s \<and> (sf_done s c \<noteq> None \<or> (\<exists>i. sf_callers s i = Executing key c))"
    and waiting_live: "sf_callers s i = Waiting key c \<Longrightarrow> sf_done s c \<noteq> None \<or> sf_m s key = Some c"
  using assms unfolding sf_inv_def by blast+

lemma leads_upd:
  "leads (s\<lparr>sf_callers := (sf_callers s)(i := x)\<rparr>) j key c \<longleftrightarrow>
     (if j = i then x = Executing key c \<or> x = Removing key c else leads s j key c)"
  by (simp add: leads_def)

lemma leads_more [simp]:
  "leads (s\<lparr>sf_m := m\<rparr>) j key c = leads s j key c" "leads (s\<lparr>sf_done := d\<rparr>) j key c = leads s j key c"
  "leads (s\<lparr>sf_next := n\<rparr>) j key c = leads s j key c"
  by (simp_all add: leads_def)

lemma sf_invI:
  assumes "\<And>i key c. leads s i key c \<Longrightarrow> sf_m s key = Some c"
    and "\<And>i j key key' c. leads s i key c \<Longrightarrow> leads s j key' c \<Longrightarrow> i = j"
    and "\<And>i key c. sf_callers s i = Removing key c \<Longrightarrow> sf_done s c \<noteq> None"
    and "\<And>key c. sf_m s key = Some c \<Longrightarrow> c < sf_next s"
    and "\<And>key c. sf_m s key = Some c \<Longrightarrow> sf_done s c = None \<Longrightarrow> \<exists>i. sf_callers s i = Executing key c"
    and "\<And>i key c. sf_callers s i = Waiting key c \<Longrightarrow> sf_done s c = None \<Longrightarrow> sf_m s key = Some c"
  shows "sf_inv s"
  unfolding sf_inv_def using assms by blast

text \<open>A caller that does not execute can change its state without losing an executor.\<close>

lemma keep_executor:
  assumes "sf_inv s" and "sf_m s k = Some d" and "sf_done s d = None" and "\<And>k d. sf_callers s i \<noteq> Executing k d"
  shows "\<exists>j. ((sf_callers s)(i := x)) j = Executing k d"
proof -
  from registered_live [OF assms(1,2)] assms(3) obtain j where "sf_callers s j = Executing k d" by auto
  with assms(4) show ?thesis by (intro exI [of _ j]) auto
qed

lemma sf_follower_inv:
  assumes "sf_inv s" and "\<And>k d. sf_callers s i \<noteq> Executing k d"
    and x: "x = Returned r \<or> x = Waiting key c \<and> sf_m s key = Some c"
  shows "sf_inv (s\<lparr>sf_callers := (sf_callers s)(i := x)\<rparr>)"
proof (rule sf_invI, goal_cases)
  case (1 j k d)
  with x lead_registered [OF assms(1)] show ?case by (auto simp: leads_upd split: if_splits)
next
  case (2 j j' k k' d)
  with x lead_unique [OF assms(1)] show ?case by (auto simp: leads_upd split: if_splits)
next
  case (3 j k d)
  with x removing_done [OF assms(1)] show ?case by (auto split: if_splits)
next
  case (4 k d)
  with registered_live [OF assms(1)] show ?case by simp
next
  case (5 k d)
  then show ?case using keep_executor [OF assms(1) _ _ assms(2), of k d x] by simp
next
  case (6 j k d)
  with x waiting_live [OF assms(1), of j k d] show ?case by (auto split: if_splits)
qed

lemma sf_register_inv:
  assumes "sf_inv s" and "sf_callers s i = Idle" and "sf_m s key = None"
  shows "sf_inv (s\<lparr>sf_m := (sf_m s)(key := Some (sf_next s)), sf_next := Suc (sf_next s),
                   sf_callers := (sf_callers s)(i := Executing key (sf_next s))\<rparr>)"
proof (rule sf_invI, goal_cases)
  case (1 j k d)
  with assms(2,3) lead_registered [OF assms(1)] show ?case by (fastforce simp: leads_def split: if_splits)
next
  case (2 j j' k k' d)
  have "d < sf_next s" if "leads s l h d" for l h
    using that lead_registered [OF assms(1)] registered_live [OF assms(1)] by blast
  with 2 lead_unique [OF assms(1)] show ?case by (fastforce simp: leads_def split: if_splits)
next
  case (3 j k d)
  with removing_done [OF assms(1)] show ?case by (auto split: if_splits)
next
  case (4 k d)
  with registered_live [OF assms(1)] show ?case by (fastforce split: if_splits)
next
  case (5 k d)
  show ?case
  proof (cases "k = key")
    case True
    with 5 show ?thesis by auto
  next
    case False
    with 5 keep_executor [OF assms(1), of k d i "Executing key (sf_next s)"] assms(2) show ?thesis by simp
  qed
next
  case (6 j k d)
  with waiting_live [OF assms(1)] assms(3) show ?case by (fastforce split: if_splits)
qed

lemma sf_finish_inv:
  assumes "sf_inv s" and "sf_callers s i = Executing key c"
  shows "sf_inv (s\<lparr>sf_done := (sf_done s)(c := Some r), sf_callers := (sf_callers s)(i := Removing key c)\<rparr>)"
proof (rule sf_invI, goal_cases)
  case (1 j k d)
  with assms lead_registered [OF assms(1)] show ?case by (fastforce simp: leads_def split: if_splits)
next
  case (2 j j' k k' d)
  have same: "leads (s\<lparr>sf_done := (sf_done s)(c := Some r), sf_callers := (sf_callers s)(i := Removing key c)\<rparr>) l h d
      \<Longrightarrow> leads s l h d" for l h
    using assms(2) by (auto simp: leads_def split: if_splits)
  from 2 same lead_unique [OF assms(1)] show ?case by blast
next
  case (3 j k d)
  with removing_done [OF assms(1)] show ?case by (auto split: if_splits)
next
  case (4 k d)
  with registered_live [OF assms(1)] show ?case by simp
next
  case (5 k d)
  then have "d \<noteq> c" "\<exists>j. sf_callers s j = Executing k d"
    using registered_live [OF assms(1), of k d] by (auto split: if_splits)
  then obtain j where "sf_callers s j = Executing k d" "j \<noteq> i" using assms(2) by force
  then show ?case by auto
next
  case (6 j k d)
  with waiting_live [OF assms(1)] show ?case by (fastforce split: if_splits)
qed

lemma sf_remove_inv:
  assumes "sf_inv s" and "sf_callers s i = Removing key c" and "sf_done s c = Some r"
  shows "sf_inv (s\<lparr>sf_m := (sf_m s)(key := None), sf_callers := (sf_callers s)(i := Returned r)\<rparr>)"
proof -
  have lead_i: "leads s i key c" using assms(2) by (simp add: leads_def)
  have reg: "sf_m s key = Some c" by (rule lead_registered [OF assms(1) lead_i])
  show ?thesis
  proof (rule sf_invI, goal_cases)
    case (1 j k d)
    then have lead: "leads s j k d" and "j \<noteq> i" by (auto simp: leads_def split: if_splits)
    have "k \<noteq> key"
      using lead_registered [OF assms(1) lead] lead_unique [OF assms(1) lead_i] lead reg \<open>j \<noteq> i\<close> by auto
    with lead_registered [OF assms(1) lead] show ?case by simp
  next
    case (2 j j' k k' d)
    with lead_unique [OF assms(1)] show ?case by (fastforce simp: leads_def split: if_splits)
  next
    case (3 j k d)
    with removing_done [OF assms(1)] show ?case by (auto split: if_splits)
  next
    case (4 k d)
    with registered_live [OF assms(1)] show ?case by (auto split: if_splits)
  next
    case (5 k d)
    then have "sf_m s k = Some d" "sf_done s d = None" by (auto split: if_splits)
    from keep_executor [OF assms(1) this, of i "Returned r"] assms(2) show ?case by simp
  next
    case (6 j k d)
    with waiting_live [OF assms(1)] assms(3) reg show ?case by (fastforce split: if_splits)
  qed
qed

lemma sf_step_inv: "sf_step s s' \<Longrightarrow> sf_inv s \<Longrightarrow> sf_inv s'"
  by (induction rule: sf_step.induct)
     (simp_all add: sf_follower_inv sf_register_inv sf_finish_inv sf_remove_inv)

lemma sf_reachable_inv: "sf_reachable s \<Longrightarrow> sf_inv s"
proof (induction rule: sf_reachable.induct)
  case sf_start
  show ?case by (rule sf_invI) (simp_all add: sf_init_def leads_def)
next
  case (sf_more s s')
  then show ?case by (simp add: sf_step_inv)
qed

text \<open>
  C20. Concurrent lookups of one domain are coalesced: in every reachable state at most one caller runs
  the DNS query for a key, and no caller waits in vain, since the call it waits for has its result or
  is being run by some caller.
\<close>

theorem singleflight_coalesces:
  assumes "sf_reachable s"
  shows "(\<forall>i j key c c'. sf_callers s i = Executing key c \<longrightarrow> sf_callers s j = Executing key c' \<longrightarrow> i = j)
    \<and> (\<forall>i key c. sf_callers s i = Waiting key c \<longrightarrow>
         sf_done s c \<noteq> None \<or> (\<exists>j. sf_callers s j = Executing key c))"
proof -
  note inv = sf_reachable_inv [OF assms]
  have "i = j" if ij: "sf_callers s i = Executing key c" "sf_callers s j = Executing key c'" for i j key c c'
  proof -
    from ij have leads: "leads s i key c" "leads s j key c'" by (auto simp: leads_def)
    have "c = c'" using lead_registered [OF inv leads(1)] lead_registered [OF inv leads(2)] by simp
    with leads lead_unique [OF inv] show ?thesis by blast
  qed
  moreover have "sf_done s c \<noteq> None \<or> (\<exists>j. sf_callers s j = Executing key c)"
    if "sf_callers s i = Waiting key c" for i key c
    using waiting_live [OF inv that] registered_live [OF inv] by blast
  ultimately show ?thesis by blast
qed

theorem singleflight_coalesces_witness:
  "\<exists>s :: nat sf_state. sf_reachable s \<and> sf_callers s 1 = Executing ''a.b'' 0 \<and> sf_callers s 2 = Waiting ''a.b'' 0
     \<and> (\<forall>i. sf_callers s i = Executing ''a.b'' 0 \<longrightarrow> i = 1)"
proof -
  define s1 :: "nat sf_state" where "s1 = sf_init
     \<lparr>sf_m := (sf_m (sf_init :: nat sf_state))(''a.b'' := Some 0), sf_next := Suc 0,
      sf_callers := (sf_callers (sf_init :: nat sf_state))(1 := Executing ''a.b'' 0)\<rparr>"
  define s2 where "s2 = s1\<lparr>sf_callers := (sf_callers s1)(2 := Waiting ''a.b'' 0)\<rparr>"
  have "sf_step sf_init s1"
    using sf_step.register [of "sf_init :: nat sf_state" 1 "''a.b''"] by (simp add: sf_init_def s1_def)
  moreover have "sf_step s1 s2" unfolding s2_def by (rule sf_step.join) (simp_all add: sf_init_def s1_def)
  ultimately have reach: "sf_reachable s2" using sf_reachable.intros by blast
  have "sf_callers s2 1 = Executing ''a.b'' 0" "sf_callers s2 2 = Waiting ''a.b'' 0"
    by (simp_all add: s1_def s2_def)
  with singleflight_coalesces [OF reach] reach show ?thesis by blast
qed

end
