(* ===== verification/Go_Crypto.thy ===== *)
theory Go_Crypto
  imports Go_Prelude
begin

text \<open>
  What strela uses of Go's \<^verbatim>\<open>crypto/sha1\<close>, \<^verbatim>\<open>crypto/hmac\<close> and \<^verbatim>\<open>encoding/base32\<close>: SHA-1
  (FIPS 180-4), HMAC (RFC 2104) over it, and base32 without padding, all on lists of bytes.
\<close>

unbundle bit_operations_syntax

section \<open>SHA-1\<close>

type_synonym bytes = "8 word list"

definition bytes_of :: "string \<Rightarrow> bytes" where
  "bytes_of s = map (\<lambda>c. word_of_nat (of_char c)) s"

definition word32_of :: "8 word \<Rightarrow> 8 word \<Rightarrow> 8 word \<Rightarrow> 8 word \<Rightarrow> 32 word" where
  "word32_of a b c d = push_bit 24 (ucast a) OR push_bit 16 (ucast b) OR push_bit 8 (ucast c) OR ucast d"

definition bytes_of_word32 :: "32 word \<Rightarrow> bytes" where
  "bytes_of_word32 w = [ucast (drop_bit 24 w), ucast (drop_bit 16 w), ucast (drop_bit 8 w), ucast w]"

fun words32 :: "bytes \<Rightarrow> 32 word list" where
  "words32 (a # b # c # d # bs) = word32_of a b c d # words32 bs"
| "words32 _ = []"

definition length_field :: "nat \<Rightarrow> bytes" where
  "length_field n = bytes_of_word32 (word_of_int (8 * int n div 2 ^ 32)) @ bytes_of_word32 (word_of_int (8 * int n))"

definition sha1_pad :: "bytes \<Rightarrow> bytes" where
  "sha1_pad m = m @ [0x80] @ replicate ((119 - length m mod 64) mod 64) 0 @ length_field (length m)"

text \<open>The message schedule, latest word first, extended \<open>n\<close> times.\<close>

primrec sha1_schedule :: "nat \<Rightarrow> 32 word list \<Rightarrow> 32 word list" where
  "sha1_schedule 0 ws = ws"
| "sha1_schedule (Suc n) ws =
     sha1_schedule n (word_rotl 1 (ws ! 2 XOR ws ! 7 XOR ws ! 13 XOR ws ! 15) # ws)"

type_synonym sha1_state = "32 word \<times> 32 word \<times> 32 word \<times> 32 word \<times> 32 word"

definition sha1_f :: "nat \<Rightarrow> 32 word \<Rightarrow> 32 word \<Rightarrow> 32 word \<Rightarrow> 32 word" where
  "sha1_f t b c d =
     (if t < 20 then (b AND c) OR (NOT b AND d)
      else if t < 40 then b XOR c XOR d
      else if t < 60 then (b AND c) OR (b AND d) OR (c AND d)
      else b XOR c XOR d)"

definition sha1_k :: "nat \<Rightarrow> 32 word" where
  "sha1_k t = (if t < 20 then 0x5A827999 else if t < 40 then 0x6ED9EBA1
               else if t < 60 then 0x8F1BBCDC else 0xCA62C1D6)"

fun sha1_rounds :: "nat \<Rightarrow> 32 word list \<Rightarrow> sha1_state \<Rightarrow> sha1_state" where
  "sha1_rounds t [] s = s"
| "sha1_rounds t (w # ws) (a, b, c, d, e) =
     sha1_rounds (Suc t) ws
       (word_rotl 5 a + sha1_f t b c d + e + sha1_k t + w, a, word_rotl 30 b, c, d)"

definition sha1_block :: "sha1_state \<Rightarrow> bytes \<Rightarrow> sha1_state" where
  "sha1_block h block =
     (case h of (h0, h1, h2, h3, h4) \<Rightarrow>
      case sha1_rounds 0 (rev (sha1_schedule 64 (rev (words32 block)))) h of (a, b, c, d, e) \<Rightarrow>
        (h0 + a, h1 + b, h2 + c, h3 + d, h4 + e))"

function sha1_blocks :: "sha1_state \<Rightarrow> bytes \<Rightarrow> sha1_state" where
  "sha1_blocks h bs = (if length bs < 64 then h else sha1_blocks (sha1_block h (take 64 bs)) (drop 64 bs))"
  by pat_completeness auto
termination
  by (relation "measure (\<lambda>(h, bs). length bs)") auto

declare sha1_blocks.simps [simp del]

definition sha1 :: "bytes \<Rightarrow> bytes" where
  "sha1 m =
     (case sha1_blocks (0x67452301, 0xEFCDAB89, 0x98BADCFE, 0x10325476, 0xC3D2E1F0) (sha1_pad m) of
        (a, b, c, d, e) \<Rightarrow> concat (map bytes_of_word32 [a, b, c, d, e]))"

lemma length_sha1: "length (sha1 m) = 20"
  by (simp add: sha1_def bytes_of_word32_def split: prod.split)

section \<open>HMAC\<close>

definition hmac_key :: "bytes \<Rightarrow> bytes" where
  "hmac_key key = (let k = (if length key > 64 then sha1 key else key) in k @ replicate (64 - length k) 0)"

definition hmac_sha1 :: "bytes \<Rightarrow> bytes \<Rightarrow> bytes" where
  "hmac_sha1 key m =
     (let k = hmac_key key
      in sha1 (map (\<lambda>b. b XOR 0x5C) k @ sha1 (map (\<lambda>b. b XOR 0x36) k @ m)))"

lemma length_hmac_sha1: "length (hmac_sha1 key m) = 20"
  by (simp add: hmac_sha1_def Let_def length_sha1)

section \<open>Base32\<close>

definition base32_alphabet :: string where
  "base32_alphabet = ''ABCDEFGHIJKLMNOPQRSTUVWXYZ234567''"

definition byte_bits :: "8 word \<Rightarrow> bool list" where
  "byte_bits b = map (bit b) [7, 6, 5, 4, 3, 2, 1, 0]"

definition bits_value :: "bool list \<Rightarrow> nat" where
  "bits_value bs = foldl (\<lambda>a b. 2 * a + of_bool b) 0 bs"

fun base32_chars :: "bool list \<Rightarrow> string" where
  "base32_chars (a # b # c # d # e # bs) =
     base32_alphabet ! bits_value [a, b, c, d, e] # base32_chars bs"
| "base32_chars [] = []"
| "base32_chars bs = [base32_alphabet ! bits_value (bs @ replicate (5 - length bs) False)]"

text \<open>\<open>StdEncoding.EncodeToString\<close>: the characters, padded with \<open>=\<close> to a multiple of 8.\<close>

definition base32_encode :: "bytes \<Rightarrow> string" where
  "base32_encode m =
     (let cs = base32_chars (concat (map byte_bits m))
      in cs @ replicate ((8 - length cs mod 8) mod 8) CHR ''='')"

lemma bits_value_bound: "bits_value bs < 2 ^ length bs"
  by (induction bs rule: rev_induct) (auto simp: bits_value_def)

lemma base32_nth: "n < 32 \<Longrightarrow> base32_alphabet ! n \<in> set base32_alphabet"
  by (rule nth_mem) (simp add: base32_alphabet_def)

lemma base32_chars_alphabet: "set (base32_chars bs) \<subseteq> set base32_alphabet"
proof -
  have five: "base32_alphabet ! bits_value bs \<in> set base32_alphabet" if "length bs = 5" for bs
    using bits_value_bound [of bs] that by (simp add: base32_nth)
  show ?thesis
    by (induction bs rule: base32_chars.induct) (auto intro!: five)
qed

end
