(* ===== verification/Sender_Rewriting.thy ===== *)
theory Sender_Rewriting
  imports Rotation Go_Crypto
begin

text \<open>
  The sender rewriting scheme, \<^verbatim>\<open>internal/srs/srs.go\<close>: construction, domain selection, rewriting to
  SRS0 and SRS1 addresses and their reversal with hash and timestamp validation. The clock is an
  argument: \<open>unix\<close> is the number of seconds since the epoch.
\<close>

section \<open>Model\<close>

record SRS =
  srs_domains :: "string list"
  selection :: string
  srs_counter :: "64 word"
  secret :: string
  maxAge :: int
  hashLength :: int
  separator :: string
  skipDomains :: "string list"
  skipIfDKIMPass :: bool
  skipIfSameDomain :: bool
  useDynamicSubdomain :: bool

text \<open>\<open>%q\<close> of a string without characters that need an escape.\<close>

definition quoted :: "string \<Rightarrow> string" where
  "quoted s = CHR 0x22 # s @ [CHR 0x22]"

fun emptyIndex :: "nat \<Rightarrow> string list \<Rightarrow> nat option" where
  "emptyIndex i [] = None"
| "emptyIndex i (d # ds) = (if d = [] then Some i else emptyIndex (Suc i) ds)"

definition NewSRS ::
  "string list \<Rightarrow> string \<Rightarrow> string \<Rightarrow> int \<Rightarrow> int \<Rightarrow> string \<Rightarrow> string list \<Rightarrow> bool \<Rightarrow> bool \<Rightarrow> bool \<Rightarrow> goerror + SRS" where
  "NewSRS domains sel sec age hashLen sep skips dkimSkip sameSkip dyn =
     (if domains = [] then Inl (ErrText ''SRS domains list cannot be empty'')
      else case emptyIndex 0 domains of
        Some i \<Rightarrow> Inl (ErrText (''SRS domain at index '' @ Itoa (int i) @ '' is empty''))
      | None \<Rightarrow>
        if sec = [] then Inl (ErrText ''SRS secret cannot be empty'')
        else if length sec < 16
        then Inl (ErrText (''SRS secret must be at least 16 characters (got '' @ Itoa (int (length sec)) @ '')''))
        else if hashLen < 2 \<or> hashLen > 8
        then Inl (ErrText (''SRS hash length must be between 2 and 8 (got '' @ Itoa hashLen @ '')''))
        else let sel' = (if sel = [] then ''round-robin'' else sel) in
        if sel' \<noteq> ''round-robin'' \<and> sel' \<noteq> ''hash-sender''
        then Inl (ErrText (''SRS selection must be 'round-robin' or 'hash-sender' (got '' @ quoted sel' @ '')''))
        else Inr \<lparr>srs_domains = map ToLower domains, selection = sel', srs_counter = 0, secret = sec,
                  maxAge = (if age \<le> 0 then 21 else age), hashLength = hashLen,
                  separator = (if sep = [] then ''='' else sep), skipDomains = map ToLower skips,
                  skipIfDKIMPass = dkimSkip, skipIfSameDomain = sameSkip, useDynamicSubdomain = dyn\<rparr>)"

definition buildSRSDomain :: "SRS \<Rightarrow> string \<Rightarrow> string \<Rightarrow> string" where
  "buildSRSDomain s baseDomain senderDomain =
     (if \<not> useDynamicSubdomain s \<or> senderDomain = [] then baseDomain
      else ReplaceAll (ToLower senderDomain) ''.'' ''-'' @ ''.'' @ baseDomain)"

text \<open>The text after the last \<open>@\<close> in lower case, empty if there is none.\<close>

definition domainAfterAt :: "string \<Rightarrow> string" where
  "domainAfterAt a = (case LastIndexByte a CHR ''@'' of Some i \<Rightarrow> ToLower (drop (Suc i) a) | None \<Rightarrow> [])"

definition ShouldSkip :: "SRS \<Rightarrow> string \<Rightarrow> string \<Rightarrow> string \<Rightarrow> bool \<times> string" where
  "ShouldSkip s from to dkimResult =
     (if domainAfterAt to \<in> set (skipDomains s) then (True, ''skip_domains'')
      else if skipIfDKIMPass s \<and> EqualFold dkimResult ''pass'' then (True, ''dkim_pass'')
      else if skipIfSameDomain s \<and> domainAfterAt from \<noteq> [] \<and> domainAfterAt from = domainAfterAt to
      then (True, ''same_domain'')
      else (False, []))"

text \<open>The round-robin case of \<open>selectDomain\<close>: the index and the incremented counter.\<close>

definition srsNext :: "64 word \<Rightarrow> nat \<Rightarrow> nat \<times> 64 word" where
  "srsNext counter n = (let c = counter + 1; idx = c - 1 in (unat (idx mod of_nat n), c))"

definition selectDomain :: "SRS \<Rightarrow> string \<Rightarrow> string \<times> SRS" where
  "selectDomain s originalSender =
     (let n = length (srs_domains s) in
      if n = 1 then (srs_domains s ! 0, s)
      else if selection s = ''round-robin'' then
        (let (idx, c) = srsNext (srs_counter s) n in (srs_domains s ! idx, s\<lparr>srs_counter := c\<rparr>))
      else if selection s = ''hash-sender'' then
        (srs_domains s ! unat (fnv64a (ToLower originalSender) mod of_nat n), s)
      else (srs_domains s ! 0, s))"

definition parseEmail :: "string \<Rightarrow> goerror + (string \<times> string)" where
  "parseEmail email0 =
     (let email = Trim (TrimSpace email0) ''<>''; atCount = CountByte email CHR ''@'' in
      if atCount = 0 then Inl (ErrText ''missing @ symbol'')
      else if atCount > 1 then Inl (ErrText ''multiple @ symbols found'')
      else case IndexByte email CHR ''@'' of
        None \<Rightarrow> Inl (ErrText ''missing @ symbol'')
      | Some atIndex \<Rightarrow>
          if atIndex = 0 then Inl (ErrText ''empty local part'')
          else if atIndex = length email - 1 then Inl (ErrText ''empty domain'')
          else Inr (take atIndex email, ToLower (drop (Suc atIndex) email)))"

definition generateHash :: "SRS \<Rightarrow> string list \<Rightarrow> string" where
  "generateHash s parts =
     (let sum = hmac_sha1 (bytes_of (secret s)) (bytes_of (Join parts (separator s)));
          encoded = ToUpper (TrimRight (base32_encode sum) ''='')
      in if int (length encoded) > hashLength s then take (nat (hashLength s)) encoded else encoded)"

definition timeCode :: "nat \<Rightarrow> nat" where
  "timeCode unix = (unix div 86400) mod 1024"

definition generateTimestamp :: "nat \<Rightarrow> string" where
  "generateTimestamp unix =
     (let c = timeCode unix in [base32_alphabet ! (c div 32 mod 32), base32_alphabet ! (c mod 32)])"

definition validateTimestamp :: "SRS \<Rightarrow> nat \<Rightarrow> string \<Rightarrow> goerror option" where
  "validateTimestamp s unix timestamp =
     (if length timestamp \<noteq> 2
      then Some (ErrText (''timestamp must be exactly 2 characters, got '' @ Itoa (int (length timestamp))))
      else let up = ToUpper timestamp in
      case (IndexByte base32_alphabet (up ! 0), IndexByte base32_alphabet (up ! 1)) of
        (Some idx1, Some idx2) \<Rightarrow>
          let addressTimeCode = idx1 * 32 + idx2;
              currentTimeCode = timeCode unix;
              ageDays = (if currentTimeCode \<ge> addressTimeCode then currentTimeCode - addressTimeCode
                         else (1024 - addressTimeCode) + currentTimeCode)
          in if int ageDays > maxAge s
             then Some (ErrText (''timestamp expired: ~'' @ Itoa (int ageDays) @ '' days old (max: ''
                    @ Itoa (maxAge s) @ '')''))
             else None
      | _ \<Rightarrow> Some (ErrText (''invalid timestamp characters: '' @ timestamp)))"

definition forwardSRS0 :: "SRS \<Rightarrow> nat \<Rightarrow> string \<Rightarrow> string \<Rightarrow> string \<Rightarrow> string \<times> SRS" where
  "forwardSRS0 s unix localpart domain originalSender =
     (let (base, s') = selectDomain s originalSender;
          srsDomain = buildSRSDomain s base domain;
          timestamp = generateTimestamp unix;
          hash = generateHash s [timestamp, domain, localpart];
          sep = separator s
      in (''SRS0'' @ sep @ hash @ sep @ timestamp @ sep @ domain @ sep @ localpart @ ''@'' @ srsDomain, s'))"

definition forwardSRS1 :: "SRS \<Rightarrow> string \<Rightarrow> string \<Rightarrow> goerror + string" where
  "forwardSRS1 s srs0Localpart srs0Domain =
     (let parts = Split srs0Localpart (separator s) in
      if length parts < 2 then Inl (ErrText ''invalid SRS0 format'')
      else let hash = generateHash s [srs0Domain, srs0Localpart, []];
               sep = separator s
           in Inr (''SRS1'' @ sep @ hash @ sep @ srs0Domain @ sep @ srs0Localpart @ ''@'' @ srs_domains s ! 0))"

definition Forward :: "SRS \<Rightarrow> nat \<Rightarrow> string \<Rightarrow> (goerror + string) \<times> SRS" where
  "Forward s unix sender =
     (if sender = [] then (Inl (ErrText ''sender address cannot be empty''), s)
      else case parseEmail sender of
        Inl err \<Rightarrow> (Inl (wrapErr ''invalid sender address: '' err), s)
      | Inr (localpart, domain) \<Rightarrow>
          if HasPrefix (ToUpper localpart) (''SRS0'' @ separator s)
          then (forwardSRS1 s localpart domain, s)
          else if HasPrefix (ToUpper localpart) (''SRS1'' @ separator s) then (Inr sender, s)
          else (case forwardSRS0 s unix localpart domain sender of (a, s') \<Rightarrow> (Inr a, s')))"

definition reverseSRS0 :: "SRS \<Rightarrow> nat \<Rightarrow> string \<Rightarrow> goerror + string" where
  "reverseSRS0 s unix localpart =
     (case SplitN localpart (separator s) 5 of
        [srsType, hash, timestamp, domain, origLocalpart] \<Rightarrow>
          if ToUpper srsType \<noteq> ''SRS0'' then Inl (ErrText (''expected SRS0, got '' @ srsType))
          else (case validateTimestamp s unix timestamp of
                  Some err \<Rightarrow> Inl (wrapErr ''timestamp validation failed: '' err)
                | None \<Rightarrow>
                    if hash \<noteq> generateHash s [timestamp, domain, origLocalpart]
                    then Inl (ErrText ''hash validation failed: signature mismatch'')
                    else Inr (origLocalpart @ ''@'' @ domain))
      | parts \<Rightarrow> Inl (ErrText (''invalid SRS0 format: expected 5 parts, got '' @ Itoa (int (length parts)))))"

text \<open>\<open>reverseSRS1\<close> up to its final call of \<open>Reverse\<close>: the address that call is made with.\<close>

definition openSRS1 :: "SRS \<Rightarrow> string \<Rightarrow> goerror + string" where
  "openSRS1 s localpart =
     (case SplitN localpart (separator s) 4 of
        [srsType, hash, domain, srs0Localpart] \<Rightarrow>
          if ToUpper srsType \<noteq> ''SRS1'' then Inl (ErrText (''expected SRS1, got '' @ srsType))
          else if hash \<noteq> generateHash s [domain, srs0Localpart, []]
          then Inl (ErrText ''hash validation failed: signature mismatch'')
          else Inr (srs0Localpart @ ''@'' @ domain)
      | parts \<Rightarrow> Inl (ErrText (''invalid SRS1 format: expected 4 parts, got '' @ Itoa (int (length parts)))))"

lemma length_concat_SplitN: "length (concat (SplitN s sep n)) \<le> length s"
proof (induction s sep n rule: SplitN.induct)
  case (1 s sep)
  show ?case by simp
next
  case (2 s sep)
  show ?case by simp
next
  case (3 s sep n)
  show ?case
  proof (cases "Index s sep")
    case None
    then show ?thesis by simp
  next
    case (Some i)
    with 3 Index_bound [OF Some] show ?thesis by (auto simp: min_def)
  qed
qed

lemma openSRS1_shorter: "openSRS1 s lp = Inr a \<Longrightarrow> length a < length lp"
proof -
  assume ok: "openSRS1 s lp = Inr a"
  then obtain ty hash dm rest
    where split: "SplitN lp (separator s) 4 = [ty, hash, dm, rest]"
      and ty: "ToUpper ty = ''SRS1''" and a: "a = rest @ ''@'' @ dm"
    by (auto simp: openSRS1_def split: list.splits if_splits)
  have "length ty = 4" using arg_cong [OF ty, of length] by simp
  moreover have "length ty + length hash + length dm + length rest \<le> length lp"
    using length_concat_SplitN [of lp "separator s" 4] split by simp
  ultimately show ?thesis by (simp add: a)
qed

lemma length_trim:
  "length (Trim s cs) \<le> length s" "length (TrimSpace s) \<le> length s"
proof -
  have left: "length (trim_left_by P t) \<le> length t" for P t
    by (simp add: trim_left_by_def length_dropWhile_le)
  have right: "length (trim_right_by P t) \<le> length t" for P t
    using length_dropWhile_le [of P "rev t"] by (simp add: trim_right_by_def)
  show "length (Trim s cs) \<le> length s" unfolding Trim_def by (rule order_trans [OF right left])
  show "length (TrimSpace s) \<le> length s" unfolding TrimSpace_def by (rule order_trans [OF right left])
qed

lemma parseEmail_shorter: "parseEmail a = Inr (lp, dm) \<Longrightarrow> length lp < length a"
proof -
  assume ok: "parseEmail a = Inr (lp, dm)"
  let ?e = "Trim (TrimSpace a) ''<>''"
  from ok obtain i where "IndexByte ?e CHR ''@'' = Some i" and "lp = take i ?e"
    by (auto simp: parseEmail_def Let_def split: if_splits option.splits)
  then have "length lp < length ?e" using IndexByte_Some by fastforce
  also have "\<dots> \<le> length a" using length_trim order_trans by blast
  finally show ?thesis .
qed

function Reverse :: "SRS \<Rightarrow> nat \<Rightarrow> string \<Rightarrow> goerror + string" where
  "Reverse s unix srsAddress =
     (if srsAddress = [] then Inl (ErrText ''SRS address cannot be empty'')
      else case parseEmail srsAddress of
        Inl err \<Rightarrow> Inl (wrapErr ''invalid SRS address: '' err)
      | Inr (localpart, _) \<Rightarrow>
          if HasPrefix (ToUpper localpart) (''SRS0'' @ separator s) then reverseSRS0 s unix localpart
          else if HasPrefix (ToUpper localpart) (''SRS1'' @ separator s)
          then (case openSRS1 s localpart of
                  Inl err \<Rightarrow> Inl err
                | Inr srs0Address \<Rightarrow> Reverse s unix srs0Address)
          else Inl (ErrText ''not an SRS address''))"
  by pat_completeness auto
termination
  by (relation "measure (\<lambda>(s, unix, a). length a)")
     (auto dest!: openSRS1_shorter parseEmail_shorter)

declare Reverse.simps [simp del]

definition IsSRS :: "SRS \<Rightarrow> string \<Rightarrow> bool" where
  "IsSRS s address =
     (case parseEmail address of
        Inl _ \<Rightarrow> False
      | Inr (localpart, _) \<Rightarrow>
          HasPrefix (ToUpper localpart) (''SRS0'' @ separator s)
          \<or> HasPrefix (ToUpper localpart) (''SRS1'' @ separator s))"

definition GetDomain :: "SRS \<Rightarrow> string" where
  "GetDomain s = (if srs_domains s \<noteq> [] then srs_domains s ! 0 else [])"

definition GetDomains :: "SRS \<Rightarrow> string list" where
  "GetDomains s = srs_domains s"

section \<open>Lemmas\<close>

lemma srsNext_bound: "0 < n \<Longrightarrow> n < 2 ^ 64 \<Longrightarrow> fst (srsNext c n) < n"
  by (simp add: srsNext_def Let_def unat_mod take_bit_nat_eq_self unsigned_of_nat)

lemma srsNext_index: "0 < n \<Longrightarrow> n < 2 ^ 64 \<Longrightarrow> fst (srsNext c n) = unat c mod n"
  by (simp add: srsNext_def Let_def unat_mod take_bit_nat_eq_self unsigned_of_nat)

lemma srsNext_pos: "Suc (unat c) < 2 ^ 64 \<Longrightarrow> unat (snd (srsNext c n)) = Suc (unat c)"
  by (simp add: srsNext_def Let_def unat_word_ariths)

interpretation srs_rr: round_robin srsNext unat "2 ^ 64"
  by unfold_locales (simp_all add: srsNext_bound srsNext_index srsNext_pos)

text \<open>What construction guarantees, and what every rewriting keeps.\<close>

definition srs_ok :: "SRS \<Rightarrow> bool" where
  "srs_ok s \<longleftrightarrow> srs_domains s \<noteq> [] \<and> list_all (\<lambda>d. d \<noteq> [] \<and> ToLower d = d) (srs_domains s)
     \<and> length (secret s) \<ge> 16 \<and> maxAge s > 0 \<and> 2 \<le> hashLength s \<and> hashLength s \<le> 8
     \<and> separator s \<noteq> [] \<and> selection s \<in> set [''round-robin'', ''hash-sender'']"

lemma emptyIndex_None: "emptyIndex i ds = None \<longleftrightarrow> [] \<notin> set ds"
  by (induction ds arbitrary: i) auto

lemma NewSRS_ok: "NewSRS ds sel sec age hl sep sk a b c = Inr s \<Longrightarrow> srs_ok s"
  by (auto simp: NewSRS_def srs_ok_def Let_def list_all_iff emptyIndex_None split: if_splits option.splits)

lemma selectDomain_ok: "srs_ok s \<Longrightarrow> srs_ok (snd (selectDomain s a))"
  by (auto simp: selectDomain_def srs_ok_def Let_def case_prod_beta)

lemma selectDomain_mem:
  assumes "srs_ok s" and "length (srs_domains s) < 2 ^ 64"
  shows "fst (selectDomain s a) \<in> set (srs_domains s)"
proof -
  have pos: "0 < length (srs_domains s)" using assms(1) by (simp add: srs_ok_def)
  have "unat (fnv64a b mod of_nat (length (srs_domains s))) < length (srs_domains s)" for b
    using pos assms(2) by (simp add: unat_mod take_bit_nat_eq_self unsigned_of_nat)
  with pos assms(2) srsNext_bound [OF pos assms(2)] show ?thesis
    by (auto simp: selectDomain_def Let_def case_prod_beta)
qed

text \<open>Separators that cannot be mistaken for a character of the encoded fields.\<close>

definition sep_ok :: "string \<Rightarrow> bool" where
  "sep_ok sep \<longleftrightarrow> sep \<noteq> [] \<and> CHR ''@'' \<notin> set sep \<and> hd sep \<notin> set (base32_alphabet @ ''01'')
     \<and> ToUpper sep = sep"

definition trim_safe :: "char \<Rightarrow> bool" where
  "trim_safe c \<longleftrightarrow> \<not> is_space c \<and> c \<notin> set ''<>''"

lemma trims_id:
  assumes "trim_safe (hd s)" and "trim_safe (last s)"
  shows "Trim (TrimSpace s) ''<>'' = s"
  using assms
  by (simp add: Trim_def TrimSpace_def trim_left_by_id trim_right_by_id trim_safe_def)

lemma parseEmail_plain:
  assumes "L \<noteq> []" and "D \<noteq> []" and "CHR ''@'' \<notin> set L" and "CHR ''@'' \<notin> set D"
    and "trim_safe (hd L)" and "trim_safe (last D)"
  shows "parseEmail (L @ ''@'' @ D) = Inr (L, ToLower D)"
proof -
  have id: "Trim (TrimSpace (L @ CHR ''@'' # D)) ''<>'' = L @ CHR ''@'' # D"
    using assms by (intro trims_id) (simp_all add: hd_append)
  have "IndexByte (L @ CHR ''@'' # D) CHR ''@'' = Some (length L)"
    using assms(3) by (rule IndexByte_append)
  moreover have "CountByte L CHR ''@'' = 0" "CountByte D CHR ''@'' = 0"
    using assms(3,4) by (simp_all add: CountByte_zero_iff)
  ultimately show ?thesis
    using assms(1,2) by (simp add: parseEmail_def id Let_def)
qed

lemma parseEmail_Inr:
  assumes "parseEmail a = Inr (lp, dm)"
  shows "lp \<noteq> []" and "dm \<noteq> []" and "CHR ''@'' \<notin> set lp"
proof -
  let ?e = "Trim (TrimSpace a) ''<>''"
  from assms obtain i where i: "IndexByte ?e CHR ''@'' = Some i" and "i \<noteq> 0" and "i \<noteq> length ?e - 1"
    and lp: "lp = take i ?e" and dm: "dm = ToLower (drop (Suc i) ?e)"
    by (auto simp: parseEmail_def Let_def split: if_splits option.splits)
  from IndexByte_Some [OF i] have "i < length ?e" "CHR ''@'' \<notin> set (take i ?e)" by auto
  with \<open>i \<noteq> 0\<close> \<open>i \<noteq> length ?e - 1\<close> lp dm show "lp \<noteq> []" "dm \<noteq> []" "CHR ''@'' \<notin> set lp" by auto
qed

lemma base32_upper: "c \<in> set base32_alphabet \<Longrightarrow> upper_char c = c"
proof -
  have "\<forall>c\<in>set base32_alphabet. upper_char c = c" by code_simp
  then show "c \<in> set base32_alphabet \<Longrightarrow> upper_char c = c" by blast
qed

lemma ToUpper_base32: "set s \<subseteq> set base32_alphabet \<Longrightarrow> ToUpper s = s"
  by (auto simp: ToUpper_def base32_upper intro!: map_idI)

lemma TrimRight_padding:
  assumes "c \<notin> set s"
  shows "TrimRight (s @ replicate k c) [c] = s"
proof -
  have "dropWhile (\<lambda>x. x = c) (replicate k c @ rev s) = dropWhile (\<lambda>x. x = c) (rev s)"
    by (induction k) auto
  moreover have "dropWhile (\<lambda>x. x = c) (rev s) = rev s"
    using assms by (cases "rev s") (auto dest: arg_cong [of _ _ set])
  ultimately show ?thesis by (simp add: TrimRight_def trim_right_by_def)
qed

lemma generateHash_alphabet: "set (generateHash s parts) \<subseteq> set base32_alphabet"
proof -
  let ?m = "hmac_sha1 (bytes_of (secret s)) (bytes_of (Join parts (separator s)))"
  let ?cs = "base32_chars (concat (map byte_bits ?m))"
  have "CHR ''='' \<notin> set base32_alphabet" by code_simp
  then have "TrimRight (base32_encode ?m) ''='' = ?cs"
    using base32_chars_alphabet by (subst base32_encode_def) (auto simp: Let_def intro!: TrimRight_padding)
  then have "generateHash s parts \<in> {take (nat (hashLength s)) ?cs, ?cs}"
    using base32_chars_alphabet by (simp add: generateHash_def Let_def ToUpper_base32)
  with base32_chars_alphabet show ?thesis
    by (metis (no_types, lifting) insertE order_trans set_take_subset singletonD)
qed

lemma generateTimestamp_alphabet: "set (generateTimestamp unix) \<subseteq> set base32_alphabet"
  by (simp add: generateTimestamp_def Let_def base32_nth)

lemma IndexByte_nth: "distinct s \<Longrightarrow> i < length s \<Longrightarrow> IndexByte s (s ! i) = Some i"
proof (induction s arbitrary: i)
  case Nil
  then show ?case by simp
next
  case (Cons c s)
  then show ?case by (cases i) auto
qed

lemma base32_index: "i < 32 \<Longrightarrow> IndexByte base32_alphabet (base32_alphabet ! i) = Some i"
proof -
  assume "i < 32"
  have "distinct base32_alphabet" "length base32_alphabet = 32" by code_simp+
  with \<open>i < 32\<close> show ?thesis by (simp add: IndexByte_nth)
qed

lemma age_mod:
  fixes d0 d1 :: nat
  assumes "d0 \<le> d1"
  shows "(if d0 mod 1024 \<le> d1 mod 1024 then d1 mod 1024 - d0 mod 1024
          else 1024 - d0 mod 1024 + d1 mod 1024) = (d1 - d0) mod 1024"
proof -
  let ?a = "int d0 mod 1024" and ?b = "int d1 mod 1024"
  have "int ((d1 - d0) mod 1024) = (?b - ?a) mod 1024"
    using assms by (simp add: zmod_int mod_diff_eq)
  also have "\<dots> = (if ?a \<le> ?b then ?b - ?a else 1024 - ?a + ?b)"
  proof (cases "?a \<le> ?b")
    case True
    then show ?thesis by (simp add: mod_pos_pos_trivial)
  next
    case False
    have shift: "1024 - ?a + ?b = (?b - ?a) + 1024" by simp
    have "(?b - ?a) mod 1024 = (1024 - ?a + ?b) mod 1024" by (simp only: shift mod_add_self2)
    also have "\<dots> = 1024 - ?a + ?b"
      using False pos_mod_bound [of 1024 "int d0"] pos_mod_sign [of 1024 "int d1"]
      by (intro mod_pos_pos_trivial) linarith+
    finally show ?thesis using False by simp
  qed
  finally have total: "int ((d1 - d0) mod 1024) = (if ?a \<le> ?b then ?b - ?a else 1024 - ?a + ?b)" .
  define x y where "x = d0 mod 1024" and "y = d1 mod 1024"
  have ints: "?a = int x" "?b = int y" by (simp_all add: x_def y_def zmod_int)
  have "x < 1024" by (simp add: x_def)
  then have "int (if x \<le> y then y - x else 1024 - x + y) = (if ?a \<le> ?b then ?b - ?a else 1024 - ?a + ?b)"
    unfolding ints by (simp add: of_nat_diff)
  with total show ?thesis unfolding x_def y_def by (simp only: of_nat_eq_iff)
qed

definition ageOf :: "nat \<Rightarrow> nat \<Rightarrow> nat" where
  "ageOf address current =
     (if current \<ge> address then current - address else (1024 - address) + current)"

lemma validateTimestamp_codes:
  assumes "i < 32" and "j < 32"
  shows "validateTimestamp s unix [base32_alphabet ! i, base32_alphabet ! j] = None
    \<longleftrightarrow> int (ageOf (i * 32 + j) (timeCode unix)) \<le> maxAge s"
proof -
  have "ToUpper [base32_alphabet ! i, base32_alphabet ! j] = [base32_alphabet ! i, base32_alphabet ! j]"
    using assms by (intro ToUpper_base32) (simp add: base32_nth)
  then show ?thesis
    by (simp only: validateTimestamp_def Let_def nth_Cons_0 nth_Cons_Suc One_nat_def list.size add_0
        base32_index assms prod.case option.case flip: ageOf_def) simp
qed

lemma generated_timestamp_valid:
  assumes "unix0 div 86400 \<le> unix1 div 86400"
  shows "validateTimestamp s unix1 (generateTimestamp unix0) = None
     \<longleftrightarrow> int ((unix1 div 86400 - unix0 div 86400) mod 1024) \<le> maxAge s"
proof -
  let ?c = "timeCode unix0"
  have code: "?c div 32 mod 32 * 32 + ?c mod 32 = ?c" by (simp add: timeCode_def)
  have age: "ageOf ?c (timeCode unix1) = (unix1 div 86400 - unix0 div 86400) mod 1024"
    unfolding ageOf_def timeCode_def by (rule age_mod [OF assms])
  have "?c div 32 mod 32 < 32" "?c mod 32 < 32" by simp_all
  from validateTimestamp_codes [OF this, of s unix1] show ?thesis
    unfolding generateTimestamp_def Let_def code age .
qed

text \<open>The local parts that the two rewritings build, taken apart again.\<close>

lemma sep_outside: "sep_ok sep \<Longrightarrow> set s \<subseteq> set base32_alphabet \<Longrightarrow> hd sep \<notin> set s"
  by (auto simp: sep_ok_def)

lemma sep_labels: "sep_ok sep \<Longrightarrow> hd sep \<notin> set ''SRS0''" "sep_ok sep \<Longrightarrow> hd sep \<notin> set ''SRS1''"
  by (auto simp: sep_ok_def base32_alphabet_def)

lemma split_srs0:
  assumes "sep_ok sep" and "set hash \<subseteq> set base32_alphabet" and "set ts \<subseteq> set base32_alphabet"
    and "hd sep \<notin> set dm"
  shows "SplitN (''SRS0'' @ sep @ hash @ sep @ ts @ sep @ dm @ sep @ lp) sep 5 = [''SRS0'', hash, ts, dm, lp]"
proof -
  have ne: "sep \<noteq> []" using assms(1) by (simp add: sep_ok_def)
  note out = sep_labels(1) [OF assms(1)] sep_outside [OF assms(1,2)] sep_outside [OF assms(1,3)]
  show ?thesis
    by (simp only: eval_nat_numeral SplitN_sep [OF ne out(1)] SplitN_sep [OF ne out(2)]
        SplitN_sep [OF ne out(3)] SplitN_sep [OF ne assms(4)] BitM.simps SplitN.simps(2))
qed

lemma split_srs1:
  assumes "sep_ok sep" and "set hash \<subseteq> set base32_alphabet" and "hd sep \<notin> set dm"
  shows "SplitN (''SRS1'' @ sep @ hash @ sep @ dm @ sep @ lp) sep 4 = [''SRS1'', hash, dm, lp]"
proof -
  have ne: "sep \<noteq> []" using assms(1) by (simp add: sep_ok_def)
  note out = sep_labels(2) [OF assms(1)] sep_outside [OF assms(1,2)]
  show ?thesis
    by (simp only: eval_nat_numeral SplitN_sep [OF ne out(1)] SplitN_sep [OF ne out(2)]
        SplitN_sep [OF ne assms(3)] BitM.simps SplitN.simps(2))
qed

lemma reverse_generated_srs0:
  assumes "sep_ok (separator s)" and "hd (separator s) \<notin> set dm" and "ts = generateTimestamp unix0"
    and "validateTimestamp s unix1 ts = None"
  shows "reverseSRS0 s unix1 (''SRS0'' @ separator s @ generateHash s [ts, dm, lp] @ separator s @ ts
           @ separator s @ dm @ separator s @ lp) = Inr (lp @ ''@'' @ dm)"
proof -
  have "ToUpper ''SRS0'' = ''SRS0''" by code_simp
  moreover have "SplitN (''SRS0'' @ separator s @ generateHash s [ts, dm, lp] @ separator s @ ts
      @ separator s @ dm @ separator s @ lp) (separator s) 5 = [''SRS0'', generateHash s [ts, dm, lp], ts, dm, lp]"
    using assms generateHash_alphabet generateTimestamp_alphabet by (intro split_srs0) auto
  ultimately show ?thesis using assms(4) unfolding reverseSRS0_def by simp
qed

lemma at_outside: "set t \<subseteq> set base32_alphabet \<Longrightarrow> CHR ''@'' \<notin> set t"
proof -
  have "CHR ''@'' \<notin> set base32_alphabet" by code_simp
  then show "set t \<subseteq> set base32_alphabet \<Longrightarrow> CHR ''@'' \<notin> set t" by blast
qed

lemma lower_char_at: "lower_char c = CHR ''@'' \<longleftrightarrow> c = CHR ''@''"
proof -
  have "(of_char (lower_char c) :: nat) = of_char CHR ''@'' \<longleftrightarrow> (of_char c :: nat) = of_char CHR ''@''"
    by (simp add: of_char_lower_char)
  then show ?thesis by (simp only: of_char_eq_iff)
qed

lemma at_ToLower [simp]: "CHR ''@'' \<in> set (ToLower t) \<longleftrightarrow> CHR ''@'' \<in> set t"
proof -
  have "CHR ''@'' \<in> set (ToLower t) \<longleftrightarrow> (\<exists>x\<in>set t. lower_char x = CHR ''@'')"
    unfolding ToLower_def set_map image_iff by (metis (full_types))
  then show ?thesis by (simp add: lower_char_at)
qed

lemma set_ReplaceAll: "set (ReplaceAll t old new) \<subseteq> set t \<union> set new"
proof (induction t old new rule: ReplaceAll.induct)
  case (1 t old new)
  show ?case
  proof (cases "old = [] \<or> Index t old = None")
    case True
    then show ?thesis by (subst ReplaceAll.simps) auto
  next
    case False
    then obtain i where i: "Index t old = Some i" by auto
    have "set (ReplaceAll (drop (i + length old) t) old new) \<subseteq> set (drop (i + length old) t) \<union> set new"
      using 1 False i by blast
    then show ?thesis
      using False i set_take_subset [of i t] set_drop_subset [of "i + length old" t]
      by (subst ReplaceAll.simps) auto
  qed
qed

lemma parseEmail_domain_at: "parseEmail a = Inr (lp, dm) \<Longrightarrow> CHR ''@'' \<notin> set dm"
proof -
  assume ok: "parseEmail a = Inr (lp, dm)"
  let ?e = "Trim (TrimSpace a) ''<>''"
  from ok obtain i where i: "IndexByte ?e CHR ''@'' = Some i" and one: "CountByte ?e CHR ''@'' = 1"
    and dm: "dm = ToLower (drop (Suc i) ?e)"
    by (auto simp: parseEmail_def Let_def split: if_splits option.splits)
  from IndexByte_Some [OF i] have "?e = take i ?e @ CHR ''@'' # drop (Suc i) ?e" by (metis id_take_nth_drop)
  with one have "CountByte (take i ?e) CHR ''@'' + Suc (CountByte (drop (Suc i) ?e) CHR ''@'') = 1"
    by (metis CountByte_Cons CountByte_append)
  then show ?thesis by (simp add: dm CountByte_zero_iff)
qed

text \<open>Configured domains that an address can end with.\<close>

definition srs_domains_ok :: "SRS \<Rightarrow> bool" where
  "srs_domains_ok s \<longleftrightarrow> length (srs_domains s) < 2 ^ 64
     \<and> list_all (\<lambda>d. CHR ''@'' \<notin> set d \<and> trim_safe (last d)) (srs_domains s)"

lemma buildSRSDomain_ok:
  assumes "srs_ok s" and "srs_domains_ok s" and "base \<in> set (srs_domains s)" and "CHR ''@'' \<notin> set dm"
  shows "buildSRSDomain s base dm \<noteq> []" and "CHR ''@'' \<notin> set (buildSRSDomain s base dm)"
    and "trim_safe (last (buildSRSDomain s base dm))"
proof -
  have base: "base \<noteq> []" "CHR ''@'' \<notin> set base" "trim_safe (last base)"
    using assms(1-3) by (auto simp: srs_ok_def srs_domains_ok_def list_all_iff)
  have "CHR ''@'' \<notin> set (ReplaceAll (ToLower dm) ''.'' ''-'')"
    using set_ReplaceAll [of "ToLower dm" "''.''" "''-''"] assms(4) by auto
  with base show "buildSRSDomain s base dm \<noteq> []" "CHR ''@'' \<notin> set (buildSRSDomain s base dm)"
    "trim_safe (last (buildSRSDomain s base dm))"
    by (auto simp: buildSRSDomain_def)
qed

lemma HasPrefix_label:
  assumes "ToUpper sep = sep"
  shows "HasPrefix (ToUpper (''SRS0'' @ sep @ r)) (''SRS0'' @ sep)"
    and "HasPrefix (ToUpper (''SRS1'' @ sep @ r)) (''SRS1'' @ sep)"
    and "\<not> HasPrefix (ToUpper (''SRS1'' @ sep @ r)) (''SRS0'' @ sep)"
proof -
  have up: "ToUpper ''SRS0'' = ''SRS0''" "ToUpper ''SRS1'' = ''SRS1''" by code_simp+
  show "HasPrefix (ToUpper (''SRS0'' @ sep @ r)) (''SRS0'' @ sep)"
    "HasPrefix (ToUpper (''SRS1'' @ sep @ r)) (''SRS1'' @ sep)"
    "\<not> HasPrefix (ToUpper (''SRS1'' @ sep @ r)) (''SRS0'' @ sep)"
    unfolding HasPrefix_def ToUpper_append up assms by simp_all
qed

lemma trim_safe_S: "trim_safe CHR ''S''"
  by code_simp

lemma parse_rewritten:
  assumes "D \<noteq> []" and "CHR ''@'' \<notin> set D" and "trim_safe (last D)" and "CHR ''@'' \<notin> set r"
  shows "parseEmail ((CHR ''S'' # r) @ ''@'' @ D) = Inr (CHR ''S'' # r, ToLower D)"
  using assms trim_safe_S by (intro parseEmail_plain) auto

lemma Forward_plain:
  assumes "parseEmail sender = Inr (lp, dm)" and "\<not> IsSRS s sender"
  shows "Forward s unix sender =
    (case forwardSRS0 s unix lp dm sender of (a, s') \<Rightarrow> (Inr a, s'))"
proof -
  have "sender \<noteq> []" using assms(1) by (auto simp: parseEmail_def TrimSpace_def Trim_def trim_left_by_def trim_right_by_def)
  with assms show ?thesis by (simp add: Forward_def IsSRS_def)
qed

section \<open>Properties\<close>

text \<open>
  C6. Rewriting and reversing an envelope sender gives the sender back: for a separator that occurs
  neither in the encoded fields nor in the sender's domain, the rewritten address is recognised as an
  SRS address, and reversing it on a day within the maximum age (counted modulo 1024 days) returns the
  original local part and the lower-cased domain, whichever domain the selection took and with or
  without a dynamic subdomain.
\<close>

theorem srs_roundtrip:
  assumes "srs_ok s" and "sep_ok (separator s)" and "srs_domains_ok s"
    and "parseEmail sender = Inr (lp, dm)" and "\<not> IsSRS s sender" and "hd (separator s) \<notin> set dm"
    and "unix0 div 86400 \<le> unix1 div 86400"
    and "int ((unix1 div 86400 - unix0 div 86400) mod 1024) \<le> maxAge s"
  shows "\<exists>a. fst (Forward s unix0 sender) = Inr a \<and> IsSRS s a \<and> Reverse s unix1 a = Inr (lp @ ''@'' @ dm)"
proof -
  let ?ts = "generateTimestamp unix0" and ?sep = "separator s"
  let ?hash = "generateHash s [?ts, dm, lp]"
  let ?D = "buildSRSDomain s (fst (selectDomain s sender)) dm"
  let ?r = "?sep @ ?hash @ ?sep @ ?ts @ ?sep @ dm @ ?sep @ lp"
  let ?a = "(''SRS0'' @ ?r) @ ''@'' @ ?D"
  have fwd: "fst (Forward s unix0 sender) = Inr ?a"
    using Forward_plain [OF assms(4,5)] by (simp add: forwardSRS0_def Let_def case_prod_beta)
  have base: "fst (selectDomain s sender) \<in> set (srs_domains s)"
    using assms(1,3) by (simp add: selectDomain_mem srs_domains_ok_def)
  have at: "CHR ''@'' \<notin> set (''RS0'' @ ?r)"
    using assms(2) parseEmail_Inr(3) [OF assms(4)] parseEmail_domain_at [OF assms(4)]
      at_outside [OF generateHash_alphabet] at_outside [OF generateTimestamp_alphabet]
    by (auto simp: sep_ok_def)
  have parse: "parseEmail ?a = Inr (''SRS0'' @ ?r, ToLower ?D)"
    using parse_rewritten [OF buildSRSDomain_ok [OF assms(1,3) base parseEmail_domain_at [OF assms(4)]] at]
    by simp
  have label: "HasPrefix (ToUpper (''SRS0'' @ ?r)) (''SRS0'' @ ?sep)"
    using assms(2) by (intro HasPrefix_label(1)) (simp add: sep_ok_def)
  have "reverseSRS0 s unix1 (''SRS0'' @ ?r) = Inr (lp @ ''@'' @ dm)"
    using assms(2,6) generated_timestamp_valid [OF assms(7)] assms(8) by (intro reverse_generated_srs0) auto
  then have "Reverse s unix1 ?a = Inr (lp @ ''@'' @ dm)"
    using label by (subst Reverse.simps) (simp only: parse sum.case prod.case if_True append_is_Nil_conv, simp)
  moreover have "IsSRS s ?a" using label by (simp only: IsSRS_def parse sum.case prod.case simp_thms)
  ultimately show ?thesis using fwd by blast
qed

definition sample_srs :: SRS where
  "sample_srs = \<lparr>srs_domains = [''srs.example.net'', ''fwd.example.net''], selection = ''round-robin'',
     srs_counter = 0, secret = ''0123456789abcdef'', maxAge = 21, hashLength = 4, separator = ''='',
     skipDomains = [], skipIfDKIMPass = False, skipIfSameDomain = False, useDynamicSubdomain = True\<rparr>"

lemma sample_srs_ok: "srs_ok sample_srs" "sep_ok (separator sample_srs)" "srs_domains_ok sample_srs"
proof -
  show "srs_ok sample_srs" "sep_ok (separator sample_srs)" by code_simp+
  have "list_all (\<lambda>d. CHR ''@'' \<notin> set d \<and> trim_safe (last d)) (srs_domains sample_srs)" by code_simp
  then show "srs_domains_ok sample_srs" by (simp add: srs_domains_ok_def sample_srs_def)
qed

theorem srs_roundtrip_witness:
  "\<exists>a. fst (Forward sample_srs 1700000000 ''user@Example.COM'') = Inr a
     \<and> Reverse sample_srs 1701000000 a = Inr ''user@example.com''"
proof -
  have parse: "parseEmail ''user@Example.COM'' = Inr (''user'', ''example.com'')" by code_simp
  have "\<not> IsSRS sample_srs ''user@Example.COM''" "hd (separator sample_srs) \<notin> set ''example.com''"
    by code_simp+
  from srs_roundtrip [OF sample_srs_ok parse this, of 1700000000 1701000000] show ?thesis
    by (auto simp: sample_srs_def)
qed

text \<open>
  A second hop does not lose the sender: rewriting an SRS0 address gives an SRS1 address, and
  reversing that is reversing the SRS0 address it wraps.
\<close>

lemma srs1_unwraps:
  assumes "srs_ok s" and "sep_ok (separator s)" and "srs_domains_ok s"
    and "parseEmail addr = Inr (lp, dm)" and "HasPrefix (ToUpper lp) (''SRS0'' @ separator s)"
    and "hd (separator s) \<notin> set dm" and "length (Split lp (separator s)) \<ge> 2"
  shows "\<exists>a. fst (Forward s unix0 addr) = Inr a \<and> Reverse s unix1 a = Reverse s unix1 (lp @ ''@'' @ dm)"
proof -
  let ?sep = "separator s" and ?D = "srs_domains s ! 0"
  let ?hash = "generateHash s [dm, lp, []]"
  let ?r = "?sep @ ?hash @ ?sep @ dm @ ?sep @ lp"
  let ?a = "(''SRS1'' @ ?r) @ ''@'' @ ?D"
  have ne: "addr \<noteq> []" using assms(4) by (auto simp: parseEmail_def TrimSpace_def Trim_def trim_left_by_def trim_right_by_def)
  have fwd: "fst (Forward s unix0 addr) = Inr ?a"
    using ne assms(4,5,7) by (simp add: Forward_def forwardSRS1_def Let_def)
  have "?D \<in> set (srs_domains s)" using assms(1) by (simp add: srs_ok_def)
  then have D: "?D \<noteq> []" "CHR ''@'' \<notin> set ?D" "trim_safe (last ?D)"
    using assms(1,3) by (auto simp: srs_ok_def srs_domains_ok_def list_all_iff)
  have at: "CHR ''@'' \<notin> set (''RS1'' @ ?r)"
    using assms(2) parseEmail_Inr(3) [OF assms(4)] parseEmail_domain_at [OF assms(4)]
      at_outside [OF generateHash_alphabet] by (auto simp: sep_ok_def)
  have parse: "parseEmail ?a = Inr (''SRS1'' @ ?r, ToLower ?D)"
    using parse_rewritten [OF D at] by simp
  have up: "ToUpper ?sep = ?sep" using assms(2) by (simp add: sep_ok_def)
  have "ToUpper ''SRS1'' = ''SRS1''" by code_simp
  then have "openSRS1 s (''SRS1'' @ ?r) = Inr (lp @ ''@'' @ dm)"
    unfolding openSRS1_def split_srs1 [OF assms(2) generateHash_alphabet assms(6)] by simp
  then have "Reverse s unix1 ?a = Reverse s unix1 (lp @ ''@'' @ dm)"
    using HasPrefix_label(2,3) [OF up, of "?hash @ ?sep @ dm @ ?sep @ lp"]
    by (subst Reverse.simps) (simp only: parse sum.case prod.case if_True if_False append_is_Nil_conv, simp)
  with fwd show ?thesis by blast
qed

lemma srs1_unwraps_witness:
  "\<exists>a. fst (Forward sample_srs 1700000000 ''SRS0=AAAA=BB=b.c=a@hop.example'') = Inr a
     \<and> Reverse sample_srs 1701000000 a = Reverse sample_srs 1701000000 ''SRS0=AAAA=BB=b.c=a@hop.example''"
proof -
  have parse: "parseEmail ''SRS0=AAAA=BB=b.c=a@hop.example'' = Inr (''SRS0=AAAA=BB=b.c=a'', ''hop.example'')"
    by code_simp
  have "HasPrefix (ToUpper ''SRS0=AAAA=BB=b.c=a'') (''SRS0'' @ separator sample_srs)"
    "hd (separator sample_srs) \<notin> set ''hop.example''"
    "length (Split ''SRS0=AAAA=BB=b.c=a'' (separator sample_srs)) \<ge> 2"
    by code_simp+
  from srs1_unwraps [OF sample_srs_ok parse this] show ?thesis by simp
qed

text \<open>
  The age of a rewritten address is its age in days modulo 1024: an address made on day \<open>d\<close> is
  accepted on a later day exactly if the days in between, taken modulo 1024, do not exceed the
  maximum age. An address that has expired is accepted again 1024 days after its creation.
\<close>

lemma srs_expiry:
  assumes "unix0 div 86400 \<le> unix1 div 86400"
  shows "(validateTimestamp s unix1 (generateTimestamp unix0) = None
      \<longleftrightarrow> int ((unix1 div 86400 - unix0 div 86400) mod 1024) \<le> maxAge s)
    \<and> (0 \<le> maxAge s \<longrightarrow> validateTimestamp s (unix0 + 1024 * 86400) (generateTimestamp unix0) = None)"
proof -
  have "(unix0 + 1024 * 86400) div 86400 = unix0 div 86400 + 1024" by (subst div_mult_self1) simp_all
  then have "validateTimestamp s (unix0 + 1024 * 86400) (generateTimestamp unix0) = None" if "0 \<le> maxAge s"
    using that generated_timestamp_valid [of unix0 "unix0 + 1024 * 86400" s] by (simp only: le_add1 diff_add_inverse) simp
  with generated_timestamp_valid [OF assms, of s] show ?thesis by blast
qed

lemma srs_expiry_witness:
  "validateTimestamp sample_srs (1700000000 + 22 * 86400) (generateTimestamp 1700000000) \<noteq> None
   \<and> validateTimestamp sample_srs (1700000000 + 21 * 86400) (generateTimestamp 1700000000) = None"
  using srs_expiry [of 1700000000 "1700000000 + 22 * 86400" sample_srs]
    srs_expiry [of 1700000000 "1700000000 + 21 * 86400" sample_srs]
  by (simp add: sample_srs_def)

text \<open>
  A separator that occurs in the sender's domain makes the reversal return a wrong address although
  its hash is valid: the fields shift, the hashed text stays the same, and the part of the domain after
  the separator ends up in the local part.
\<close>

lemma srs_separator_in_domain:
  assumes "sep_ok (separator s)" and "hd (separator s) \<notin> set d1"
    and "validateTimestamp s unix1 (generateTimestamp unix0) = None"
  shows "reverseSRS0 s unix1 (''SRS0'' @ separator s
           @ generateHash s [generateTimestamp unix0, d1 @ separator s @ d2, lp] @ separator s
           @ generateTimestamp unix0 @ separator s @ (d1 @ separator s @ d2) @ separator s @ lp)
     = Inr ((d2 @ separator s @ lp) @ ''@'' @ d1)"
proof -
  have "generateHash s [ts, d1 @ separator s @ d2, lp] = generateHash s [ts, d1, d2 @ separator s @ lp]" for ts
    by (simp add: generateHash_def)
  with reverse_generated_srs0 [OF assms(1,2) refl assms(3), of "d2 @ separator s @ lp"] show ?thesis
    by simp
qed

lemma srs_separator_in_domain_witness:
  "let s = sample_srs\<lparr>separator := ''-''\<rparr>; ts = generateTimestamp 1700000000 in
   reverseSRS0 s 1700000000 (''SRS0-'' @ generateHash s [ts, ''my-host.com'', ''user''] @ ''-'' @ ts @ ''-my-host.com-user'')
     = Inr ''host.com-user@my''"
proof -
  let ?s = "sample_srs\<lparr>separator := ''-''\<rparr>"
  have sep: "separator ?s = ''-''" by simp
  have "sep_ok (separator ?s)" "hd (separator ?s) \<notin> set ''my''" by code_simp+
  moreover have "validateTimestamp ?s 1700000000 (generateTimestamp 1700000000) = None"
    by (simp add: generated_timestamp_valid sample_srs_def)
  ultimately show ?thesis
    using srs_separator_in_domain [of ?s "''my''" 1700000000 1700000000 "''host.com''" "''user''"]
    unfolding sep by (simp add: Let_def)
qed

end
