(* ===== verification/LMTP.thy ===== *)
theory LMTP
  imports Error_Classifier
begin

text \<open>
  The raw LMTP client of \<^verbatim>\<open>internal/delivery/delivery.go\<close>: reading of multi-line replies, writing of
  commands and of the dot-stuffed message, the transaction and its classification, with the result
  record and the small helpers of the same file. A connection is what the program can observe of it:
  the bytes the peer will send, the error that ends them, the faults of write and deadline calls, and
  the bytes written so far.
\<close>

section \<open>Results and helpers\<close>

record DeliveryResult =
  TraceID :: string
  Status :: string
  SMTPCode :: int
  SMTPMessage :: string
  ResMXHost :: string
  ResSourceIP :: string
  AttemptDurationMs :: int
  ResError :: string
  classifiedErr :: "DeliveryError option"

text \<open>A result with the given trace id, status and error text and zero values elsewhere.\<close>

definition mkResult :: "string \<Rightarrow> string \<Rightarrow> string \<Rightarrow> string \<Rightarrow> string \<Rightarrow> DeliveryResult" where
  "mkResult traceID status mxHost sourceIP err =
     \<lparr>TraceID = traceID, Status = status, SMTPCode = 0, SMTPMessage = [], ResMXHost = mxHost,
      ResSourceIP = sourceIP, AttemptDurationMs = 0, ResError = err, classifiedErr = None\<rparr>"

definition splitEmail :: "string \<Rightarrow> string \<times> string" where
  "splitEmail email =
     (case LastIndexByte email CHR ''@'' of
        None \<Rightarrow> ([], [])
      | Some i \<Rightarrow> (take i email, drop (Suc i) email))"

definition stripAngleBrackets :: "string \<Rightarrow> string" where
  "stripAngleBrackets addr =
     (if length addr \<ge> 2 \<and> hd addr = CHR ''<'' \<and> last addr = CHR ''>''
      then take (length addr - 2) (drop 1 addr) else addr)"

definition isBindError :: "goerror option \<Rightarrow> bool" where
  "isBindError err =
     (case err of
        None \<Rightarrow> False
      | Some e \<Rightarrow> Contains (err_text e) ''bind'' \<or> Contains (err_text e) ''cannot assign requested address''
          \<or> Contains (err_text e) ''EADDRNOTAVAIL'')"

definition needsUTF8Address :: "string \<Rightarrow> bool" where
  "needsUTF8Address email \<longleftrightarrow> list_ex (\<lambda>c. (of_char c :: nat) > 127) email"

definition isTimeoutError :: "goerror option \<Rightarrow> bool" where
  "isTimeoutError err = (case err of None \<Rightarrow> False | Some e \<Rightarrow> net_error_timeout e)"

definition lmtpStatus :: "bool \<Rightarrow> goerror \<Rightarrow> string" where
  "lmtpStatus ctxEnded err = (if isTimeoutError (Some err) \<or> ctxEnded then ''timeout'' else ''error'')"

section \<open>Connections\<close>

text \<open>
  A fault of a write call: the deadline could not be set, or the write failed after \<open>k\<close> bytes. A write
  that fails is short, as documented for \<open>io.Writer\<close>: at least the last byte is missing.
\<close>

datatype write_fault = WDeadline goerror | WError goerror nat

record lmtp_conn =
  lc_input :: string
  lc_readErr :: goerror
  lc_readDeadline :: "goerror option list"
  lc_writeFaults :: "write_fault option list"
  lc_output :: string

definition conn_write :: "string \<Rightarrow> lmtp_conn \<Rightarrow> goerror option \<times> lmtp_conn" where
  "conn_write data conn =
     (case lc_writeFaults conn of
        [] \<Rightarrow> (None, conn\<lparr>lc_output := lc_output conn @ data\<rparr>)
      | None # fs \<Rightarrow> (None, conn\<lparr>lc_output := lc_output conn @ data, lc_writeFaults := fs\<rparr>)
      | Some (WDeadline e) # fs \<Rightarrow> (Some (wrapErr ''set write deadline: '' e), conn\<lparr>lc_writeFaults := fs\<rparr>)
      | Some (WError e k) # fs \<Rightarrow>
          (Some e, conn\<lparr>lc_output := lc_output conn @ take (min k (length data - 1)) data, lc_writeFaults := fs\<rparr>))"

definition writeLMTPCommand :: "string \<Rightarrow> lmtp_conn \<Rightarrow> goerror option \<times> lmtp_conn" where
  "writeLMTPCommand cmd conn = conn_write (cmd @ [CR, LF]) conn"

section \<open>Replies\<close>

text \<open>
  The loop of \<open>readLMTPResponse\<close> on the bytes of the peer: the rest of them after the reply, or the
  error.
\<close>

function readLines :: "string \<Rightarrow> goerror \<Rightarrow> string list \<Rightarrow> goerror + (int \<times> string \<times> string)" where
  "readLines inp eof acc =
     (case IndexByte inp LF of
        None \<Rightarrow> Inl (if eof = ErrSentinel ErrEOF then ErrText ''connection closed by server'' else eof)
      | Some i \<Rightarrow>
          let line = TrimRight (take (Suc i) inp) [CR, LF]; rest = drop (Suc i) inp in
          if length line < 3 then Inl (ErrText (''invalid response line: '' @ CHR 0x22 # line @ [CHR 0x22]))
          else case Atoi (take 3 line) of
            None \<Rightarrow> Inl (ErrText (''invalid response code in: '' @ CHR 0x22 # line @ [CHR 0x22]))
          | Some code \<Rightarrow>
              let acc' = (if length line > 4 then acc @ [drop 4 line] else acc) in
              if length line = 3 \<or> line ! 3 = CHR '' '' then Inr (code, Join acc' '' '', rest)
              else readLines rest eof acc')"
  by pat_completeness auto
termination
proof (relation "measure (\<lambda>(inp, eof, acc). length inp)", goal_cases)
  case 1
  show ?case by simp
next
  case (2 inp eof acc i)
  then show ?case using IndexByte_Some [of inp LF i] by auto
qed

declare readLines.simps [simp del]

definition readLMTPResponse :: "lmtp_conn \<Rightarrow> (goerror + (int \<times> string)) \<times> lmtp_conn" where
  "readLMTPResponse conn =
     (let conn1 = conn\<lparr>lc_readDeadline := tl (lc_readDeadline conn)\<rparr> in
      case lc_readDeadline conn of
        Some e # _ \<Rightarrow> (Inl (wrapErr ''set read deadline: '' e), conn1)
      | _ \<Rightarrow>
          (case readLines (lc_input conn) (lc_readErr conn) [] of
             Inl e \<Rightarrow> (Inl e, conn1\<lparr>lc_input := []\<rparr>)
           | Inr (code, msg, rest) \<Rightarrow> (Inr (code, msg), conn1\<lparr>lc_input := rest\<rparr>)))"

section \<open>Message data\<close>

text \<open>The lines of the loop in \<open>writeLMTPData\<close>: text up to each line feed, and a last one without.\<close>

function dataLines :: "string \<Rightarrow> string list" where
  "dataLines msg =
     (if msg = [] then []
      else case IndexByte msg LF of
        None \<Rightarrow> [msg]
      | Some i \<Rightarrow> take i msg # dataLines (drop (Suc i) msg))"
  by pat_completeness auto
termination
proof (relation "measure length", goal_cases)
  case 1
  show ?case by simp
next
  case (2 msg i)
  then show ?case using IndexByte_Some [of msg LF i] by auto
qed

declare dataLines.simps [simp del]

definition stuffLine :: "string \<Rightarrow> string" where
  "stuffLine line0 =
     (let line = TrimSuffix line0 [CR] in
      (if length line > 0 \<and> hd line = CHR ''.'' then ''.'' else []) @ line @ [CR, LF])"

definition lmtpData :: "string \<Rightarrow> string" where
  "lmtpData message = concat (map stuffLine (dataLines message)) @ ''.'' @ [CR, LF]"

definition writeLMTPData :: "string \<Rightarrow> lmtp_conn \<Rightarrow> goerror option \<times> lmtp_conn" where
  "writeLMTPData message conn = conn_write (lmtpData message) conn"

section \<open>Transaction\<close>

definition classifyLMTPResult :: "string \<Rightarrow> string \<Rightarrow> string \<Rightarrow> int \<Rightarrow> string \<Rightarrow> DeliveryResult" where
  "classifyLMTPResult traceID mxHost sourceIP code msg =
     (let result = (mkResult traceID [] mxHost sourceIP [])\<lparr>SMTPCode := code, SMTPMessage := msg\<rparr> in
      if code \<ge> 200 \<and> code < 300 then result\<lparr>Status := ''delivered''\<rparr>
      else if code \<ge> 400 \<and> code < 500 then result\<lparr>Status := ''temp_fail''\<rparr>
      else if code \<ge> 500 \<and> code < 600 then result\<lparr>Status := ''hard_bounce''\<rparr>
      else result\<lparr>Status := ''error'', ResError := ''unexpected LMTP code: '' @ Itoa code\<rparr>)"

text \<open>
  One command and its reply: the connection goes on if the reply has the expected code, else the
  transaction has its result.
\<close>

definition lmtpExchange ::
  "string \<Rightarrow> string \<Rightarrow> string \<Rightarrow> bool \<Rightarrow> string \<Rightarrow> string \<Rightarrow> int \<Rightarrow> lmtp_conn \<Rightarrow> (DeliveryResult + unit) \<times> lmtp_conn" where
  "lmtpExchange traceID mxHost sourceIP ctxEnded label cmd expected conn =
     (case writeLMTPCommand cmd conn of
        (Some err, conn1) \<Rightarrow>
          (Inl (mkResult traceID (lmtpStatus ctxEnded err) mxHost sourceIP (label @ '' write: '' @ err_text err)), conn1)
      | (None, conn1) \<Rightarrow>
          (case readLMTPResponse conn1 of
             (Inl err, conn2) \<Rightarrow>
               (Inl (mkResult traceID (lmtpStatus ctxEnded err) mxHost sourceIP
                  (label @ '' response: '' @ err_text err)), conn2)
           | (Inr (code, msg), conn2) \<Rightarrow>
               if code \<noteq> expected then (Inl (classifyLMTPResult traceID mxHost sourceIP code msg), conn2)
               else (Inr (), conn2)))"

definition lmtpBody ::
  "string \<Rightarrow> string \<Rightarrow> string \<Rightarrow> bool \<Rightarrow> string \<Rightarrow> lmtp_conn \<Rightarrow> DeliveryResult \<times> lmtp_conn" where
  "lmtpBody traceID mxHost sourceIP ctxEnded msg conn =
     (case writeLMTPData msg conn of
        (Some err, conn1) \<Rightarrow>
          (mkResult traceID (lmtpStatus ctxEnded err) mxHost sourceIP (''DATA body write: '' @ err_text err), conn1)
      | (None, conn1) \<Rightarrow>
          (case readLMTPResponse conn1 of
             (Inl err, conn2) \<Rightarrow>
               (mkResult traceID ''unknown'' mxHost sourceIP
                  (''Delivery outcome unknown (message fully sent, no acknowledgement): DATA final response: ''
                     @ err_text err), conn2)
           | (Inr (code, text), conn2) \<Rightarrow> (classifyLMTPResult traceID mxHost sourceIP code text, conn2)))"

text \<open>
  \<open>ctxEnded\<close> is whether the context has ended when an error is classified; the transaction ends at its
  first error. The closing \<open>QUIT\<close> is best effort and not part of the result.
\<close>

definition performLMTPTransaction ::
  "string \<Rightarrow> bool \<Rightarrow> lmtp_conn \<Rightarrow> string \<Rightarrow> string \<Rightarrow> string \<Rightarrow> string \<Rightarrow> string \<Rightarrow> DeliveryResult \<times> lmtp_conn" where
  "performLMTPTransaction traceID ctxEnded conn from0 to0 msg mxHost sourceIP =
     (let from = stripAngleBrackets from0; to = stripAngleBrackets to0;
          exchange = lmtpExchange traceID mxHost sourceIP ctxEnded
      in case exchange ''MAIL FROM'' (''MAIL FROM:<'' @ from @ ''>'') 250 conn of
           (Inl r, conn1) \<Rightarrow> (r, conn1)
         | (Inr _, conn1) \<Rightarrow>
             (case exchange ''RCPT TO'' (''RCPT TO:<'' @ to @ ''>'') 250 conn1 of
                (Inl r, conn2) \<Rightarrow> (r, conn2)
              | (Inr _, conn2) \<Rightarrow>
                  (case exchange ''DATA'' ''DATA'' 354 conn2 of
                     (Inl r, conn3) \<Rightarrow> (r, conn3)
                   | (Inr _, conn3) \<Rightarrow> lmtpBody traceID mxHost sourceIP ctxEnded msg conn3)))"

section \<open>Lemmas\<close>

lemma mkResult_sel [simp]:
  "Status (mkResult t st mx ip e) = st" "SMTPCode (mkResult t st mx ip e) = 0"
  "ResMXHost (mkResult t st mx ip e) = mx" "ResSourceIP (mkResult t st mx ip e) = ip"
  "TraceID (mkResult t st mx ip e) = t" "classifiedErr (mkResult t st mx ip e) = None"
  by (simp_all add: mkResult_def)

lemma classifyLMTPResult_status:
  "Status (classifyLMTPResult t mx ip code msg) =
     (if 200 \<le> code \<and> code < 300 then ''delivered''
      else if 400 \<le> code \<and> code < 500 then ''temp_fail''
      else if 500 \<le> code \<and> code < 600 then ''hard_bounce'' else ''error'')"
  by (simp add: classifyLMTPResult_def Let_def)

lemma classifyLMTPResult_code: "SMTPCode (classifyLMTPResult t mx ip code msg) = code"
  by (simp add: classifyLMTPResult_def Let_def)

lemma lmtpStatus_values: "lmtpStatus ctx e \<in> {''timeout'', ''error''}"
  by (simp add: lmtpStatus_def)

lemma reply_never_unknown [simp]:
  "Status (classifyLMTPResult t mx ip code msg) \<noteq> ''unknown''"
  "Status (classifyLMTPResult t mx ip code msg) \<noteq> ''timeout''" "lmtpStatus ctx e \<noteq> ''unknown''"
  by (simp_all add: classifyLMTPResult_status lmtpStatus_def)

lemma readLMTPResponse_output [simp]: "lc_output (snd (readLMTPResponse conn)) = lc_output conn"
  by (simp add: readLMTPResponse_def Let_def split: list.split option.split sum.split)

lemma conn_write_None:
  "conn_write data conn = (None, conn') \<Longrightarrow> lc_output conn' = lc_output conn @ data"
  by (auto simp: conn_write_def split: list.splits option.splits write_fault.splits)

lemma readLMTPResponse_out: "readLMTPResponse conn = (r, conn') \<Longrightarrow> lc_output conn' = lc_output conn"
  using readLMTPResponse_output [of conn] by simp

lemma short_take: "data \<noteq> [] \<Longrightarrow> prefix (take (min k (length data - 1)) data) data \<and> take (min k (length data - 1)) data \<noteq> data"
  by (cases data rule: rev_cases) (auto simp: take_is_prefix dest: arg_cong [of _ _ length])

lemma conn_write_Some:
  assumes "conn_write data conn = (Some e, conn')" and "data \<noteq> []"
  shows "\<exists>w. lc_output conn' = lc_output conn @ w \<and> prefix w data \<and> w \<noteq> data"
proof -
  from assms(1) have "lc_output conn' = lc_output conn @ []
      \<or> (\<exists>k. lc_output conn' = lc_output conn @ take (min k (length data - 1)) data)"
    by (auto simp: conn_write_def split: list.splits option.splits write_fault.splits)
  with short_take [OF assms(2)] assms(2) show ?thesis by (metis Nil_prefix)
qed

lemma lmtpExchange_spec:
  assumes "lmtpExchange t mx ip ctx label cmd expected conn = (r, conn')"
  shows "\<exists>w. lc_output conn' = lc_output conn @ w \<and> prefix w (cmd @ [CR, LF])
    \<and> (r = Inr () \<longrightarrow> w = cmd @ [CR, LF]) \<and> (\<forall>x. r = Inl x \<longrightarrow> Status x \<noteq> ''unknown'')"
proof (cases "writeLMTPCommand cmd conn")
  case (Pair e conn1)
  show ?thesis
  proof (cases e)
    case None
    with Pair have out: "lc_output conn1 = lc_output conn @ cmd @ [CR, LF]"
      using conn_write_None by (fastforce simp: writeLMTPCommand_def)
    have "lc_output conn' = lc_output conn1"
      using assms Pair None
      by (auto simp: lmtpExchange_def dest: readLMTPResponse_out split: prod.splits sum.splits if_splits)
    moreover have "Status x \<noteq> ''unknown''" if "r = Inl x" for x
      using that assms Pair None
      by (auto simp: lmtpExchange_def split: prod.splits sum.splits if_splits)
    ultimately show ?thesis using out by auto
  next
    case (Some err)
    with Pair obtain w where "lc_output conn1 = lc_output conn @ w" "prefix w (cmd @ [CR, LF])"
      using conn_write_Some [of "cmd @ [CR, LF]" conn err conn1] by (auto simp: writeLMTPCommand_def)
    with assms Pair Some lmtpStatus_values [of ctx err] show ?thesis by (auto simp: lmtpExchange_def)
  qed
qed

lemma lmtpBody_spec:
  assumes "lmtpBody t mx ip ctx msg conn = (r, conn')"
  shows "\<exists>w. lc_output conn' = lc_output conn @ w \<and> prefix w (lmtpData msg)
    \<and> (Status r = ''unknown'' \<longrightarrow> w = lmtpData msg) \<and> (Status r = ''timeout'' \<longrightarrow> w \<noteq> lmtpData msg)
    \<and> (w = lmtpData msg \<longrightarrow> Status r = ''unknown'' \<or> (\<exists>code text. r = classifyLMTPResult t mx ip code text))"
proof (cases "writeLMTPData msg conn")
  case (Pair e conn1)
  show ?thesis
  proof (cases e)
    case None
    with Pair have out: "lc_output conn1 = lc_output conn @ lmtpData msg"
      using conn_write_None by (fastforce simp: writeLMTPData_def)
    have "lc_output conn' = lc_output conn1"
      using assms Pair None
      by (auto simp: lmtpBody_def dest: readLMTPResponse_out split: prod.splits sum.splits)
    moreover have "Status r \<noteq> ''timeout'' \<and> (Status r = ''unknown'' \<or> (\<exists>code text. r = classifyLMTPResult t mx ip code text))"
      using assms Pair None by (auto simp: lmtpBody_def split: prod.splits sum.splits)
    ultimately show ?thesis using out by auto
  next
    case (Some err)
    with Pair obtain w where "lc_output conn1 = lc_output conn @ w" "prefix w (lmtpData msg)" "w \<noteq> lmtpData msg"
      using conn_write_Some [of "lmtpData msg" conn err conn1] by (auto simp: writeLMTPData_def lmtpData_def)
    with assms Pair Some lmtpStatus_values [of ctx err] show ?thesis by (auto simp: lmtpBody_def)
  qed
qed

text \<open>The receiving side of the data phase: lines up to the lone dot, and the lines after it.\<close>

definition receivedLines :: "string \<Rightarrow> string list" where
  "receivedLines s = map (\<lambda>l. TrimSuffix l [CR]) (dataLines s)"

definition unstuff :: "string \<Rightarrow> string" where
  "unstuff l = (if l \<noteq> [] \<and> hd l = CHR ''.'' then tl l else l)"

definition receive :: "string \<Rightarrow> string list \<times> string list" where
  "receive s =
     (let ls = receivedLines s in
      (map unstuff (takeWhile (\<lambda>l. l \<noteq> ''.'') ls), drop 1 (dropWhile (\<lambda>l. l \<noteq> ''.'') ls)))"

lemma dataLines_Nil [simp]: "dataLines [] = []"
  by (subst dataLines.simps) simp

lemma dataLines_line: "LF \<notin> set x \<Longrightarrow> dataLines (x @ LF # r) = x # dataLines r"
  by (subst dataLines.simps) (simp add: IndexByte_append)

lemma dataLines_single: "LF \<notin> set x \<Longrightarrow> dataLines x = (if x = [] then [] else [x])"
  by (subst dataLines.simps) (simp add: IndexByte_None_iff [THEN iffD2])

lemma dataLines_no_LF: "l \<in> set (dataLines msg) \<Longrightarrow> LF \<notin> set l"
proof (induction msg rule: dataLines.induct)
  case (1 msg)
  show ?case
  proof (cases "msg = [] \<or> IndexByte msg LF = None")
    case True
    with 1(2) show ?thesis by (auto simp: dataLines_single split: if_splits)
  next
    case False
    then obtain i where i: "IndexByte msg LF = Some i" by (cases "IndexByte msg LF") auto
    with False 1(2) have "l = take i msg \<or> l \<in> set (dataLines (drop (Suc i) msg))"
      by (subst (asm) dataLines.simps) auto
    with 1(1) False i IndexByte_Some [OF i] show ?thesis by auto
  qed
qed

definition stuffed :: "string \<Rightarrow> string" where
  "stuffed l = (if l \<noteq> [] \<and> hd l = CHR ''.'' then CHR ''.'' # l else l)"

lemma unstuff_stuffed [simp]: "unstuff (stuffed l) = l"
  by (simp add: unstuff_def stuffed_def)

lemma stuffed_not_dot [simp]: "stuffed l \<noteq> ''.''"
  by (cases l) (auto simp: stuffed_def)

lemma stuffLine_alt: "stuffLine l = (stuffed (TrimSuffix l [CR]) @ [CR]) @ [LF]"
  by (auto simp: stuffLine_def stuffed_def Let_def)

lemma set_TrimSuffix: "set (TrimSuffix l p) \<subseteq> set l"
  by (simp add: TrimSuffix_def set_take_subset)

lemma LF_stuffed: "LF \<notin> set l \<Longrightarrow> LF \<notin> set (stuffed (TrimSuffix l [CR]))"
  using set_TrimSuffix [of l "[CR]"] by (auto simp: stuffed_def)

lemma dataLines_stuffed:
  "\<forall>l\<in>set ls. LF \<notin> set l \<Longrightarrow>
     dataLines (concat (map stuffLine ls) @ ''.'' @ [CR, LF]) =
     map (\<lambda>l. stuffed (TrimSuffix l [CR]) @ [CR]) ls @ [[CHR ''.'', CR]]"
proof (induction ls)
  case Nil
  show ?case using dataLines_line [of "[CHR ''.'', CR]" "[]"] by simp
next
  case (Cons l ls)
  then have "LF \<notin> set (stuffed (TrimSuffix l [CR]) @ [CR])" by (simp add: LF_stuffed)
  from dataLines_line [OF this] Cons show ?case by (simp add: stuffLine_alt)
qed

lemma TrimSuffix_CR [simp]: "TrimSuffix (x @ [CR]) [CR] = x"
  by (simp add: TrimSuffix_def)

lemma receivedLines_data:
  "receivedLines (lmtpData msg) = map (\<lambda>l. stuffed (TrimSuffix l [CR])) (dataLines msg) @ [''.'']"
proof -
  have "TrimSuffix [CHR ''.'', CR] [CR] = ''.''" using TrimSuffix_CR [of "''.''"] by simp
  moreover have "dataLines (lmtpData msg) = map (\<lambda>l. stuffed (TrimSuffix l [CR]) @ [CR]) (dataLines msg) @ [[CHR ''.'', CR]]"
    unfolding lmtpData_def using dataLines_no_LF by (intro dataLines_stuffed) blast
  ultimately show ?thesis by (simp add: receivedLines_def)
qed

section \<open>Properties\<close>

text \<open>
  C25. The data phase is transparent: what the receiver makes of the transmitted bytes, reading lines up
  to a lone dot and removing the stuffed dots, are exactly the lines of the message (without their line
  ends, whether LF or CRLF), and nothing follows the terminator, so that no message content is taken
  for the end of data or for a command.
\<close>

theorem lmtp_data_transparent:
  "receive (lmtpData msg) = (map (\<lambda>l. TrimSuffix l [CR]) (dataLines msg), [])"
proof -
  let ?ls = "map (\<lambda>l. stuffed (TrimSuffix l [CR])) (dataLines msg)"
  have "l \<noteq> ''.''" if "l \<in> set ?ls" for l using that by auto
  then have "takeWhile (\<lambda>l. l \<noteq> ''.'') (?ls @ [''.'']) = ?ls @ takeWhile (\<lambda>l. l \<noteq> ''.'') [''.'']"
    "dropWhile (\<lambda>l. l \<noteq> ''.'') (?ls @ [''.'']) = dropWhile (\<lambda>l. l \<noteq> ''.'') [''.'']"
    by (intro takeWhile_append2 dropWhile_append2, blast)+
  then show ?thesis unfolding receive_def receivedLines_data Let_def by simp
qed

definition lmtpDialogue :: "string \<Rightarrow> string \<Rightarrow> string \<Rightarrow> string" where
  "lmtpDialogue from to msg =
     (''MAIL FROM:<'' @ stripAngleBrackets from @ ''>'' @ [CR, LF])
     @ (''RCPT TO:<'' @ stripAngleBrackets to @ ''>'' @ [CR, LF])
     @ (''DATA'' @ [CR, LF]) @ lmtpData msg"

lemma prefix_stage:
  assumes "prefix w x" and "w \<noteq> x \<or> r \<noteq> []"
  shows "prefix w (x @ r) \<and> w \<noteq> x @ r"
  using assms by (auto simp: prefix_def)

lemma lmtpData_nonempty [simp]: "lmtpData msg \<noteq> []"
  by (simp add: lmtpData_def)

lemma transaction_output:
  assumes "performLMTPTransaction t ctx conn from to msg mx ip = (r, conn')"
  shows "\<exists>w. lc_output conn' = lc_output conn @ w \<and> prefix w (lmtpDialogue from to msg)
    \<and> (Status r = ''unknown'' \<longrightarrow> w = lmtpDialogue from to msg)
    \<and> (Status r = ''timeout'' \<longrightarrow> w \<noteq> lmtpDialogue from to msg)
    \<and> (w = lmtpDialogue from to msg \<longrightarrow>
          Status r = ''unknown'' \<or> (\<exists>code text. r = classifyLMTPResult t mx ip code text))"
proof -
  let ?ex = "lmtpExchange t mx ip ctx"
  let ?m = "''MAIL FROM:<'' @ stripAngleBrackets from @ ''>''" and ?q = "''RCPT TO:<'' @ stripAngleBrackets to @ ''>''"
  obtain r1 c1 where e1: "?ex ''MAIL FROM'' ?m 250 conn = (r1, c1)" by force
  obtain r2 c2 where e2: "?ex ''RCPT TO'' ?q 250 c1 = (r2, c2)" by force
  obtain r3 c3 where e3: "?ex ''DATA'' ''DATA'' 354 c2 = (r3, c3)" by force
  have full: "lmtpDialogue from to msg = (?m @ [CR, LF]) @ (?q @ [CR, LF]) @ (''DATA'' @ [CR, LF]) @ lmtpData msg"
    by (simp add: lmtpDialogue_def)
  from lmtpExchange_spec [OF e1] obtain w1 where w1: "lc_output c1 = lc_output conn @ w1" "prefix w1 (?m @ [CR, LF])"
    "r1 = Inr () \<longrightarrow> w1 = ?m @ [CR, LF]" "\<forall>x. r1 = Inl x \<longrightarrow> Status x \<noteq> ''unknown''" by blast
  from lmtpExchange_spec [OF e2] obtain w2 where w2: "lc_output c2 = lc_output c1 @ w2" "prefix w2 (?q @ [CR, LF])"
    "r2 = Inr () \<longrightarrow> w2 = ?q @ [CR, LF]" "\<forall>x. r2 = Inl x \<longrightarrow> Status x \<noteq> ''unknown''" by blast
  from lmtpExchange_spec [OF e3] obtain w3 where w3: "lc_output c3 = lc_output c2 @ w3" "prefix w3 (''DATA'' @ [CR, LF])"
    "r3 = Inr () \<longrightarrow> w3 = ''DATA'' @ [CR, LF]" "\<forall>x. r3 = Inl x \<longrightarrow> Status x \<noteq> ''unknown''" by blast
  consider x where "r1 = Inl x" | x where "r1 = Inr ()" "r2 = Inl x" | x where "r1 = Inr ()" "r2 = Inr ()" "r3 = Inl x"
    | "r1 = Inr ()" "r2 = Inr ()" "r3 = Inr ()"
    by (cases r1; cases r2; cases r3) auto
  then show ?thesis
  proof cases
    case 1
    with assms e1 have "r = x" "conn' = c1" by (simp_all add: performLMTPTransaction_def)
    with 1 w1 prefix_stage [OF w1(2), of "(?q @ [CR, LF]) @ (''DATA'' @ [CR, LF]) @ lmtpData msg"] show ?thesis
      unfolding full by (intro exI [of _ w1]) simp
  next
    case 2
    with assms e1 e2 have "r = x" "conn' = c2" by (simp_all add: performLMTPTransaction_def)
    with 2 w1 w2 prefix_stage [OF w2(2), of "(''DATA'' @ [CR, LF]) @ lmtpData msg"] show ?thesis
      unfolding full by (intro exI [of _ "w1 @ w2"]) simp
  next
    case 3
    with assms e1 e2 e3 have "r = x" "conn' = c3" by (simp_all add: performLMTPTransaction_def)
    with 3 w1 w2 w3 prefix_stage [OF w3(2), of "lmtpData msg"] show ?thesis
      unfolding full by (intro exI [of _ "w1 @ w2 @ w3"]) simp
  next
    case 4
    with assms e1 e2 e3 have body: "lmtpBody t mx ip ctx msg c3 = (r, conn')"
      by (simp add: performLMTPTransaction_def)
    from lmtpBody_spec [OF body] obtain w where "lc_output conn' = lc_output c3 @ w" "prefix w (lmtpData msg)"
      "Status r = ''unknown'' \<longrightarrow> w = lmtpData msg" "Status r = ''timeout'' \<longrightarrow> w \<noteq> lmtpData msg"
      "w = lmtpData msg \<longrightarrow> Status r = ''unknown'' \<or> (\<exists>code text. r = classifyLMTPResult t mx ip code text)" by blast
    with 4 w1 w2 w3 show ?thesis unfolding full by (intro exI [of _ "w1 @ w2 @ w3 @ w"]) simp
  qed
qed


definition sample_conn :: lmtp_conn where
  "sample_conn = \<lparr>lc_input = ''250 ok'' @ [CR, LF] @ ''250 ok'' @ [CR, LF] @ ''354 go'' @ [CR, LF],
     lc_readErr = ErrNet True ''i/o timeout'', lc_readDeadline = [], lc_writeFaults = [], lc_output = []\<rparr>"

lemma sample_transaction:
  "Status (fst (performLMTPTransaction ''t'' False sample_conn ''a@b'' ''c@d'' ''hi'' ''lda'' [])) = ''unknown''"
  by code_simp


text \<open>
  A server that answers \<open>251\<close> to the recipient command makes the client report \<open>delivered\<close> although
  the message was never sent: every reply other than 250 ends the transaction and is classified by its
  class alone.
\<close>

lemma lmtp_251_reported_delivered:
  "let (r, conn') = performLMTPTransaction ''t'' False
        (sample_conn\<lparr>lc_input := ''250 ok'' @ [CR, LF] @ ''251 will forward'' @ [CR, LF]\<rparr>) ''a@b'' ''c@d'' ''hi'' ''lda'' []
   in Status r = ''delivered'' \<and> \<not> Contains (lc_output conn') ''DATA''"
  by code_simp

end
