(* ===== verification/Limiter_Contract.thy ===== *)
theory Limiter_Contract
  imports Go_Prelude Complex_Main
begin

text \<open>
  The contract of a rate limiter, shared by the limiter of the HTTP interface and the limiter per
  recipient domain: every grant is paid from a credit, and the credit grows with the time that has
  passed at no more than a fixed rate. From it follows the bound on the grants in any stretch of time.
\<close>

text \<open>The answers to requests at the given times.\<close>

primrec answers :: "(gotime \<Rightarrow> 'b \<Rightarrow> bool \<times> 'b) \<Rightarrow> gotime list \<Rightarrow> 'b \<Rightarrow> bool list" where
  "answers allow [] b = []"
| "answers allow (t # ts) b = fst (allow t b) # answers allow ts (snd (allow t b))"

definition grants :: "bool list \<Rightarrow> nat" where
  "grants gs = length (filter (\<lambda>g. g) gs)"

lemma grants_simps [simp]: "grants [] = 0" "grants (g # gs) = of_bool g + grants gs"
  by (simp_all add: grants_def)

locale limiter =
  fixes allow :: "gotime \<Rightarrow> 'b \<Rightarrow> bool \<times> 'b"
    and credit :: "'b \<Rightarrow> rat"
    and mark :: "'b \<Rightarrow> gotime"
    and rate :: "'b \<Rightarrow> rat"
    and ok :: "'b \<Rightarrow> bool"
  assumes paid: "ok b \<Longrightarrow> mark b \<le> t \<Longrightarrow> allow t b = (g, b') \<Longrightarrow>
      credit b' + of_bool g \<le> credit b + rate b * of_int (mark b' - mark b)"
    and mark_mono: "ok b \<Longrightarrow> mark b \<le> t \<Longrightarrow> allow t b = (g, b') \<Longrightarrow> mark b \<le> mark b' \<and> mark b' \<le> t"
    and ok_step: "ok b \<Longrightarrow> mark b \<le> t \<Longrightarrow> allow t b = (g, b') \<Longrightarrow> ok b' \<and> rate b' = rate b"
    and credit_nonneg: "ok b \<Longrightarrow> 0 \<le> credit b"
    and rate_nonneg: "ok b \<Longrightarrow> 0 \<le> rate b"
begin

lemma grants_bound:
  assumes "ok b" and "sorted (mark b # ts @ [end_time])"
  shows "of_nat (grants (answers allow ts b)) \<le> credit b + rate b * of_int (end_time - mark b)"
  using assms
proof (induction ts arbitrary: b)
  case Nil
  then have "0 \<le> rate b * of_int (end_time - mark b)" by (simp add: rate_nonneg)
  with credit_nonneg [OF Nil(1)] show ?case by simp
next
  case (Cons t ts)
  obtain g b' where step: "allow t b = (g, b')" by force
  have t: "mark b \<le> t" using Cons.prems by simp
  note step_facts = ok_step [OF Cons.prems(1) t step] mark_mono [OF Cons.prems(1) t step]
  have sorted: "sorted (mark b' # ts @ [end_time])" using Cons.prems(2) step_facts by auto
  have IH: "of_nat (grants (answers allow ts b')) \<le> credit b' + rate b * of_int (end_time - mark b')"
    using Cons.IH [OF _ sorted] step_facts by simp
  have "of_nat (grants (answers allow (t # ts) b)) = of_bool g + of_nat (grants (answers allow ts b'))"
    by (simp add: step)
  also have "\<dots> \<le> credit b + rate b * of_int (mark b' - mark b) + rate b * of_int (end_time - mark b')"
    using IH paid [OF Cons.prems(1) t step] by simp
  also have "\<dots> = credit b + rate b * of_int (end_time - mark b)" by (simp add: algebra_simps)
  finally show ?case .
qed

end

end
