(* ===== verification/Domain_Limiter.thy ===== *)
theory Domain_Limiter
  imports Config Limiter_Contract
begin

text \<open>
  The rate limiter per recipient domain, from \<^verbatim>\<open>internal/delivery/delivery.go\<close>: \<open>waitForDomainRateLimit\<close>,
  \<open>isDomainWhitelisted\<close> and \<open>cleanupDomainLimiters\<close>. Tokens are exact rationals where the code has
  floating-point numbers, whose rounding is outside the model.
\<close>

section \<open>Model\<close>

text \<open>\<open>lastUpdate\<close> is \<^const>\<open>None\<close> for Go's zero time.\<close>

record domainRateLimiter =
  dl_tokens :: rat
  dl_lastUpdate :: "gotime option"

type_synonym domain_limiters = "(string \<times> domainRateLimiter) list"

definition burstOf :: "OutboundConfig \<Rightarrow> rat" where
  "burstOf cfg = (if PerDomainBurst cfg \<le> 0 then 1 else of_int (PerDomainBurst cfg))"

text \<open>Tokens per second.\<close>

definition refillRate :: "OutboundConfig \<Rightarrow> rat" where
  "refillRate cfg =
     (if PerDomainIntervalSeconds cfg > 0 then 1 / of_int (PerDomainIntervalSeconds cfg) else 1000000)"

definition seconds :: "duration \<Rightarrow> rat" where
  "seconds d = of_int d / 1000000000"

text \<open>Refill and consumption under the lock of one limiter.\<close>

definition takeToken :: "OutboundConfig \<Rightarrow> gotime \<Rightarrow> domainRateLimiter \<Rightarrow> bool \<times> domainRateLimiter" where
  "takeToken cfg now l =
     (let refilled = (case dl_lastUpdate l of
                        None \<Rightarrow> burstOf cfg
                      | Some t \<Rightarrow> min (dl_tokens l + seconds (now - t) * refillRate cfg) (burstOf cfg))
      in if refilled \<ge> 1
         then (True, l\<lparr>dl_tokens := refilled - 1, dl_lastUpdate := Some now\<rparr>)
         else (False, l\<lparr>dl_tokens := refilled, dl_lastUpdate := Some now\<rparr>))"

definition freshLimiter :: "OutboundConfig \<Rightarrow> gotime \<Rightarrow> domainRateLimiter" where
  "freshLimiter cfg now = \<lparr>dl_tokens = burstOf cfg, dl_lastUpdate = Some now\<rparr>"

text \<open>\<open>tStore\<close> is when a new limiter is made, \<open>now\<close> when the lock is held.\<close>

definition waitForDomainRateLimit ::
  "OutboundConfig \<Rightarrow> string \<Rightarrow> gotime \<Rightarrow> gotime \<Rightarrow> domain_limiters \<Rightarrow> goerror option \<times> domain_limiters" where
  "waitForDomainRateLimit cfg domain tStore now limiters =
     (let l = (case map_of limiters domain of Some l \<Rightarrow> l | None \<Rightarrow> freshLimiter cfg tStore)
      in case takeToken cfg now l of
           (granted, l') \<Rightarrow>
             (if granted then None else Some (ErrSentinel ErrDomainRateLimitExceeded),
              AList.update domain l' limiters))"

definition isDomainWhitelisted :: "OutboundConfig \<Rightarrow> string \<Rightarrow> bool" where
  "isDomainWhitelisted cfg domain =
     (if RateLimitWhitelist cfg = [] then False
      else list_ex (\<lambda>w. ToLower w = ToLower domain) (RateLimitWhitelist cfg))"

definition cleanupDomainLimiters :: "gotime \<Rightarrow> domain_limiters \<Rightarrow> domain_limiters" where
  "cleanupDomainLimiters now limiters =
     filter (\<lambda>(k, l). case dl_lastUpdate l of Some t \<Rightarrow> \<not> t < now - 10 * Minute | None \<Rightarrow> False) limiters"

section \<open>The contract\<close>

text \<open>A limiter together with the configuration it runs under.\<close>

definition dl_allow :: "gotime \<Rightarrow> OutboundConfig \<times> domainRateLimiter \<Rightarrow> bool \<times> OutboundConfig \<times> domainRateLimiter" where
  "dl_allow now s = (case takeToken (fst s) now (snd s) of (g, l) \<Rightarrow> (g, fst s, l))"

definition dl_mark :: "OutboundConfig \<times> domainRateLimiter \<Rightarrow> gotime" where
  "dl_mark s = (case dl_lastUpdate (snd s) of Some t \<Rightarrow> t | None \<Rightarrow> 0)"

definition dl_ok :: "OutboundConfig \<times> domainRateLimiter \<Rightarrow> bool" where
  "dl_ok s \<longleftrightarrow> dl_lastUpdate (snd s) \<noteq> None \<and> 0 \<le> dl_tokens (snd s) \<and> dl_tokens (snd s) \<le> burstOf (fst s)"

lemma burstOf_ge_1: "1 \<le> burstOf cfg"
  by (simp add: burstOf_def)

lemma refillRate_pos: "0 < refillRate cfg"
  by (simp add: refillRate_def)

lemma takeToken_mark: "dl_lastUpdate (snd (takeToken cfg now l)) = Some now"
  by (simp add: takeToken_def Let_def)

lemma takeToken_tokens:
  assumes "dl_lastUpdate l = Some t" and "t \<le> now" and "0 \<le> dl_tokens l"
  shows "0 \<le> dl_tokens (snd (takeToken cfg now l))" and "dl_tokens (snd (takeToken cfg now l)) \<le> burstOf cfg"
    and "dl_tokens (snd (takeToken cfg now l)) + of_bool (fst (takeToken cfg now l))
      \<le> dl_tokens l + seconds (now - t) * refillRate cfg"
proof -
  define r where "r = min (dl_tokens l + seconds (now - t) * refillRate cfg) (burstOf cfg)"
  have "0 \<le> seconds (now - t) * refillRate cfg"
    using assms(2) refillRate_pos [of cfg] by (simp add: seconds_def)
  then have r: "0 \<le> r" "r \<le> burstOf cfg" "r \<le> dl_tokens l + seconds (now - t) * refillRate cfg"
    using assms(3) burstOf_ge_1 [of cfg] by (simp_all add: r_def)
  have take: "takeToken cfg now l = (r \<ge> 1, l\<lparr>dl_tokens := r - of_bool (r \<ge> 1), dl_lastUpdate := Some now\<rparr>)"
    using assms(1) by (simp add: takeToken_def r_def Let_def)
  show "0 \<le> dl_tokens (snd (takeToken cfg now l))" "dl_tokens (snd (takeToken cfg now l)) \<le> burstOf cfg"
    "dl_tokens (snd (takeToken cfg now l)) + of_bool (fst (takeToken cfg now l))
      \<le> dl_tokens l + seconds (now - t) * refillRate cfg"
    unfolding take using r by simp_all
qed

interpretation dl: limiter dl_allow "\<lambda>s. dl_tokens (snd s)" dl_mark "\<lambda>s. refillRate (fst s) / 1000000000" dl_ok
proof
  fix s s' t g
  show "dl_ok s \<Longrightarrow> 0 \<le> dl_tokens (snd s)" by (simp add: dl_ok_def)
  show "0 \<le> refillRate (fst s) / 1000000000" using refillRate_pos [of "fst s"] by simp
  assume ok: "dl_ok s" and t: "dl_mark s \<le> t" and step: "dl_allow t s = (g, s')"
  from ok obtain t0 where t0: "dl_lastUpdate (snd s) = Some t0" by (auto simp: dl_ok_def)
  obtain l' where l': "takeToken (fst s) t (snd s) = (g, l')" "s' = (fst s, l')"
    using step by (auto simp: dl_allow_def split: prod.splits)
  have mark': "dl_lastUpdate l' = Some t" using takeToken_mark [of "fst s" t "snd s"] l' by simp
  have "t0 \<le> t" "0 \<le> dl_tokens (snd s)" using t t0 ok by (simp_all add: dl_mark_def dl_ok_def)
  note tk = takeToken_tokens [OF t0 this, of "fst s", unfolded l', simplified]
  show "dl_mark s \<le> dl_mark s' \<and> dl_mark s' \<le> t" using t mark' l' by (simp add: dl_mark_def)
  show "dl_ok s' \<and> refillRate (fst s') / 1000000000 = refillRate (fst s) / 1000000000"
    using tk mark' l' by (simp add: dl_ok_def)
  show "dl_tokens (snd s') + of_bool g
      \<le> dl_tokens (snd s) + refillRate (fst s) / 1000000000 * of_int (dl_mark s' - dl_mark s)"
    using tk(3) l' t0 mark' by (simp add: dl_mark_def seconds_def mult.commute)
qed

section \<open>Lemmas\<close>

text \<open>Deliveries to one domain at the given times: which of them the limiter lets through.\<close>

primrec domainRun :: "OutboundConfig \<Rightarrow> string \<Rightarrow> gotime list \<Rightarrow> domain_limiters \<Rightarrow> bool list" where
  "domainRun cfg domain [] ls = []"
| "domainRun cfg domain (t # ts) ls =
     (case waitForDomainRateLimit cfg domain t t ls of
        (err, ls') \<Rightarrow> (err = None) # domainRun cfg domain ts ls')"

definition limiterFor :: "OutboundConfig \<Rightarrow> string \<Rightarrow> gotime \<Rightarrow> domain_limiters \<Rightarrow> domainRateLimiter" where
  "limiterFor cfg domain t ls = (case map_of ls domain of Some l \<Rightarrow> l | None \<Rightarrow> freshLimiter cfg t)"

lemma wait_alt:
  "waitForDomainRateLimit cfg domain tStore now ls =
     (if fst (takeToken cfg now (limiterFor cfg domain tStore ls)) then None
      else Some (ErrSentinel ErrDomainRateLimitExceeded),
      AList.update domain (snd (takeToken cfg now (limiterFor cfg domain tStore ls))) ls)"
  by (simp add: waitForDomainRateLimit_def limiterFor_def case_prod_beta Let_def)

lemma domainRun_answers_Some:
  "map_of ls domain = Some l \<Longrightarrow> domainRun cfg domain ts ls = answers dl_allow ts (cfg, l)"
  by (induction ts arbitrary: ls l) (simp_all add: wait_alt limiterFor_def dl_allow_def case_prod_beta)

lemma domainRun_answers:
  "domainRun cfg domain (t # ts) ls = answers dl_allow (t # ts) (cfg, limiterFor cfg domain t ls)"
  using domainRun_answers_Some [of "snd (waitForDomainRateLimit cfg domain t t ls)" domain _ cfg ts]
  by (simp add: wait_alt dl_allow_def case_prod_beta)

lemma freshLimiter_ok: "dl_ok (cfg, freshLimiter cfg t)" "dl_mark (cfg, freshLimiter cfg t) = t"
  using burstOf_ge_1 [of cfg] by (simp_all add: dl_ok_def dl_mark_def freshLimiter_def)

section \<open>Properties\<close>


definition sample_outbound :: OutboundConfig where
  "sample_outbound = (setOutboundDefaults [] (Outbound zero_config))"

lemma sample_outbound_limits: "PerDomainIntervalSeconds sample_outbound = 2" "PerDomainBurst sample_outbound = 10"
  by (simp_all add: sample_outbound_def setOutboundDefaults_def zero_config_def default_int_def)


lemma full_after_idle:
  assumes "dl_ok (cfg, l)" and "dl_lastUpdate l = Some t" and "t < now - 10 * Minute" and "now \<le> now'"
    and "PerDomainIntervalSeconds cfg > 0" and "burstOf cfg * of_int (PerDomainIntervalSeconds cfg) \<le> 600"
  shows "takeToken cfg now' l = takeToken cfg now' (l\<lparr>dl_tokens := burstOf cfg, dl_lastUpdate := Some now'\<rparr>)"
proof -
  let ?i = "of_int (PerDomainIntervalSeconds cfg) :: rat"
  have i: "0 < ?i" using assms(5) by simp
  have "of_int (600 * 1000000000) \<le> (of_int (now' - t) :: rat)" using assms(3,4) by (intro of_int_le_iff [THEN iffD2]) simp
  then have "600 \<le> seconds (now' - t)" by (simp add: seconds_def)
  with assms(6) have "burstOf cfg * ?i \<le> seconds (now' - t)" by simp
  then have "burstOf cfg \<le> seconds (now' - t) / ?i" using i by (simp add: pos_le_divide_eq)
  then have "burstOf cfg \<le> dl_tokens l + seconds (now' - t) * refillRate cfg"
    using assms(1,5) by (simp add: dl_ok_def refillRate_def)
  then have "min (dl_tokens l + seconds (now' - t) * refillRate cfg) (burstOf cfg) = burstOf cfg" by simp
  then show ?thesis using assms(2) by (simp add: takeToken_def Let_def seconds_def)
qed

lemma map_of_cleanup:
  assumes "distinct (map fst ls)"
  shows "map_of (cleanupDomainLimiters now ls) domain =
    (case map_of ls domain of
       None \<Rightarrow> None
     | Some l \<Rightarrow> (case dl_lastUpdate l of Some t \<Rightarrow> if t < now - 10 * Minute then None else Some l | None \<Rightarrow> None))"
  using map_of_filter_distinct [OF assms, of "\<lambda>(k, l). case dl_lastUpdate l of Some t \<Rightarrow> \<not> t < now - 10 * Minute | None \<Rightarrow> False" domain]
  by (auto simp: cleanupDomainLimiters_def split: option.splits)

text \<open>
  Removing a limiter that was idle for ten minutes changes nothing if a full burst refills within ten
  minutes: the next delivery gets the same answer and leaves the same tokens.
\<close>

lemma domain_cleanup_transparent:
  assumes "distinct (map fst ls)" and "list_all (\<lambda>(k, l). dl_ok (cfg, l)) ls" and "now \<le> now'"
    and "PerDomainIntervalSeconds cfg > 0" and "burstOf cfg * of_int (PerDomainIntervalSeconds cfg) \<le> 600"
  shows "fst (waitForDomainRateLimit cfg domain now' now' (cleanupDomainLimiters now ls))
      = fst (waitForDomainRateLimit cfg domain now' now' ls)
    \<and> map_of (snd (waitForDomainRateLimit cfg domain now' now' (cleanupDomainLimiters now ls))) domain
      = map_of (snd (waitForDomainRateLimit cfg domain now' now' ls)) domain"
proof -
  let ?ls = "cleanupDomainLimiters now ls"
  have "takeToken cfg now' (limiterFor cfg domain now' ?ls) = takeToken cfg now' (limiterFor cfg domain now' ls)"
  proof (cases "map_of ls domain")
    case None
    then show ?thesis by (simp add: limiterFor_def map_of_cleanup [OF assms(1)])
  next
    case (Some l)
    have ok: "dl_ok (cfg, l)" using map_of_list_all [OF assms(2) Some] by simp
    then obtain t where t: "dl_lastUpdate l = Some t" by (auto simp: dl_ok_def)
    show ?thesis
    proof (cases "t < now - 10 * Minute")
      case True
      have "freshLimiter cfg now' = l\<lparr>dl_tokens := burstOf cfg, dl_lastUpdate := Some now'\<rparr>"
        by (simp add: freshLimiter_def)
      with full_after_idle [OF ok t True assms(3-5)] True Some t show ?thesis
        by (simp add: limiterFor_def map_of_cleanup [OF assms(1)])
    next
      case False
      with Some t show ?thesis by (simp add: limiterFor_def map_of_cleanup [OF assms(1)])
    qed
  qed
  then show ?thesis by (simp add: wait_alt)
qed

lemma domain_cleanup_transparent_witness:
  "let ls = [(''a.b'', \<lparr>dl_tokens = 0, dl_lastUpdate = Some 0\<rparr>)]; now = 11 * Minute in
   cleanupDomainLimiters now ls = []
   \<and> fst (waitForDomainRateLimit sample_outbound ''a.b'' now now (cleanupDomainLimiters now ls))
     = fst (waitForDomainRateLimit sample_outbound ''a.b'' now now ls)"
proof -
  let ?ls = "[(''a.b'', \<lparr>dl_tokens = 0, dl_lastUpdate = Some 0\<rparr>)]"
  have "list_all (\<lambda>(k, l). dl_ok (sample_outbound, l)) ?ls"
    by (simp add: dl_ok_def burstOf_def sample_outbound_limits)
  from domain_cleanup_transparent [OF _ this, of "11 * Minute" "11 * Minute" "''a.b''"] show ?thesis
    by (simp add: sample_outbound_limits burstOf_def cleanupDomainLimiters_def Let_def)
qed

text \<open>
  For slow limits the same cleanup gives tokens away: with a burst of ten and one delivery in two
  minutes, a limiter exhausted eleven minutes ago has room for five deliveries, but after the cleanup
  ten are let through at once.
\<close>

lemma domain_cleanup_leaks:
  "let cfg = sample_outbound\<lparr>PerDomainIntervalSeconds := 120\<rparr>;
       ls = [(''a.b'', \<lparr>dl_tokens = 0, dl_lastUpdate = Some 0\<rparr>)]; now = 11 * Minute; ts = replicate 10 now in
   grants (domainRun cfg ''a.b'' ts ls) = 5 \<and> grants (domainRun cfg ''a.b'' ts (cleanupDomainLimiters now ls)) = 10"
  by (simp add: Let_def eval_nat_numeral waitForDomainRateLimit_def takeToken_def freshLimiter_def burstOf_def
      sample_outbound_limits refillRate_def seconds_def cleanupDomainLimiters_def)

end
