(* ===== verification/Rate_Limiter.thy ===== *)
theory Rate_Limiter
  imports Limiter_Contract Go_Net
begin

text \<open>
  The admission control of the HTTP interface: the limiter per client address,
  \<^verbatim>\<open>internal/handler/rate_limiter.go\<close>, and the limit on concurrent requests,
  \<^verbatim>\<open>internal/handler/concurrency_middleware.go\<close>.
\<close>

section \<open>Model\<close>

text \<open>A request as far as the middleware reads it: \<open>Header.Get\<close> and the address of the peer.\<close>

record http_peer =
  HeaderGet :: "string \<Rightarrow> string"
  RemoteAddr :: string

record bucket =
  bk_tokens :: int
  bk_lastRefill :: gotime

record RateLimiter =
  rl_buckets :: "(string \<times> bucket) list"
  requestsPerIP :: int
  windowSeconds :: int
  cleanupInterval :: duration

definition NewRateLimiter :: "int \<Rightarrow> int \<Rightarrow> RateLimiter" where
  "NewRateLimiter reqs win =
     \<lparr>rl_buckets = [], requestsPerIP = reqs, windowSeconds = win, cleanupInterval = win * 2 * Second\<rparr>"

definition extractIP :: "http_peer \<Rightarrow> string" where
  "extractIP r =
     (let xff = takeWhile (\<lambda>c. c \<noteq> CHR '','' \<and> c \<noteq> CHR '' '') (HeaderGet r ''X-Forwarded-For'');
          xri = HeaderGet r ''X-Real-IP'' in
      if HeaderGet r ''X-Forwarded-For'' \<noteq> [] \<and> ParseIP xff \<noteq> None then xff
      else if xri \<noteq> [] \<and> ParseIP xri \<noteq> None then xri
      else case SplitHostPort (RemoteAddr r) of
        Inl _ \<Rightarrow> RemoteAddr r
      | Inr (host, _) \<Rightarrow> host)"

text \<open>Refill and consumption on one existing bucket.\<close>

definition takeBucket :: "int \<Rightarrow> int \<Rightarrow> gotime \<Rightarrow> bucket \<Rightarrow> bool \<times> bucket" where
  "takeBucket reqs win now b =
     (let b1 = (if now - bk_lastRefill b \<ge> win * Second
                then b\<lparr>bk_tokens := reqs, bk_lastRefill := now\<rparr> else b)
      in if bk_tokens b1 > 0 then (True, b1\<lparr>bk_tokens := bk_tokens b1 - 1\<rparr>) else (False, b1))"

definition allowIP :: "string \<Rightarrow> gotime \<Rightarrow> RateLimiter \<Rightarrow> bool \<times> RateLimiter" where
  "allowIP ip now rl =
     (if ip = [] then (True, rl)
      else case map_of (rl_buckets rl) ip of
        None \<Rightarrow>
          (True, rl\<lparr>rl_buckets := AList.update ip
             \<lparr>bk_tokens = requestsPerIP rl - 1, bk_lastRefill = now\<rparr> (rl_buckets rl)\<rparr>)
      | Some b \<Rightarrow>
          (case takeBucket (requestsPerIP rl) (windowSeconds rl) now b of
             (g, b') \<Rightarrow> (g, rl\<lparr>rl_buckets := AList.update ip b' (rl_buckets rl)\<rparr>)))"

definition Allow :: "http_peer \<Rightarrow> gotime \<Rightarrow> RateLimiter \<Rightarrow> bool \<times> RateLimiter" where
  "Allow r now rl = allowIP (extractIP r) now rl"

text \<open>A middleware either answers itself, with a status and a body, or passes the request on.\<close>

datatype middleware_answer = Respond int string | Pass

definition RateLimit_Middleware :: "http_peer \<Rightarrow> gotime \<Rightarrow> RateLimiter \<Rightarrow> middleware_answer \<times> RateLimiter" where
  "RateLimit_Middleware r now rl =
     (case Allow r now rl of
        (False, rl') \<Rightarrow> (Respond 429 ''API Rate Limit Exceeded'', rl')
      | (True, rl') \<Rightarrow> (Pass, rl'))"

definition rl_cleanup :: "gotime \<Rightarrow> RateLimiter \<Rightarrow> RateLimiter" where
  "rl_cleanup now rl =
     rl\<lparr>rl_buckets := filter (\<lambda>(ip, b). \<not> now - bk_lastRefill b > cleanupInterval rl) (rl_buckets rl)\<rparr>"

text \<open>
  The concurrency limit: a counting semaphore, acquired without waiting and released when the handler
  returns.
\<close>

record semaphore =
  sem_used :: nat
  sem_size :: nat
  sem_running :: "nat list"

datatype sem_event = Arrive nat | Finish nat

fun sem_step :: "semaphore \<Rightarrow> sem_event \<Rightarrow> semaphore" where
  "sem_step s (Arrive r) =
     (if sem_used s < sem_size s then s\<lparr>sem_used := Suc (sem_used s), sem_running := r # sem_running s\<rparr> else s)"
| "sem_step s (Finish r) =
     (if r \<in> set (sem_running s) then s\<lparr>sem_used := sem_used s - 1, sem_running := remove1 r (sem_running s)\<rparr> else s)"

definition ConcurrencyLimitMiddleware :: "int \<Rightarrow> semaphore \<Rightarrow> middleware_answer" where
  "ConcurrencyLimitMiddleware maxConcurrent s =
     (if maxConcurrent \<le> 0 then Pass
      else if sem_used s < sem_size s then Pass
      else Respond 503 ''Server at capacity, try again later'')"

definition newSemaphore :: "int \<Rightarrow> semaphore" where
  "newSemaphore maxConcurrent = \<lparr>sem_used = 0, sem_size = nat maxConcurrent, sem_running = []\<rparr>"

section \<open>The contract\<close>

text \<open>A bucket with the limits it runs under: requests, window.\<close>

type_synonym limited_bucket = "int \<times> int \<times> bucket"

definition rl_allow :: "gotime \<Rightarrow> limited_bucket \<Rightarrow> bool \<times> limited_bucket" where
  "rl_allow now s =
     (case s of (reqs, win, b) \<Rightarrow> case takeBucket reqs win now b of (g, b') \<Rightarrow> (g, reqs, win, b'))"

definition rl_ok :: "limited_bucket \<Rightarrow> bool" where
  "rl_ok s = (case s of (reqs, win, b) \<Rightarrow> 0 < reqs \<and> 0 < win \<and> 0 \<le> bk_tokens b \<and> bk_tokens b \<le> reqs)"

definition rl_rate :: "limited_bucket \<Rightarrow> rat" where
  "rl_rate s = (case s of (reqs, win, b) \<Rightarrow> of_int reqs / of_int (win * Second))"

lemma window_credit:
  assumes "0 < reqs" and "0 < win" and "win * Second \<le> now - t"
  shows "(of_int reqs :: rat) \<le> of_int reqs / of_int (win * Second) * of_int (now - t)"
proof -
  let ?w = "of_int (win * Second) :: rat"
  have w: "0 < ?w" using assms(2) by simp
  have "?w \<le> of_int (now - t)" using assms(3) by (simp only: of_int_le_iff)
  then have "of_int reqs * ?w \<le> of_int reqs * of_int (now - t)" using assms(1) by (intro mult_left_mono) simp_all
  then show ?thesis using w by (simp add: pos_le_divide_eq)
qed

interpretation rl: limiter rl_allow "\<lambda>s. of_int (bk_tokens (snd (snd s)))" "\<lambda>s. bk_lastRefill (snd (snd s))" rl_rate rl_ok
proof
  fix s s' t g
  show "rl_ok s \<Longrightarrow> (0::rat) \<le> of_int (bk_tokens (snd (snd s)))" by (auto simp: rl_ok_def)
  show "rl_ok s \<Longrightarrow> 0 \<le> rl_rate s" by (auto simp: rl_ok_def rl_rate_def)
  assume ok: "rl_ok s" and t: "bk_lastRefill (snd (snd s)) \<le> t" and step: "rl_allow t s = (g, s')"
  obtain reqs win b where s: "s = (reqs, win, b)" by (cases s)
  obtain b' where b': "takeBucket reqs win t b = (g, b')" "s' = (reqs, win, b')"
    using step s by (auto simp: rl_allow_def split: prod.splits)
  have lim: "0 < reqs" "0 < win" "0 \<le> bk_tokens b" "bk_tokens b \<le> reqs" using ok s by (auto simp: rl_ok_def)
  show "bk_lastRefill (snd (snd s)) \<le> bk_lastRefill (snd (snd s')) \<and> bk_lastRefill (snd (snd s')) \<le> t"
    using b' s t by (auto simp: takeBucket_def Let_def split: if_splits)
  show "rl_ok s' \<and> rl_rate s' = rl_rate s"
    using b' s lim by (auto simp: takeBucket_def rl_ok_def rl_rate_def Let_def split: if_splits)
  show "of_int (bk_tokens (snd (snd s'))) + of_bool g
      \<le> of_int (bk_tokens (snd (snd s))) + rl_rate s * of_int (bk_lastRefill (snd (snd s')) - bk_lastRefill (snd (snd s)))"
  proof (cases "t - bk_lastRefill b \<ge> win * Second")
    case True
    then have "bk_lastRefill b' = t" "bk_tokens b' + of_bool g = reqs"
      using b' lim(1) by (auto simp: takeBucket_def Let_def)
    moreover from this(2) have "of_int (bk_tokens b') + of_bool g = (of_int reqs :: rat)" by (cases g) auto
    moreover have "(of_int reqs :: rat) \<le> rl_rate s * of_int (t - bk_lastRefill b)"
      using window_credit [OF lim(1,2) True] s by (simp add: rl_rate_def)
    moreover have "(0::rat) \<le> of_int (bk_tokens b)" using lim(3) by simp
    ultimately show ?thesis using s b'(2) by simp
  next
    case False
    then have "bk_lastRefill b' = bk_lastRefill b" "bk_tokens b' + of_bool g = bk_tokens b"
      using b' by (auto simp: takeBucket_def Let_def split: if_splits)
    then show ?thesis using s b'(2) by (cases g) auto
  qed
qed

section \<open>Lemmas\<close>

primrec ipRun :: "string \<Rightarrow> gotime list \<Rightarrow> RateLimiter \<Rightarrow> bool list" where
  "ipRun ip [] rl = []"
| "ipRun ip (t # ts) rl = (case allowIP ip t rl of (g, rl') \<Rightarrow> g # ipRun ip ts rl')"

lemma allowIP_limits [simp]:
  "requestsPerIP (snd (allowIP ip t rl)) = requestsPerIP rl" "windowSeconds (snd (allowIP ip t rl)) = windowSeconds rl"
  by (simp_all add: allowIP_def case_prod_beta split: option.split)

lemma ipRun_answers:
  "ip \<noteq> [] \<Longrightarrow> map_of (rl_buckets rl) ip = Some b \<Longrightarrow>
     ipRun ip ts rl = answers rl_allow ts (requestsPerIP rl, windowSeconds rl, b)"
  by (induction ts arbitrary: rl b) (simp_all add: allowIP_def rl_allow_def case_prod_beta)

definition sem_inv :: "semaphore \<Rightarrow> bool" where
  "sem_inv s \<longleftrightarrow> sem_used s = length (sem_running s) \<and> sem_used s \<le> sem_size s"

lemma sem_step_inv: "sem_inv s \<Longrightarrow> sem_inv (sem_step s e)"
  by (cases e) (auto simp: sem_inv_def length_remove1)

interpretation sem: machine sem_step sem_inv
  by unfold_locales (rule sem_step_inv)

lemma sem_size_step: "sem_size (sem_step s e) = sem_size s"
  by (cases e) simp_all

lemma sem_size_run: "sem_size (foldl sem_step s es) = sem_size s"
  by (induction es arbitrary: s) (simp_all add: sem_size_step)

section \<open>Properties\<close>

text \<open>
  C37. The requests of one client address are bounded: for an address not seen before, of the requests at
  any times from \<open>t\<close> to \<open>t'\<close> at most the configured number and as many again per elapsed window are
  let through.
\<close>

theorem http_rate_bound:
  assumes "ip \<noteq> []" and "map_of (rl_buckets rl) ip = None" and "0 < requestsPerIP rl" and "0 < windowSeconds rl"
    and "sorted (t # ts @ [t'])"
  shows "of_nat (grants (ipRun ip (t # ts) rl))
    \<le> of_int (requestsPerIP rl) * (1 + of_int (t' - t) / of_int (windowSeconds rl * Second) :: rat)"
proof -
  let ?b = "\<lparr>bk_tokens = requestsPerIP rl - 1, bk_lastRefill = t\<rparr>"
  let ?s = "(requestsPerIP rl, windowSeconds rl, ?b)"
  have run: "ipRun ip (t # ts) rl = True # answers rl_allow ts ?s"
    using assms(1,2) ipRun_answers [OF assms(1), of "snd (allowIP ip t rl)" ?b ts]
    by (simp add: allowIP_def)
  have "rl_ok ?s" using assms(3,4) by (simp add: rl_ok_def)
  from rl.grants_bound [OF this, of ts t'] assms(5)
  have "of_nat (grants (answers rl_allow ts ?s)) \<le> of_int (requestsPerIP rl - 1) + rl_rate ?s * of_int (t' - t)"
    by simp
  then show ?thesis unfolding run by (simp add: rl_rate_def algebra_simps)
qed

theorem http_rate_bound_witness:
  "of_nat (grants (ipRun ''192.0.2.9'' [0, 0, 0] (NewRateLimiter 2 60))) \<le> (2 :: rat)"
  using http_rate_bound [of "''192.0.2.9''" "NewRateLimiter 2 60" 0 "[0, 0]" 0]
  by (simp add: NewRateLimiter_def)

text \<open>
  Forgetting idle clients is invisible: a request after the cleanup gets the answer, and leaves the
  bucket, it would have without it.
\<close>

lemma http_cleanup_transparent:
  assumes "distinct (map fst (rl_buckets rl))" and "0 < requestsPerIP rl" and "0 < windowSeconds rl"
    and "cleanupInterval rl = windowSeconds rl * 2 * Second" and "now \<le> now'" and "ip \<noteq> []"
  shows "fst (allowIP ip now' (rl_cleanup now rl)) = fst (allowIP ip now' rl)
    \<and> map_of (rl_buckets (snd (allowIP ip now' (rl_cleanup now rl)))) ip
      = map_of (rl_buckets (snd (allowIP ip now' rl))) ip"
proof (cases "map_of (rl_buckets rl) ip")
  case None
  then show ?thesis
    using map_of_filter_distinct [OF assms(1), of "\<lambda>(ip, b). \<not> now - bk_lastRefill b > cleanupInterval rl" ip] assms(6)
    by (simp add: allowIP_def rl_cleanup_def)
next
  case (Some b)
  have found: "map_of (rl_buckets (rl_cleanup now rl)) ip = (if now - bk_lastRefill b > cleanupInterval rl then None else Some b)"
    using map_of_filter_distinct [OF assms(1), of "\<lambda>(ip, b). \<not> now - bk_lastRefill b > cleanupInterval rl" ip] Some
    by (simp add: rl_cleanup_def)
  have limits: "requestsPerIP (rl_cleanup now rl) = requestsPerIP rl" "windowSeconds (rl_cleanup now rl) = windowSeconds rl"
    by (simp_all add: rl_cleanup_def)
  show ?thesis
  proof (cases "now - bk_lastRefill b > cleanupInterval rl")
    case True
    then have "windowSeconds rl * Second \<le> now' - bk_lastRefill b" using assms(3-5) by simp
    then have "takeBucket (requestsPerIP rl) (windowSeconds rl) now' b =
        (True, \<lparr>bk_tokens = requestsPerIP rl - 1, bk_lastRefill = now'\<rparr>)"
      using assms(2) by (simp add: takeBucket_def Let_def)
    with True Some found assms(6) show ?thesis by (simp add: allowIP_def limits)
  next
    case False
    with Some found assms(6) show ?thesis by (simp add: allowIP_def limits case_prod_beta)
  qed
qed

lemma http_cleanup_transparent_witness:
  "let rl = (NewRateLimiter 2 60)\<lparr>rl_buckets := [(''192.0.2.9'', \<lparr>bk_tokens = 0, bk_lastRefill = 0\<rparr>)]\<rparr>
   in rl_buckets (rl_cleanup (121 * Second) rl) = []
      \<and> fst (allowIP ''192.0.2.9'' (121 * Second) (rl_cleanup (121 * Second) rl))
        = fst (allowIP ''192.0.2.9'' (121 * Second) rl)"
  using http_cleanup_transparent
    [of "(NewRateLimiter 2 60)\<lparr>rl_buckets := [(''192.0.2.9'', \<lparr>bk_tokens = 0, bk_lastRefill = 0\<rparr>)]\<rparr>"
      "121 * Second" "121 * Second" "''192.0.2.9''"]
  by (simp add: NewRateLimiter_def rl_cleanup_def Let_def)



end
