(* ===== verification/Go_Mime.thy ===== *)
theory Go_Mime
  imports Go_Prelude
begin

text \<open>
  What strela uses of Go's \<^verbatim>\<open>net/textproto\<close>: the reading of a message header. Lines end with LF, with
  an optional CR before it; continuation lines are joined with one space; reading stops at the blank
  line, at the end, or at the first malformed line, with the fields read so far.
\<close>

text \<open>The lines of a text up to the first blank one; a last line without line feed counts.\<close>

function headerLines :: "string \<Rightarrow> string list" where
  "headerLines msg =
     (if msg = [] then []
      else case IndexByte msg LF of
        None \<Rightarrow> [TrimSuffix msg [CR]]
      | Some i \<Rightarrow>
          let line = TrimSuffix (take i msg) [CR] in
          if line = [] then [] else line # headerLines (drop (Suc i) msg))"
  by pat_completeness auto
termination
proof (relation "measure length", goal_cases)
  case 1
  show ?case by simp
next
  case (2 msg i)
  then show ?case using IndexByte_Some [of msg LF i] by auto
qed

declare headerLines.simps [simp del]

definition is_blank :: "char \<Rightarrow> bool" where
  "is_blank c \<longleftrightarrow> c = CHR '' '' \<or> c = CHR 0x09"

definition trimBlanks :: "string \<Rightarrow> string" where
  "trimBlanks s = trim_right_by is_blank (trim_left_by is_blank s)"

text \<open>A line with the continuation lines that follow it.\<close>

fun unfoldLines :: "string list \<Rightarrow> string list" where
  "unfoldLines [] = []"
| "unfoldLines (l # ls) =
     (let cont = takeWhile (\<lambda>x. x \<noteq> [] \<and> is_blank (hd x)) ls in
      Join (map trimBlanks (l # cont)) '' '' # unfoldLines (drop (length cont) ls))"

definition tokenChar :: "char \<Rightarrow> bool" where
  "tokenChar c \<longleftrightarrow> c \<in> set ''!#$%&*+-.^_`|~'' \<or> c = CHR 0x27 \<or> is_digit c
     \<or> (65::nat) \<le> of_char c \<and> of_char c \<le> (90::nat) \<or> (97::nat) \<le> of_char c \<and> of_char c \<le> (122::nat)"

definition validValueChar :: "char \<Rightarrow> bool" where
  "validValueChar c \<longleftrightarrow> c = CHR 0x09 \<or> (32::nat) \<le> of_char c \<and> (of_char c :: nat) \<noteq> 127"

fun parseFields :: "string list \<Rightarrow> (string \<times> string) list" where
  "parseFields [] = []"
| "parseFields (l # ls) =
     (case IndexByte l CHR '':'' of
        None \<Rightarrow> []
      | Some i \<Rightarrow>
          let k = take i l; v = drop (Suc i) l in
          if \<not> list_all tokenChar k \<or> \<not> list_all validValueChar v then []
          else if k = [] then parseFields ls
          else (k, trim_left_by is_blank v) # parseFields ls)"

definition ReadMIMEHeader :: "string \<Rightarrow> (string \<times> string) list" where
  "ReadMIMEHeader msg =
     (let ls = headerLines msg in
      if ls \<noteq> [] \<and> is_blank (hd (hd ls)) then [] else parseFields (unfoldLines ls))"

text \<open>\<open>Header.Get\<close>: the first value of a field, whatever the case of its name, empty if there is none.\<close>

definition mimeGet :: "(string \<times> string) list \<Rightarrow> string \<Rightarrow> string" where
  "mimeGet hdr name = (case find (\<lambda>(k, v). EqualFold k name) hdr of Some (k, v) \<Rightarrow> v | None \<Rightarrow> [])"

end
