(* ===== verification/SMTP_Attempt.thy ===== *)
theory SMTP_Attempt
  imports LMTP Config Connection_Pool Sender_Rewriting Go_Net Go_Mime
begin

text \<open>
  One delivery attempt of \<^verbatim>\<open>internal/delivery/delivery.go\<close>: choice of the target address, dialling and
  handshake, the SMTP transaction on a pooled or a fresh connection, the LMTP transaction, and the
  mapping of errors to results. The SMTP client library, the network and the context are scripts: records
  of what each call of them returns. The transport state holds the connection pool, the sender
  rewriting and, as history, every message that was transmitted to its end.
\<close>

section \<open>Errors and results\<close>

definition isFinalResult :: "string \<Rightarrow> bool" where
  "isFinalResult status \<longleftrightarrow> status \<in> set [''delivered'', ''hard_bounce'', ''temp_fail'', ''unknown'']"

definition normalizeReply :: "string \<Rightarrow> string" where
  "normalizeReply s = ReplaceAll s [LF] '' ''"

fun categoryStatus :: "ErrorCategory \<Rightarrow> string" where
  "categoryStatus ErrorPermanent = ''hard_bounce''"
| "categoryStatus ErrorTemporary = ''temp_fail''"
| "categoryStatus ErrorGreylist = ''temp_fail''"
| "categoryStatus ErrorThrottled = ''temp_fail''"
| "categoryStatus ErrorNetwork = ''timeout''"
| "categoryStatus ErrorReputation = ''temp_fail''"
| "categoryStatus _ = ''error''"

definition mapSMTPError :: "string \<Rightarrow> goerror \<Rightarrow> string \<Rightarrow> string \<Rightarrow> DeliveryResult" where
  "mapSMTPError traceID err mxHost sourceIP =
     (let (smtpCode, smtpMessage) =
            (case errors_as_smtp err of Some (c, m) \<Rightarrow> (c, normalizeReply m) | None \<Rightarrow> (0, []));
          res = (mkResult traceID [] mxHost sourceIP [])\<lparr>SMTPCode := smtpCode, SMTPMessage := smtpMessage\<rparr>
      in if smtpCode = 0 \<and> errors_as_indeterminate err
         then res\<lparr>Status := ''unknown'',
                  ResError := ''Delivery outcome unknown (message fully sent, no acknowledgement): '' @ err_text err\<rparr>
         else case ClassifyError smtpCode smtpMessage sourceIP (Some err) of
           None \<Rightarrow>
             res\<lparr>Status := ''error'',
                 ResError := ''Inconsistent state: error with success SMTP code '' @ Itoa smtpCode @ '': '' @ err_text err\<rparr>
         | Some classified \<Rightarrow>
             let res1 = res\<lparr>ResError := DE_Message classified, classifiedErr := Some classified\<rparr> in
             if smtpCode > 0
             then res1\<lparr>Status := (if smtpCode \<ge> 500 then ''hard_bounce'' else ''temp_fail'')\<rparr>
             else res1\<lparr>Status := (if isBindError (Some err) then ''error'' else categoryStatus (Category classified))\<rparr>)"

section \<open>Timeouts\<close>

definition minSMTPTimeout :: duration where
  "minSMTPTimeout = 5 * Second"

definition dataTerminationTimeout :: "duration option \<Rightarrow> OutboundConfig \<Rightarrow> duration \<Rightarrow> duration" where
  "dataTerminationTimeout remaining cfg fallback =
     (let timeout = (if DataTerminationTimeoutSeconds cfg > 0 then DataTerminationTimeoutSeconds cfg * Second
                     else fallback)
      in case remaining of
           Some left \<Rightarrow> min timeout (max left minSMTPTimeout)
         | None \<Rightarrow> timeout)"

text \<open>
  The command timeout of a client for a transaction: reset to the configured value on a reused client,
  then tightened to the time left.
\<close>

definition commandTimeout :: "bool \<Rightarrow> OutboundConfig \<Rightarrow> duration option \<Rightarrow> duration \<Rightarrow> duration" where
  "commandTimeout reused cfg remaining current =
     (let t = (if reused \<and> SMTPTimeoutSeconds cfg > 0 then SMTPTimeoutSeconds cfg * Second else current)
      in case remaining of
           Some left \<Rightarrow> (if left > minSMTPTimeout \<and> left < t then left else t)
         | None \<Rightarrow> t)"

text \<open>
  Banner, handshake and delivery timeouts, scaled down together if the time left is less than their sum.
  The code scales in floating point and truncates; here the quotients are exact before truncation.
\<close>

definition scaleTimeout :: "duration \<Rightarrow> duration \<Rightarrow> duration \<Rightarrow> duration" where
  "scaleTimeout remaining totalDesired desired = desired * remaining div totalDesired"

definition phasedTimeouts :: "OutboundConfig \<Rightarrow> duration option \<Rightarrow> duration \<times> duration \<times> duration" where
  "phasedTimeouts cfg remaining =
     (let banner = BannerTimeoutSeconds cfg * Second;
          handshake = HandshakeTimeoutSeconds cfg * Second;
          delivery = SMTPTimeoutSeconds cfg * Second;
          totalDesired = banner + handshake + delivery
      in case remaining of
           Some left \<Rightarrow>
             if left < totalDesired
             then (scaleTimeout left totalDesired banner, scaleTimeout left totalDesired handshake, scaleTimeout left totalDesired delivery)
             else (banner, handshake, delivery)
         | None \<Rightarrow> (banner, handshake, delivery))"

section \<open>Messages\<close>

definition isAutoReply :: "string \<Rightarrow> bool" where
  "isAutoReply msg =
     (let hdr = ReadMIMEHeader msg in
      if hdr = [] then False
      else if HasPrefix (ToLower (TrimSpace (mimeGet hdr ''Auto-Submitted''))) ''auto-replied'' then True
      else EqualFold (TrimSpace (mimeGet hdr ''X-Auto-Response-Suppress'')) ''all'')"

definition extractHeaders :: "string \<Rightarrow> string" where
  "extractHeaders msg =
     (let sep = (case Index msg [CR, LF, CR, LF] of
                   Some i \<Rightarrow> i
                 | None \<Rightarrow> (case Index msg [LF, LF] of Some i \<Rightarrow> i | None \<Rightarrow> length msg))
      in take (min sep 2048) msg)"

section \<open>Transport state\<close>

text \<open>
  A message transmitted to its end, and the answer to it: the code of the reply, or none if no reply
  arrived.
\<close>

datatype transmission =
  Transmission (tx_mx: string) (tx_ip: string) (tx_from: string) (tx_to: string) (tx_msg: string)
    (tx_reply: "int option")

record transport =
  tp_pool :: ConnectionPool
  tp_srs :: "SRS option"
  tp_cmdTimeout :: "client \<Rightarrow> duration"
  tp_subTimeout :: "client \<Rightarrow> duration"
  tp_sent :: "transmission list"

text \<open>
  What the SMTP client and the context answer in one transaction. \<open>ctxAt\<close> gives the context error at
  the three checks before the commands; \<open>stopped\<close> is whether the hook that closes the connection when
  the context ends was removed in time, \<open>ctxErrEnd\<close> the context error otherwise.
\<close>

record smtp_script =
  ctxEndedStart :: bool
  remainingStart :: "duration option"
  srsUnix :: nat
  hasSMTPUTF8 :: bool
  ctxMail :: "sentinel option"
  replyMail :: "string \<Rightarrow> bool \<Rightarrow> goerror option"
  ctxRcpt :: "sentinel option"
  replyRcpt :: "string \<Rightarrow> goerror option"
  ctxData :: "sentinel option"
  replyData :: "goerror + bool"
  writeBody :: "string \<Rightarrow> goerror option"
  remainingData :: "duration option"
  replyEnd :: "goerror + string"
  hookStopped :: bool
  ctxErrEnd :: sentinel
  replyReset :: "goerror option"
  putAt :: gotime

definition closeClient :: "client \<Rightarrow> transport \<Rightarrow> transport" where
  "closeClient c tp = tp\<lparr>tp_pool := closeClients [c] (tp_pool tp)\<rparr>"

section \<open>SMTP transaction\<close>

definition shouldSkipSRS :: "SRS \<Rightarrow> string \<Rightarrow> string \<Rightarrow> string option \<Rightarrow> bool \<times> string" where
  "shouldSkipSRS s from to inboundDKIM =
     ShouldSkip s from to (case inboundDKIM of Some r \<Rightarrow> r | None \<Rightarrow> [])"

text \<open>The envelope sender after sender rewriting.\<close>

definition envelopeSender ::
  "nat \<Rightarrow> string \<Rightarrow> string \<Rightarrow> string \<Rightarrow> string option \<Rightarrow> SRS option \<Rightarrow> string \<times> SRS option" where
  "envelopeSender unix from to msg inboundDKIM srs =
     (case srs of
        None \<Rightarrow> (from, None)
      | Some s \<Rightarrow>
          if isAutoReply msg then (from, Some s)
          else if fst (shouldSkipSRS s from to inboundDKIM) then (from, Some s)
          else case Forward s unix from of
            (Inr rewritten, s') \<Rightarrow> (rewritten, Some s')
          | (Inl _, s') \<Rightarrow> (from, Some s'))"

definition endReply :: "goerror + string \<Rightarrow> int option" where
  "endReply r = (case r of Inr _ \<Rightarrow> Some 250 | Inl e \<Rightarrow> map_option fst (errors_as_smtp e))"

text \<open>
  After the message was written: the end of data and its reply. From here on the message has been
  transmitted as a whole.
\<close>

definition finishData ::
  "smtp_script \<Rightarrow> OutboundConfig \<Rightarrow> client \<Rightarrow> string \<Rightarrow> string \<Rightarrow> string \<Rightarrow> string \<Rightarrow> string \<Rightarrow> transport
     \<Rightarrow> (goerror + string) \<times> transport" where
  "finishData sc cfg c mxHost sourceIP mailFrom to data tp =
     (let timeout = dataTerminationTimeout (remainingData sc) cfg (tp_subTimeout tp c);
          tp1 = tp\<lparr>tp_subTimeout := (tp_subTimeout tp)(c := timeout),
                   tp_sent := tp_sent tp @ [Transmission mxHost sourceIP mailFrom to data (endReply (replyEnd sc))]\<rparr>
      in case replyEnd sc of
           Inl err \<Rightarrow> (Inl (ErrIndeterminate err), tp1)
         | Inr statusText \<Rightarrow> (Inr (normalizeReply statusText), tp1))"

definition deliverPayload ::
  "smtp_script \<Rightarrow> OutboundConfig \<Rightarrow> client \<Rightarrow> string \<Rightarrow> string \<Rightarrow> string \<Rightarrow> string \<Rightarrow> string \<Rightarrow> string option
     \<Rightarrow> transport \<Rightarrow> (goerror + string) \<times> transport" where
  "deliverPayload sc cfg c mxHost sourceIP from0 to0 msg inboundDKIM tp0 =
     (let from = stripAngleBrackets from0; to = stripAngleBrackets to0;
          (mailFrom, srs) = envelopeSender (srsUnix sc) from to msg inboundDKIM (tp_srs tp0);
          tp = tp0\<lparr>tp_srs := srs\<rparr>;
          utf8 = ((needsUTF8Address mailFrom \<or> needsUTF8Address to) \<and> hasSMTPUTF8 sc)
      in case ctxMail sc of Some e \<Rightarrow> (Inl (wrapErr ''context cancelled before MAIL FROM: '' (ErrSentinel e)), tp) | None \<Rightarrow>
         case replyMail sc mailFrom utf8 of Some e \<Rightarrow> (Inl e, tp) | None \<Rightarrow>
         case ctxRcpt sc of Some e \<Rightarrow> (Inl (wrapErr ''context cancelled before RCPT TO: '' (ErrSentinel e)), tp) | None \<Rightarrow>
         case replyRcpt sc to of Some e \<Rightarrow> (Inl e, tp) | None \<Rightarrow>
         case ctxData sc of Some e \<Rightarrow> (Inl (wrapErr ''context cancelled before DATA: '' (ErrSentinel e)), tp) | None \<Rightarrow>
         let data = ''X-Envelope-To: '' @ to @ [CR, LF] @ msg in
         case replyData sc of
           Inl e \<Rightarrow> (Inl e, tp)
         | Inr writer \<Rightarrow>
             if \<not> writer then (Inl (ErrText ''DATA command returned nil writer''), tp)
             else case writeBody sc data of
               Some e \<Rightarrow> (Inl e, tp)
             | None \<Rightarrow> finishData sc cfg c mxHost sourceIP mailFrom to data tp)"

text \<open>The error of a transaction whose connection the end of the context has closed.\<close>

definition closingError :: "smtp_script \<Rightarrow> goerror \<Rightarrow> goerror" where
  "closingError sc err =
     (if hookStopped sc then err
      else ErrWrap (sentinel_text (ctxErrEnd sc) @ '' (connection closed: '' @ err_text err @ '')'')
             [ErrSentinel (ctxErrEnd sc), err])"

text \<open>The result of a transaction, and what becomes of its client: back in the pool or closed.\<close>

definition concludeTransaction ::
  "smtp_script \<Rightarrow> string \<Rightarrow> client \<Rightarrow> string \<Rightarrow> string \<Rightarrow> (goerror + string) \<times> transport
     \<Rightarrow> DeliveryResult \<times> transport" where
  "concludeTransaction sc traceID c mxHost sourceIP payload =
     (case payload of
        (Inl err, tp) \<Rightarrow> (mapSMTPError traceID (closingError sc err) mxHost sourceIP, closeClient c tp)
      | (Inr smtpMsg, tp) \<Rightarrow>
          ((mkResult traceID ''delivered'' mxHost sourceIP [])\<lparr>SMTPCode := 250, SMTPMessage := smtpMsg\<rparr>,
           if hookStopped sc \<and> replyReset sc = None
           then tp\<lparr>tp_pool := Put (Some c) mxHost sourceIP (putAt sc) (tp_pool tp)\<rparr>
           else closeClient c tp))"

definition tightenTimeout :: "smtp_script \<Rightarrow> OutboundConfig \<Rightarrow> client \<Rightarrow> bool \<Rightarrow> transport \<Rightarrow> transport" where
  "tightenTimeout sc cfg c reused tp =
     tp\<lparr>tp_cmdTimeout := (tp_cmdTimeout tp)
         (c := commandTimeout reused cfg (remainingStart sc) (tp_cmdTimeout tp c))\<rparr>"

definition performDeliveryTransaction ::
  "smtp_script \<Rightarrow> OutboundConfig \<Rightarrow> string \<Rightarrow> client \<Rightarrow> string \<Rightarrow> string \<Rightarrow> string \<Rightarrow> string \<Rightarrow> string \<Rightarrow> bool
     \<Rightarrow> string option \<Rightarrow> transport \<Rightarrow> DeliveryResult \<times> transport" where
  "performDeliveryTransaction sc cfg traceID c from to msg mxHost sourceIP reused inboundDKIM tp =
     (if ctxEndedStart sc
      then (mkResult traceID ''timeout'' mxHost sourceIP ''context cancelled before delivery transaction'',
            closeClient c tp)
      else concludeTransaction sc traceID c mxHost sourceIP
             (deliverPayload sc cfg c mxHost sourceIP from to msg inboundDKIM (tightenTimeout sc cfg c reused tp)))"

section \<open>Dialling and handshake\<close>

text \<open>
  The scan of the addresses of a host: the first of the wanted family, and the first other one. The
  empty string stands for none, as in the code.
\<close>

fun scanTargets :: "bool \<Rightarrow> string list \<Rightarrow> string \<Rightarrow> string \<times> string" where
  "scanTargets wantIPv6 [] fallback = ([], fallback)"
| "scanTargets wantIPv6 (ip # ips) fallback =
     (case ParseIP ip of
        None \<Rightarrow> scanTargets wantIPv6 ips fallback
      | Some parsed \<Rightarrow>
          if wantIPv6 = (To4 parsed = None) then (ip, fallback)
          else scanTargets wantIPv6 ips (if fallback = [] then ip else fallback))"

definition wantsIPv6 :: "string \<Rightarrow> bool \<Rightarrow> bool" where
  "wantsIPv6 sourceIP preferIPv6 =
     (if sourceIP \<noteq> [] then (case ParseIP sourceIP of Some p \<Rightarrow> To4 p = None | None \<Rightarrow> False) else preferIPv6)"

definition selectTargetIP ::
  "string \<Rightarrow> string \<Rightarrow> string list \<Rightarrow> string \<Rightarrow> bool \<Rightarrow> (DeliveryResult \<times> goerror) + string" where
  "selectTargetIP traceID mxHost mxIPs sourceIP preferIPv6 =
     (let want = wantsIPv6 sourceIP preferIPv6;
          (target0, fallback) = scanTargets want mxIPs [];
          target = (if target0 = [] \<and> sourceIP = [] \<and> fallback \<noteq> [] then fallback else target0)
      in if target \<noteq> [] then Inr target
         else if mxIPs \<noteq> []
         then Inl (mkResult traceID ''error'' mxHost sourceIP
                     (''MX host has no '' @ (if want then ''IPv6'' else ''IPv4'') @ '' addresses''),
                   ErrText ''no matching IP version'')
         else Inl (mkResult traceID ''temp_fail'' mxHost sourceIP ''No IP addresses resolved for MX host'',
                   ErrText ''no IP''))"

definition fixedDestination :: "OutboundConfig \<Rightarrow> string \<Rightarrow> string" where
  "fixedDestination cfg protocol =
     (if protocol = ProtocolLMTP then DefaultLMTPDestination cfg else DefaultSMTPDestination cfg)"

definition invalidDestination :: "string \<Rightarrow> string \<Rightarrow> goerror \<Rightarrow> string" where
  "invalidDestination protocol dest err =
     ''Invalid '' @ protocol @ '' destination '' @ quoted dest @ '': '' @ err_text err"

definition targetPort :: "OutboundConfig \<Rightarrow> string \<Rightarrow> goerror + string" where
  "targetPort cfg protocol =
     (let port = Itoa (if protocol = ProtocolLMTP then LMTPPort cfg else SMTPPort cfg);
          fixed = fixedDestination cfg protocol
      in if fixed = [] then Inr port
         else case SplitHostPort fixed of Inl err \<Rightarrow> Inl err | Inr (_, port') \<Rightarrow> Inr port')"

definition connectionTimeout :: "OutboundConfig \<Rightarrow> duration option \<Rightarrow> duration" where
  "connectionTimeout cfg remaining =
     (let t = ConnectionTimeoutSeconds cfg * Second in
      case remaining of Some left \<Rightarrow> (if left < t then left else t) | None \<Rightarrow> t)"

text \<open>
  What the network and the client library answer while a connection is set up: the dial for a local
  and a remote address and a timeout, TLS and greeting calls, the peer of an LMTP connection, and the
  context: \<open>ctxErrShake\<close> is its error when the deadline is found to have passed, \<open>ctxDone\<close> the error
  with which it ends before the handshake does.
\<close>

record dial_script =
  remainingDial :: "duration option"
  dialTCP :: "string \<Rightarrow> string \<Rightarrow> duration \<Rightarrow> goerror option"
  remainingShake :: "duration option"
  ctxErrShake :: "sentinel option"
  implicitTLS :: "goerror option"
  helloTLS :: "string \<Rightarrow> goerror option"
  startTLS :: "string \<Rightarrow> goerror option"
  redialTCP :: "string \<Rightarrow> string \<Rightarrow> duration \<Rightarrow> goerror option"
  helloPlain :: "string \<Rightarrow> goerror option"
  lmtpPeer :: lmtp_conn
  ctxDone :: "sentinel option"
  newClient :: client

record dialResult =
  dr_Client :: "client option"
  dr_Conn :: "lmtp_conn option"

definition lmtpHandshake :: "dial_script \<Rightarrow> OutboundConfig \<Rightarrow> goerror + lmtp_conn" where
  "lmtpHandshake ds cfg =
     (case (if LMTPImplicitTLS cfg then implicitTLS ds else None) of
        Some err \<Rightarrow> Inl (wrapErr ''implicit TLS handshake for LMTP failed: '' err)
      | None \<Rightarrow>
          (case readLMTPResponse (lmtpPeer ds) of
             (Inl err, _) \<Rightarrow> Inl (wrapErr ''LMTP greeting: '' err)
           | (Inr (code, _), conn1) \<Rightarrow>
               if code \<noteq> 220 then Inl (ErrText (''LMTP unexpected greeting code: '' @ Itoa code))
               else case writeLMTPCommand (''LHLO '' @ HelloHostname cfg) conn1 of
                 (Some err, _) \<Rightarrow> Inl (wrapErr ''LHLO write: '' err)
               | (None, conn2) \<Rightarrow>
                   (case readLMTPResponse conn2 of
                      (Inl err, _) \<Rightarrow> Inl (wrapErr ''LHLO response: '' err)
                    | (Inr (code2, _), conn3) \<Rightarrow>
                        if code2 \<noteq> 250 then Inl (ErrText (''LHLO rejected: '' @ Itoa code2)) else Inr conn3)))"

text \<open>The handshake of an SMTP connection; the result is whether it uses TLS.\<close>

definition smtpHandshake ::
  "dial_script \<Rightarrow> OutboundConfig \<Rightarrow> string \<Rightarrow> string \<Rightarrow> duration \<Rightarrow> goerror + bool" where
  "smtpHandshake ds cfg sourceIP target timeout =
     (if SMTPImplicitTLS cfg then
        (case implicitTLS ds of
           Some err \<Rightarrow> Inl (wrapErr ''implicit TLS handshake failed: '' err)
         | None \<Rightarrow>
             (case helloTLS ds (HelloHostname cfg) of
                Some err \<Rightarrow> Inl (wrapErr ''EHLO failed over implicit TLS: '' err)
              | None \<Rightarrow> Inr True))
      else case startTLS ds (HelloHostname cfg) of
        None \<Rightarrow> Inr True
      | Some err \<Rightarrow>
          if Contains (err_text err) (''server doesn'' @ [CHR 0x27] @ ''t support STARTTLS'') then
            (case redialTCP ds sourceIP target timeout of
               Some err2 \<Rightarrow> Inl (wrapErr ''reconnect for plaintext failed: '' err2)
             | None \<Rightarrow>
                 (case helloPlain ds (HelloHostname cfg) of
                    Some err2 \<Rightarrow> Inl (wrapErr ''EHLO/HELO failed: '' err2)
                  | None \<Rightarrow> Inr False))
          else Inl (wrapErr ''STARTTLS handshake failed: '' err))"

text \<open>The goroutine of the handshake, for the protocol: its error, or the connection it hands over.\<close>

definition handshake ::
  "dial_script \<Rightarrow> OutboundConfig \<Rightarrow> string \<Rightarrow> string \<Rightarrow> string \<Rightarrow> duration \<Rightarrow> goerror + dialResult" where
  "handshake ds cfg protocol sourceIP target timeout =
     (if protocol = ProtocolLMTP then
        (case lmtpHandshake ds cfg of
           Inl err \<Rightarrow> Inl err
         | Inr conn \<Rightarrow> Inr \<lparr>dr_Client = None, dr_Conn = Some conn\<rparr>)
      else
        (case smtpHandshake ds cfg sourceIP target timeout of
           Inl err \<Rightarrow> Inl err
         | Inr usedTLS \<Rightarrow> Inr \<lparr>dr_Client = Some (newClient ds), dr_Conn = None\<rparr>))"

definition setTimeouts :: "dialResult \<Rightarrow> duration \<Rightarrow> transport \<Rightarrow> transport" where
  "setTimeouts dr deliveryTimeout tp =
     (case dr_Client dr of
        None \<Rightarrow> tp
      | Some c \<Rightarrow> tp\<lparr>tp_cmdTimeout := (tp_cmdTimeout tp)(c := deliveryTimeout),
                     tp_subTimeout := (tp_subTimeout tp)(c := deliveryTimeout)\<rparr>)"

definition JoinHostPort :: "string \<Rightarrow> string \<Rightarrow> string" where
  "JoinHostPort host port =
     (if CHR '':'' \<in> set host then ''['' @ host @ '']:'' @ port else host @ '':'' @ port)"

text \<open>
  After the connection is made: the timeouts of the phases, the handshake, and the race of it with the
  end of the context.
\<close>

definition shakeHands ::
  "dial_script \<Rightarrow> OutboundConfig \<Rightarrow> string \<Rightarrow> string \<Rightarrow> string \<Rightarrow> string \<Rightarrow> string \<Rightarrow> transport
     \<Rightarrow> dialResult option \<times> DeliveryResult \<times> goerror option \<times> transport" where
  "shakeHands ds cfg traceID mxHost protocol sourceIP target tp =
     (let fail = (\<lambda>msg. mkResult traceID ''timeout'' mxHost sourceIP msg) in
      if (case remainingShake ds of Some left \<Rightarrow> left \<le> 0 | None \<Rightarrow> False)
      then (None, fail ''context deadline exceeded before handshake'', map_option ErrSentinel (ctxErrShake ds), tp)
      else let (_, _, deliveryTimeout) = phasedTimeouts cfg (remainingShake ds) in
        case ctxDone ds of
          Some e \<Rightarrow> (None, fail ''SMTP handshake timed out'', Some (ErrSentinel e), tp)
        | None \<Rightarrow>
            (case handshake ds cfg protocol sourceIP target (connectionTimeout cfg (remainingDial ds)) of
               Inl err \<Rightarrow> (None, fail (''Handshake failed: '' @ err_text err), Some err, tp)
             | Inr dr \<Rightarrow> (Some dr, mkResult [] [] [] [] [], None, setTimeouts dr deliveryTimeout tp)))"

definition dialAndHello ::
  "dial_script \<Rightarrow> OutboundConfig \<Rightarrow> string \<Rightarrow> string \<Rightarrow> string list \<Rightarrow> string \<Rightarrow> bool \<Rightarrow> string \<Rightarrow> transport
     \<Rightarrow> dialResult option \<times> DeliveryResult \<times> goerror option \<times> transport" where
  "dialAndHello ds cfg traceID mxHost mxIPs sourceIP preferIPv6 protocol tp =
     (let fail = (\<lambda>status msg. mkResult traceID status mxHost sourceIP msg) in
      case selectTargetIP traceID mxHost mxIPs sourceIP preferIPv6 of
        Inl (result, err) \<Rightarrow> (None, result, Some err, tp)
      | Inr targetIP \<Rightarrow>
          (case targetPort cfg protocol of
             Inl err \<Rightarrow> (None, fail ''error'' (invalidDestination protocol (fixedDestination cfg protocol) err), Some err, tp)
           | Inr port \<Rightarrow>
               if sourceIP \<noteq> [] \<and> ParseIP sourceIP = None
               then (None, fail ''error'' (''Invalid source IP address: '' @ sourceIP), Some (ErrText ''invalid IP''), tp)
               else let target = JoinHostPort targetIP port in
                 case dialTCP ds sourceIP target (connectionTimeout cfg (remainingDial ds)) of
                   Some err \<Rightarrow>
                     if sourceIP \<noteq> [] \<and> isBindError (Some err)
                     then (None, fail ''error'' (''Cannot bind to source IP '' @ sourceIP @ '' for target '' @ targetIP
                             @ '': '' @ err_text err), Some err, tp)
                     else (None, fail ''timeout'' (err_text err), Some err, tp)
                 | None \<Rightarrow> shakeHands ds cfg traceID mxHost protocol sourceIP target tp))"

section \<open>Attempt\<close>

record attempt_env =
  probeAlive :: "client \<Rightarrow> bool"
  getClock :: "nat \<Rightarrow> gotime"
  pooledScript :: smtp_script
  dialScript :: dial_script
  freshScript :: smtp_script
  lmtpCtxEnded :: bool

text \<open>The LMTP transaction of an attempt, with the history of what was transmitted to its end.\<close>

definition lmtpAttempt ::
  "bool \<Rightarrow> string \<Rightarrow> lmtp_conn \<Rightarrow> string \<Rightarrow> string \<Rightarrow> string \<Rightarrow> string \<Rightarrow> string \<Rightarrow> transport
     \<Rightarrow> DeliveryResult \<times> transport" where
  "lmtpAttempt ctxEnded traceID conn from to msg mxHost sourceIP tp =
     (case performLMTPTransaction traceID ctxEnded conn from to msg mxHost sourceIP of
        (result, conn') \<Rightarrow>
          (result,
           if lc_output conn' = lc_output conn @ lmtpDialogue from to msg
           then tp\<lparr>tp_sent := tp_sent tp @
                  [Transmission mxHost sourceIP from to msg
                     (if Status result = ''unknown'' then None else Some (SMTPCode result))]\<rparr>
           else tp))"

text \<open>
  An attempt. The first component is \<^const>\<open>None\<close> if the goroutine panics: \<open>dialAndHello\<close> has given no
  connection and no error, and the caller reads through the nil pointer.
\<close>

definition freshAttempt ::
  "attempt_env \<Rightarrow> OutboundConfig \<Rightarrow> string \<Rightarrow> string \<Rightarrow> string \<Rightarrow> string \<Rightarrow> string \<Rightarrow> string list \<Rightarrow> string \<Rightarrow> bool
     \<Rightarrow> string \<Rightarrow> string option \<Rightarrow> transport \<Rightarrow> DeliveryResult option \<times> transport" where
  "freshAttempt env cfg traceID from to msg mxHost mxIPs sourceIP preferIPv6 protocol inboundDKIM tp0 =
     (case dialAndHello (dialScript env) cfg traceID mxHost mxIPs sourceIP preferIPv6 protocol tp0 of
        (_, result, Some err, tp) \<Rightarrow> (Some result, tp)
      | (None, _, None, tp) \<Rightarrow> (None, tp)
      | (Some dr, _, None, tp) \<Rightarrow>
          (case (dr_Conn dr, dr_Client dr) of
             (Some conn, _) \<Rightarrow>
               (case lmtpAttempt (lmtpCtxEnded env) traceID conn from to msg mxHost sourceIP tp of
                  (r, tp') \<Rightarrow> (Some r, tp'))
           | (None, Some c) \<Rightarrow>
               (case performDeliveryTransaction (freshScript env) cfg traceID c from to msg mxHost sourceIP False
                       inboundDKIM tp of
                  (r, tp') \<Rightarrow> (Some r, tp'))
           | (None, None) \<Rightarrow> (None, tp)))"

definition attemptDelivery ::
  "attempt_env \<Rightarrow> OutboundConfig \<Rightarrow> string \<Rightarrow> string \<Rightarrow> string \<Rightarrow> string \<Rightarrow> string \<Rightarrow> string list \<Rightarrow> string \<Rightarrow> bool
     \<Rightarrow> string \<Rightarrow> string option \<Rightarrow> transport \<Rightarrow> DeliveryResult option \<times> transport" where
  "attemptDelivery env cfg traceID from to msg mxHost mxIPs sourceIP preferIPv6 protocol inboundDKIM tp =
     (let fresh = freshAttempt env cfg traceID from to msg mxHost mxIPs sourceIP preferIPv6 protocol inboundDKIM in
      if protocol = ProtocolLMTP then fresh tp
      else case Get (probeAlive env) (getClock env) mxHost sourceIP (tp_pool tp) of
        (None, pool) \<Rightarrow> fresh (tp\<lparr>tp_pool := pool\<rparr>)
      | (Some c, pool) \<Rightarrow>
          (case performDeliveryTransaction (pooledScript env) cfg traceID c from to msg mxHost sourceIP True inboundDKIM
                  (tp\<lparr>tp_pool := pool\<rparr>) of
             (result, tp1) \<Rightarrow>
               if Status result \<in> set [''delivered'', ''hard_bounce'', ''timeout'', ''unknown'']
               then (Some result, tp1) else fresh tp1))"

section \<open>Transmissions and results\<close>

text \<open>
  A server may have accepted a transmitted message if it answered with a success code or not at all.
  An outcome is sound if only the last of the transmissions may have been accepted, and then the
  result says \<open>delivered\<close> or \<open>unknown\<close>.
\<close>

definition maybe_accepted :: "transmission \<Rightarrow> bool" where
  "maybe_accepted ev = (case tx_reply ev of None \<Rightarrow> True | Some code \<Rightarrow> 200 \<le> code \<and> code < 300)"

definition accepting :: "string \<Rightarrow> bool" where
  "accepting status \<longleftrightarrow> status = ''delivered'' \<or> status = ''unknown''"

definition sound_outcome :: "transmission list \<Rightarrow> DeliveryResult option \<Rightarrow> bool" where
  "sound_outcome evs r \<longleftrightarrow>
     list_all (\<lambda>ev. \<not> maybe_accepted ev) (butlast evs)
     \<and> (evs \<noteq> [] \<and> maybe_accepted (last evs) \<longrightarrow> (\<exists>x. r = Some x \<and> accepting (Status x)))"

lemma sound_Nil [simp]: "sound_outcome [] r"
  by (simp add: sound_outcome_def)

lemma sound_single [simp]:
  "sound_outcome [ev] r \<longleftrightarrow> (maybe_accepted ev \<longrightarrow> (\<exists>x. r = Some x \<and> accepting (Status x)))"
  by (simp add: sound_outcome_def)

text \<open>Outcomes compose if the first result does not say that the message may have been accepted.\<close>

lemma sound_append:
  assumes "sound_outcome evs r" and "\<And>x. r = Some x \<Longrightarrow> \<not> accepting (Status x)" and "sound_outcome evs' r'"
  shows "sound_outcome (evs @ evs') r'"
proof -
  have "list_all (\<lambda>ev. \<not> maybe_accepted ev) evs"
  proof (cases evs rule: rev_cases)
    case (snoc xs x)
    with assms show ?thesis by (auto simp: sound_outcome_def)
  qed simp
  with assms(3) show ?thesis
    by (auto simp: sound_outcome_def butlast_append list_all_iff dest: in_set_butlastD)
qed

lemma sound_final:
  assumes "sound_outcome evs r" and "r = Some x" and "\<not> isFinalResult (Status x)" and "sound_outcome evs' r'"
  shows "sound_outcome (evs @ evs') r'"
  using assms by (intro sound_append [OF assms(1) _ assms(4)]) (auto simp: isFinalResult_def accepting_def)

text \<open>
  What is relied on of the client library: an error of it is not an indeterminate error, which is a
  type of the package, and the reply that its error at the end of data carries, if any, is no success.
\<close>

definition foreign :: "goerror \<Rightarrow> bool" where
  "foreign e \<longleftrightarrow> \<not> errors_as_indeterminate e"

definition definite_end :: "smtp_script \<Rightarrow> bool" where
  "definite_end sc \<longleftrightarrow>
     (\<forall>e code text. replyEnd sc = Inl e \<longrightarrow> errors_as_smtp e = Some (code, text) \<longrightarrow> 300 \<le> code)"

definition foreign_errors_only :: "smtp_script \<Rightarrow> bool" where
  "foreign_errors_only sc \<longleftrightarrow>
     (\<forall>f u e. replyMail sc f u = Some e \<longrightarrow> foreign e) \<and> (\<forall>t e. replyRcpt sc t = Some e \<longrightarrow> foreign e)
     \<and> (\<forall>e. replyData sc = Inl e \<longrightarrow> foreign e) \<and> (\<forall>d e. writeBody sc d = Some e \<longrightarrow> foreign e)"

section \<open>Lemmas\<close>

lemma mapSMTPError_status:
  "Status (mapSMTPError t err mx ip) =
     (case errors_as_smtp err of
        Some (code, text) \<Rightarrow>
          if code = 0 \<and> errors_as_indeterminate err then ''unknown''
          else if 200 \<le> code \<and> code < 300 then ''error''
          else if code \<ge> 500 then ''hard_bounce''
          else if code > 0 then ''temp_fail''
          else if isBindError (Some err) then ''error''
          else if code = 0 then ''timeout'' else categoryStatus (Category (the (classifySMTPCode code (normalizeReply text) ip)))
      | None \<Rightarrow>
          if errors_as_indeterminate err then ''unknown''
          else if isBindError (Some err) then ''error'' else ''timeout'')"
proof -
  have net: "Category (classifyNetworkError e) = ErrorNetwork" for e
    by (simp add: classifyNetworkError_def networkDeliveryError_def Let_def)
  show ?thesis
    by (auto simp: mapSMTPError_def ClassifyError_def classifySMTPCode_def net Let_def mkResult_def replyError_def
             split: option.splits prod.splits)
qed

lemma closeClient_sel [simp]:
  "tp_sent (closeClient c tp) = tp_sent tp" "tp_pool (closeClient c tp) = closeClients [c] (tp_pool tp)"
  by (simp_all add: closeClient_def)

lemma foreign_context [simp]: "foreign (wrapErr l (ErrSentinel e))" "foreign (ErrText t)"
  by (simp_all add: foreign_def wrapErr_def)

text \<open>What the data phase makes of the reply at its end.\<close>

definition endResult :: "smtp_script \<Rightarrow> goerror + string" where
  "endResult sc = (case replyEnd sc of Inl e \<Rightarrow> Inl (ErrIndeterminate e) | Inr t \<Rightarrow> Inr (normalizeReply t))"

lemma finishData_spec:
  "finishData sc cfg c mx ip mf to data tp =
     (endResult sc,
      tp\<lparr>tp_subTimeout := (tp_subTimeout tp)(c := dataTerminationTimeout (remainingData sc) cfg (tp_subTimeout tp c)),
         tp_sent := tp_sent tp @ [Transmission mx ip mf to data (endReply (replyEnd sc))]\<rparr>)"
  by (simp add: finishData_def endResult_def Let_def split: sum.split)

definition smtpData :: "string \<Rightarrow> string \<Rightarrow> string" where
  "smtpData to msg = ''X-Envelope-To: '' @ stripAngleBrackets to @ [CR, LF] @ msg"

lemma deliverPayload_spec:
  assumes "deliverPayload sc cfg c mx ip from to msg dk tp = (r, tp')"
  shows "tp_pool tp' = tp_pool tp
    \<and> (tp_sent tp' = tp_sent tp \<and> (\<exists>e. r = Inl e \<and> (foreign_errors_only sc \<longrightarrow> foreign e))
       \<or> r = endResult sc \<and> (\<exists>mf. tp_sent tp' = tp_sent tp @
            [Transmission mx ip mf (stripAngleBrackets to) (smtpData to msg) (endReply (replyEnd sc))]))"
  using assms
  by (auto simp: deliverPayload_def finishData_spec smtpData_def foreign_errors_only_def Let_def
           split: prod.splits option.splits sum.splits if_splits)

lemma deliverPayload_cases:
  assumes "deliverPayload sc cfg c mx ip from to msg dk tp = (r, tp')"
  obtains (early) e where "r = Inl e" and "foreign_errors_only sc \<Longrightarrow> foreign e" and "tp_sent tp' = tp_sent tp"
  | (sent) mf where "r = endResult sc" and "tp_sent tp' = tp_sent tp @
       [Transmission mx ip mf (stripAngleBrackets to) (smtpData to msg) (endReply (replyEnd sc))]"
  using deliverPayload_spec [OF assms] by blast

lemma categoryStatus_definite [simp]: "categoryStatus cat \<noteq> ''unknown''" "categoryStatus cat \<noteq> ''delivered''"
  by (cases cat; simp)+

lemma mapSMTPError_accepting:
  "accepting (Status (mapSMTPError t err mx ip)) \<longleftrightarrow>
     errors_as_indeterminate err \<and> (case errors_as_smtp err of Some (code, _) \<Rightarrow> code = 0 | None \<Rightarrow> True)"
  by (auto simp: mapSMTPError_status accepting_def split: option.splits)

lemma closingError_as [simp]:
  "errors_as_indeterminate (closingError sc err) = errors_as_indeterminate err"
  "errors_as_smtp (closingError sc err) = errors_as_smtp err"
  by (auto simp: closingError_def split: option.split)

lemma tightenTimeout_sel [simp]:
  "tp_sent (tightenTimeout sc cfg c reused tp) = tp_sent tp"
  "tp_pool (tightenTimeout sc cfg c reused tp) = tp_pool tp"
  by (simp_all add: tightenTimeout_def)

text \<open>A transaction keeps the discipline of the pool: the client it was given is put back or closed.\<close>

lemma concludeTransaction_keeps:
  assumes "concludeTransaction sc t c mx ip (q, tp) = (r, tp')"
  shows "keeps ttl (tp_pool tp, c # held) (tp_pool tp', held)"
  using assms keeps_close keeps_put by (cases q) (auto simp: concludeTransaction_def split: if_splits)

lemma performDelivery_keeps:
  assumes "performDeliveryTransaction sc cfg t c from to msg mx ip reused dk tp = (r, tp')"
  shows "keeps ttl (tp_pool tp, c # held) (tp_pool tp', held)"
proof (cases "ctxEndedStart sc")
  case True
  with assms show ?thesis by (auto simp: performDeliveryTransaction_def keeps_close)
next
  case False
  obtain q tp2 where dp: "deliverPayload sc cfg c mx ip from to msg dk (tightenTimeout sc cfg c reused tp) = (q, tp2)"
    by force
  then have "tp_pool tp2 = tp_pool tp" using deliverPayload_spec by fastforce
  with assms dp False concludeTransaction_keeps show ?thesis
    by (fastforce simp: performDeliveryTransaction_def)
qed

lemma concludeTransaction_sent [simp]: "tp_sent (snd (concludeTransaction sc t c mx ip (q, tp))) = tp_sent tp"
  by (simp add: concludeTransaction_def split: sum.split)

lemma concludeTransaction_accepting:
  "accepting (Status (fst (concludeTransaction sc t c mx ip (q, tp)))) \<longleftrightarrow>
     (case q of
        Inr _ \<Rightarrow> True
      | Inl err \<Rightarrow> errors_as_indeterminate err \<and> (case errors_as_smtp err of Some (code, _) \<Rightarrow> code = 0 | None \<Rightarrow> True))"
  by (auto simp: concludeTransaction_def mapSMTPError_accepting split: sum.splits)
    (simp_all add: accepting_def mkResult_def)

text \<open>
  A transaction transmits the message once at most; with a definite reply the message may have been
  accepted exactly if the result says so.
\<close>

lemma endResult_accepting:
  assumes "definite_end sc"
  shows "accepting (Status (fst (concludeTransaction sc t c mx ip (endResult sc, tp))))
    \<longleftrightarrow> maybe_accepted (Transmission mx ip mf to data (endReply (replyEnd sc)))"
  using assms
  by (fastforce simp: concludeTransaction_accepting endResult_def maybe_accepted_def endReply_def definite_end_def
           split: sum.splits option.splits)

lemma performDelivery_sent:
  assumes "performDeliveryTransaction sc cfg t c from to msg mx ip reused dk tp = (r, tp')" and "definite_end sc"
  shows "\<exists>evs. tp_sent tp' = tp_sent tp @ evs \<and> sound_outcome evs (Some r)
    \<and> list_all (\<lambda>ev. tx_mx ev = mx \<and> tx_ip ev = ip \<and> tx_to ev = stripAngleBrackets to \<and> tx_msg ev = smtpData to msg) evs
    \<and> (foreign_errors_only sc \<longrightarrow> accepting (Status r) \<longrightarrow> evs \<noteq> [] \<and> maybe_accepted (last evs))"
proof (cases "ctxEndedStart sc")
  case True
  with assms(1) show ?thesis by (auto simp: performDeliveryTransaction_def accepting_def)
next
  case False
  obtain q tp2 where dp: "deliverPayload sc cfg c mx ip from to msg dk (tightenTimeout sc cfg c reused tp) = (q, tp2)"
    by force
  with assms(1) False have con: "concludeTransaction sc t c mx ip (q, tp2) = (r, tp')"
    by (simp add: performDeliveryTransaction_def)
  then have r: "r = fst (concludeTransaction sc t c mx ip (q, tp2))" and sent: "tp_sent tp' = tp_sent tp2"
    using concludeTransaction_sent [of sc t c mx ip q tp2] by simp_all
  from dp show ?thesis
  proof (cases rule: deliverPayload_cases)
    case (early e)
    with sent have "tp_sent tp' = tp_sent tp @ []" by simp
    moreover have "foreign_errors_only sc \<longrightarrow> \<not> accepting (Status r)"
      using early by (auto simp: r concludeTransaction_accepting foreign_def)
    ultimately show ?thesis by (intro exI [of _ "[]"]) auto
  next
    case (sent mf)
    let ?ev = "Transmission mx ip mf (stripAngleBrackets to) (smtpData to msg) (endReply (replyEnd sc))"
    have "accepting (Status r) \<longleftrightarrow> maybe_accepted ?ev"
      using endResult_accepting [OF assms(2)] sent(1) r by simp
    with \<open>tp_sent tp' = tp_sent tp2\<close> sent(2) show ?thesis by (intro exI [of _ "[?ev]"]) simp
  qed
qed

lemma setTimeouts_sel [simp]:
  "tp_sent (setTimeouts dr d tp) = tp_sent tp" "tp_pool (setTimeouts dr d tp) = tp_pool tp"
  by (simp_all add: setTimeouts_def split: option.split)

definition given_connection :: "dial_script \<Rightarrow> string \<Rightarrow> dialResult \<Rightarrow> bool" where
  "given_connection ds protocol dr \<longleftrightarrow>
     (if protocol = ProtocolLMTP then (\<exists>conn. dr = \<lparr>dr_Client = None, dr_Conn = Some conn\<rparr>)
      else dr = \<lparr>dr_Client = Some (newClient ds), dr_Conn = None\<rparr>)"

lemma handshake_given: "handshake ds cfg protocol ip target d = Inr dr \<Longrightarrow> given_connection ds protocol dr"
  by (auto simp: handshake_def given_connection_def split: if_splits sum.splits)

text \<open>
  What a dial gives: an error with a result that is not accepting, or a connection for the protocol.
  Neither of them only if the deadline has passed and the context has not ended yet.
\<close>

definition deadline_race :: "dial_script \<Rightarrow> bool" where
  "deadline_race ds \<longleftrightarrow>
     ctxErrShake ds = None \<and> (case remainingShake ds of Some left \<Rightarrow> left \<le> 0 | None \<Rightarrow> False)"

definition dialled ::
  "dial_script \<Rightarrow> string \<Rightarrow> transport \<Rightarrow> dialResult option \<times> DeliveryResult \<times> goerror option \<times> transport \<Rightarrow> bool" where
  "dialled ds protocol tp out =
     (case out of (dr, res, err, tp') \<Rightarrow>
        tp_sent tp' = tp_sent tp \<and> tp_pool tp' = tp_pool tp
        \<and> (case err of
             Some _ \<Rightarrow> \<not> accepting (Status res)
           | None \<Rightarrow> (case dr of Some d \<Rightarrow> given_connection ds protocol d | None \<Rightarrow> deadline_race ds)))"

lemma not_accepting [simp]: "\<not> accepting ''timeout''" "\<not> accepting ''error''" "\<not> accepting ''temp_fail''"
  by (simp_all add: accepting_def)

lemma shakeHands_dialled: "dialled ds protocol tp (shakeHands ds cfg t mx protocol ip target tp)"
  by (auto simp: shakeHands_def dialled_def deadline_race_def Let_def dest: handshake_given
           split: option.splits prod.splits sum.splits)

lemma selectTargetIP_status:
  "selectTargetIP t mx ips ip pref = Inl (res, e) \<Longrightarrow> \<not> accepting (Status res)"
  by (auto simp: selectTargetIP_def Let_def split: prod.splits if_splits)

lemma dialled_error [simp]: "dialled ds protocol tp (dr, res, Some e, tp) \<longleftrightarrow> \<not> accepting (Status res)"
  by (simp add: dialled_def)

lemma dialAndHello_dialled: "dialled ds protocol tp (dialAndHello ds cfg t mx ips ip pref protocol tp)"
  by (auto simp: dialAndHello_def Let_def shakeHands_dialled dest: selectTargetIP_status
           split: sum.splits prod.splits option.splits)

lemma lmtpAttempt_sent:
  assumes "lmtpAttempt ctx t conn from to msg mx ip tp = (r, tp')"
  shows "tp_pool tp' = tp_pool tp \<and> (\<exists>evs. tp_sent tp' = tp_sent tp @ evs \<and> sound_outcome evs (Some r)
    \<and> list_all (\<lambda>ev. tx_mx ev = mx \<and> tx_ip ev = ip \<and> tx_to ev = to \<and> tx_msg ev = msg) evs
    \<and> (Status r = ''unknown'' \<longrightarrow> evs \<noteq> [] \<and> maybe_accepted (last evs)))"
proof -
  obtain conn' where tr: "performLMTPTransaction t ctx conn from to msg mx ip = (r, conn')"
    using assms by (auto simp: lmtpAttempt_def split: prod.splits)
  from transaction_output [OF tr] obtain w where w: "lc_output conn' = lc_output conn @ w"
    "Status r = ''unknown'' \<longrightarrow> w = lmtpDialogue from to msg"
    "w = lmtpDialogue from to msg \<longrightarrow> Status r = ''unknown'' \<or> (\<exists>code text. r = classifyLMTPResult t mx ip code text)"
    by blast
  show ?thesis
  proof (cases "w = lmtpDialogue from to msg")
    case True
    let ?ev = "Transmission mx ip from to msg (if Status r = ''unknown'' then None else Some (SMTPCode r))"
    have "accepting (Status r)" if "maybe_accepted ?ev"
    proof (cases "Status r = ''unknown''")
      case True
      then show ?thesis by (simp add: accepting_def)
    next
      case False
      with w(3) True obtain code tx where "r = classifyLMTPResult t mx ip code tx" by blast
      with that False show ?thesis
        by (simp add: maybe_accepted_def accepting_def classifyLMTPResult_status classifyLMTPResult_code)
    qed
    moreover have "maybe_accepted ?ev" if "Status r = ''unknown''" using that by (simp add: maybe_accepted_def)
    ultimately show ?thesis using assms tr w(1) True by (auto simp: lmtpAttempt_def)
  next
    case False
    with assms tr w show ?thesis by (auto simp: lmtpAttempt_def)
  qed
qed

text \<open>What a transmission of an attempt carries, and what the results of attempts are worth.\<close>

definition carries :: "string \<Rightarrow> string \<Rightarrow> string \<Rightarrow> string \<Rightarrow> string \<Rightarrow> transmission \<Rightarrow> bool" where
  "carries protocol mx ip to msg ev \<longleftrightarrow> tx_mx ev = mx \<and> tx_ip ev = ip
     \<and> (if protocol = ProtocolLMTP then tx_to ev = to \<and> tx_msg ev = msg
        else tx_to ev = stripAngleBrackets to \<and> tx_msg ev = smtpData to msg)"

lemma carries_fun:
  "protocol = ProtocolLMTP \<Longrightarrow> carries protocol mx ip to msg =
     (\<lambda>ev. tx_mx ev = mx \<and> tx_ip ev = ip \<and> tx_to ev = to \<and> tx_msg ev = msg)"
  "protocol \<noteq> ProtocolLMTP \<Longrightarrow> carries protocol mx ip to msg =
     (\<lambda>ev. tx_mx ev = mx \<and> tx_ip ev = ip \<and> tx_to ev = stripAngleBrackets to \<and> tx_msg ev = smtpData to msg)"
  by (auto simp: carries_def fun_eq_iff)

definition definite :: "attempt_env \<Rightarrow> bool" where
  "definite env \<longleftrightarrow> definite_end (pooledScript env) \<and> definite_end (freshScript env)"

definition foreign_env :: "attempt_env \<Rightarrow> bool" where
  "foreign_env env \<longleftrightarrow> foreign_errors_only (pooledScript env) \<and> foreign_errors_only (freshScript env)"

definition attested :: "transmission list \<Rightarrow> DeliveryResult option \<Rightarrow> bool" where
  "attested evs r \<longleftrightarrow>
     (\<forall>x. r = Some x \<longrightarrow> accepting (Status x) \<longrightarrow> evs \<noteq> [] \<and> maybe_accepted (last evs))"

lemma freshAttempt_sent:
  assumes "freshAttempt env cfg t from to msg mx ips ip pref protocol dk tp = (r, tp')" and "definite env"
  shows "\<exists>evs. tp_sent tp' = tp_sent tp @ evs \<and> sound_outcome evs r
    \<and> list_all (carries protocol mx ip to msg) evs
    \<and> (foreign_env env \<longrightarrow> protocol \<noteq> ProtocolLMTP \<longrightarrow> attested evs r)"
proof -
  obtain dr res err tp1 where dial: "dialAndHello (dialScript env) cfg t mx ips ip pref protocol tp = (dr, res, err, tp1)"
    by (metis prod_cases4)
  with dialAndHello_dialled [of "dialScript env" protocol tp cfg t mx ips ip pref]
  have d: "dialled (dialScript env) protocol tp (dr, res, err, tp1)" by simp
  then have sent1: "tp_sent tp1 = tp_sent tp" by (simp add: dialled_def)
  show ?thesis
  proof (cases err)
    case (Some e)
    with assms dial have "r = Some res" "tp' = tp1" by (auto simp: freshAttempt_def split: option.splits)
    with d Some sent1 show ?thesis by (intro exI [of _ "[]"]) (simp add: dialled_def attested_def)
  next
    case None
    show ?thesis
    proof (cases dr)
      case None
      with assms dial \<open>err = None\<close> have "r = None" "tp' = tp1" by (simp_all add: freshAttempt_def)
      with sent1 show ?thesis by (intro exI [of _ "[]"]) (simp add: attested_def)
    next
      case (Some c)
      with d \<open>err = None\<close> have given: "given_connection (dialScript env) protocol c" by (simp add: dialled_def)
      show ?thesis
      proof (cases "protocol = ProtocolLMTP")
        case True
        with given obtain conn where c: "c = \<lparr>dr_Client = None, dr_Conn = Some conn\<rparr>"
          by (auto simp: given_connection_def)
        with assms dial \<open>err = None\<close> Some obtain x where lm: "lmtpAttempt (lmtpCtxEnded env) t conn from to msg mx ip tp1 = (x, tp')"
          and "r = Some x" by (auto simp: freshAttempt_def split: prod.splits)
        with lmtpAttempt_sent [OF lm] sent1 True show ?thesis by (auto simp: carries_fun)
      next
        case False
        with given have c: "c = \<lparr>dr_Client = Some (newClient (dialScript env)), dr_Conn = None\<rparr>"
          by (simp add: given_connection_def)
        with assms dial \<open>err = None\<close> Some obtain x where
          tr: "performDeliveryTransaction (freshScript env) cfg t (newClient (dialScript env)) from to msg mx ip False dk tp1 = (x, tp')"
          and r: "r = Some x" by (auto simp: freshAttempt_def split: prod.splits)
        have "definite_end (freshScript env)" using assms(2) by (simp add: definite_def)
        from performDelivery_sent [OF tr this] sent1 False r show ?thesis
          by (auto simp: carries_fun attested_def foreign_env_def)
      qed
    qed
  qed
qed

lemma attemptDelivery_sent:
  assumes "attemptDelivery env cfg t from to msg mx ips ip pref protocol dk tp = (r, tp')" and "definite env"
  shows "\<exists>evs. tp_sent tp' = tp_sent tp @ evs \<and> sound_outcome evs r
    \<and> list_all (carries protocol mx ip to msg) evs
    \<and> (foreign_env env \<longrightarrow> protocol \<noteq> ProtocolLMTP \<longrightarrow> attested evs r)"
proof -
  let ?fresh = "freshAttempt env cfg t from to msg mx ips ip pref protocol dk"
  obtain q pool where get: "Get (probeAlive env) (getClock env) mx ip (tp_pool tp) = (q, pool)" by force
  consider "protocol = ProtocolLMTP" | "protocol \<noteq> ProtocolLMTP" "q = None" | c where "protocol \<noteq> ProtocolLMTP" "q = Some c"
    by (cases q) auto
  then show ?thesis
  proof cases
    case 1
    with assms have "?fresh tp = (r, tp')" by (simp add: attemptDelivery_def)
    from freshAttempt_sent [OF this assms(2)] show ?thesis .
  next
    case 2
    with assms get have "?fresh (tp\<lparr>tp_pool := pool\<rparr>) = (r, tp')" by (simp add: attemptDelivery_def)
    from freshAttempt_sent [OF this assms(2)] show ?thesis by simp
  next
    case 3
    obtain x tp1 where tr: "performDeliveryTransaction (pooledScript env) cfg t c from to msg mx ip True dk (tp\<lparr>tp_pool := pool\<rparr>) = (x, tp1)"
      by force
    have "definite_end (pooledScript env)" using assms(2) by (simp add: definite_def)
    from performDelivery_sent [OF tr this] obtain evs where evs: "tp_sent tp1 = tp_sent tp @ evs"
      "sound_outcome evs (Some x)" "list_all (carries protocol mx ip to msg) evs"
      "foreign_env env \<longrightarrow> accepting (Status x) \<longrightarrow> evs \<noteq> [] \<and> maybe_accepted (last evs)"
      unfolding carries_fun(2) [OF 3(1)] foreign_env_def by auto
    show ?thesis
    proof (cases "Status x \<in> set [''delivered'', ''hard_bounce'', ''timeout'', ''unknown'']")
      case True
      with assms(1) get 3 tr have "r = Some x" "tp' = tp1" by (simp_all add: attemptDelivery_def)
      with evs show ?thesis by (auto simp: attested_def)
    next
      case False
      with assms(1) get 3 tr have fr: "?fresh tp1 = (r, tp')" by (simp add: attemptDelivery_def)
      from False have "\<not> accepting (Status x)" by (auto simp: accepting_def)
      from freshAttempt_sent [OF fr assms(2)] obtain evs' where evs': "tp_sent tp' = tp_sent tp1 @ evs'"
        "sound_outcome evs' r" "list_all (carries protocol mx ip to msg) evs'"
        "foreign_env env \<longrightarrow> protocol \<noteq> ProtocolLMTP \<longrightarrow> attested evs' r" by blast
      moreover have "sound_outcome (evs @ evs') r"
        using sound_append [OF evs(2) _ evs'(2)] \<open>\<not> accepting (Status x)\<close> by simp
      ultimately show ?thesis using evs by (intro exI [of _ "evs @ evs'"]) (auto simp: attested_def)
    qed
  qed
qed

text \<open>The connections of an attempt.\<close>

lemma freshAttempt_pool:
  assumes "freshAttempt env cfg t from to msg mx ips ip pref protocol dk tp = (r, tp')"
  shows "tp_pool tp' = tp_pool tp
    \<or> keeps ttl (tp_pool tp, newClient (dialScript env) # held) (tp_pool tp', held)"
proof -
  obtain dr res err tp1 where dial: "dialAndHello (dialScript env) cfg t mx ips ip pref protocol tp = (dr, res, err, tp1)"
    by (metis prod_cases4)
  with dialAndHello_dialled [of "dialScript env" protocol tp cfg t mx ips ip pref]
  have d: "dialled (dialScript env) protocol tp (dr, res, err, tp1)" by simp
  then have pool1: "tp_pool tp1 = tp_pool tp" by (simp add: dialled_def)
  show ?thesis
  proof (cases "err = None \<and> dr \<noteq> None")
    case False
    with assms dial pool1 show ?thesis by (auto simp: freshAttempt_def split: option.splits)
  next
    case True
    with d obtain c where c: "dr = Some c" "given_connection (dialScript env) protocol c" by (auto simp: dialled_def)
    show ?thesis
    proof (cases "dr_Conn c")
      case (Some conn)
      with assms dial c True obtain x where "lmtpAttempt (lmtpCtxEnded env) t conn from to msg mx ip tp1 = (x, tp')"
        by (auto simp: freshAttempt_def split: prod.splits)
      from lmtpAttempt_sent [OF this] pool1 show ?thesis by simp
    next
      case None
      with c(2) have "dr_Client c = Some (newClient (dialScript env))"
        by (auto simp: given_connection_def split: if_splits)
      with assms dial c None True obtain x where
        "performDeliveryTransaction (freshScript env) cfg t (newClient (dialScript env)) from to msg mx ip False dk tp1 = (x, tp')"
        by (auto simp: freshAttempt_def split: prod.splits)
      from performDelivery_keeps [OF this] pool1 show ?thesis by simp
    qed
  qed
qed

lemma freshAttempt_reachable:
  assumes "freshAttempt env cfg t from to msg mx ips ip pref protocol dk tp = (r, tp')"
    and "pool_reachable ttl (tp_pool tp, held)" and "newClient (dialScript env) \<notin> set (known (tp_pool tp, held))"
  shows "pool_reachable ttl (tp_pool tp', held)
    \<and> set (known (tp_pool tp', held)) \<subseteq> insert (newClient (dialScript env)) (set (known (tp_pool tp, held)))"
proof -
  have dialled: "pool_reachable ttl (tp_pool tp, newClient (dialScript env) # held)"
    using pool_step.dial [OF assms(3)] pool_reachable.step [OF assms(2)] by blast
  have new: "set (known (tp_pool tp, newClient (dialScript env) # held))
      = insert (newClient (dialScript env)) (set (known (tp_pool tp, held)))"
    by (auto simp: known_def)
  consider (same) "tp_pool tp' = tp_pool tp"
    | (kept) "keeps ttl (tp_pool tp, newClient (dialScript env) # held) (tp_pool tp', held)"
    using freshAttempt_pool [OF assms(1)] by blast
  then show ?thesis
  proof cases
    case same
    with assms(2) show ?thesis by auto
  next
    case kept
    from keepsD [OF this dialled] new show ?thesis by simp
  qed
qed

lemma attemptDelivery_reachable:
  assumes "attemptDelivery env cfg t from to msg mx ips ip pref protocol dk tp = (r, tp')"
    and "pool_reachable ttl (tp_pool tp, held)" and "newClient (dialScript env) \<notin> set (known (tp_pool tp, held))"
  shows "pool_reachable ttl (tp_pool tp', held)
    \<and> set (known (tp_pool tp', held)) \<subseteq> insert (newClient (dialScript env)) (set (known (tp_pool tp, held)))"
proof -
  let ?fresh = "freshAttempt env cfg t from to msg mx ips ip pref protocol dk" and ?n = "newClient (dialScript env)"
  obtain q pool where get: "Get (probeAlive env) (getClock env) mx ip (tp_pool tp) = (q, pool)" by force
  have step: "?thesis" if "?fresh tp1 = (r, tp')" and "keeps ttl (tp_pool tp, held) (tp_pool tp1, held)" for tp1
    using freshAttempt_reachable [OF that(1), of ttl held] keepsD [OF that(2) assms(2)] assms(3) by simp
  have kept: "?thesis" if "keeps ttl (tp_pool tp, held) (tp_pool tp', held)"
    using keepsD [OF that assms(2)] by auto
  consider "protocol = ProtocolLMTP" | "protocol \<noteq> ProtocolLMTP" "q = None" | c where "protocol \<noteq> ProtocolLMTP" "q = Some c"
    by (cases q) auto
  then show ?thesis
  proof cases
    case 1
    with assms have "?fresh tp = (r, tp')" by (simp add: attemptDelivery_def)
    with step show ?thesis by simp
  next
    case 2
    with assms get have "?fresh (tp\<lparr>tp_pool := pool\<rparr>) = (r, tp')" by (simp add: attemptDelivery_def)
    with step keeps_Get [OF get, of ttl held] 2 show ?thesis by simp
  next
    case 3
    obtain x tp1 where tr: "performDeliveryTransaction (pooledScript env) cfg t c from to msg mx ip True dk (tp\<lparr>tp_pool := pool\<rparr>) = (x, tp1)"
      by force
    from performDelivery_keeps [OF tr] keeps_Get [OF get, of ttl held] 3
    have "keeps ttl (tp_pool tp, held) (tp_pool tp1, held)" by (auto intro: keeps_trans)
    moreover have "r = Some x \<and> tp' = tp1 \<or> ?fresh tp1 = (r, tp')"
      using assms(1) get 3 tr by (auto simp: attemptDelivery_def split: if_splits)
    ultimately show ?thesis using step kept by blast
  qed
qed

section \<open>Properties\<close>

definition ok_script :: smtp_script where
  "ok_script = \<lparr>ctxEndedStart = False, remainingStart = Some (60 * Second), srsUnix = 0, hasSMTPUTF8 = True,
     ctxMail = None, replyMail = (\<lambda>_ _. None), ctxRcpt = None, replyRcpt = (\<lambda>_. None), ctxData = None,
     replyData = Inr True, writeBody = (\<lambda>_. None), remainingData = Some (59 * Second), replyEnd = Inr ''queued'',
     hookStopped = True, ctxErrEnd = CtxCanceled, replyReset = None, putAt = 0\<rparr>"

definition ok_dial :: dial_script where
  "ok_dial = \<lparr>remainingDial = Some (60 * Second), dialTCP = (\<lambda>_ _ _. None), remainingShake = Some (60 * Second),
     ctxErrShake = None, implicitTLS = None, helloTLS = (\<lambda>_. None), startTLS = (\<lambda>_. None),
     redialTCP = (\<lambda>_ _ _. None), helloPlain = (\<lambda>_. None), lmtpPeer = sample_conn, ctxDone = None, newClient = 1\<rparr>"

definition ok_env :: attempt_env where
  "ok_env = \<lparr>probeAlive = (\<lambda>_. True), getClock = (\<lambda>_. 0), pooledScript = ok_script, dialScript = ok_dial,
     freshScript = ok_script, lmtpCtxEnded = False\<rparr>"

definition sample_cfg :: OutboundConfig where
  "sample_cfg = setOutboundDefaults ''mx1'' (Outbound zero_config)"

definition new_transport :: transport where
  "new_transport = \<lparr>tp_pool = NewConnectionPool 5, tp_srs = None, tp_cmdTimeout = (\<lambda>_. 0), tp_subTimeout = (\<lambda>_. 0),
     tp_sent = []\<rparr>"

definition sample_attempt :: "attempt_env \<Rightarrow> DeliveryResult option \<times> transport" where
  "sample_attempt env = attemptDelivery env sample_cfg ''t'' ''a@b.c'' ''d@e.f'' ''hi'' ''mx.e.f'' [''192.0.2.7'']
     ''192.0.2.1'' False ProtocolSMTP None new_transport"

lemma sample_attempt_ok:
  "map_option Status (fst (sample_attempt ok_env)) = Some ''delivered'' \<and> idle (tp_pool (snd (sample_attempt ok_env))) = [1]"
  by code_simp

text \<open>
  An attempt leaks no connection: every connection that it takes from the pool or dials is back in
  the pool or closed when it returns, whatever fails on the way. So attempts are sequences of steps of the
  pool and its ownership invariant holds between them.
\<close>

lemma attempt_no_leak:
  assumes "attemptDelivery env cfg t from to msg mx ips ip pref protocol dk tp = (r, tp')"
    and "pool_reachable ttl (tp_pool tp, held)" and "newClient (dialScript env) \<notin> set (known (tp_pool tp, held))"
  shows "pool_reachable ttl (tp_pool tp', held)"
  using attemptDelivery_reachable [OF assms] by blast

lemma attempt_no_leak_witness:
  "pool_reachable 5 (tp_pool (snd (sample_attempt ok_env)), []) \<and> idle (tp_pool (snd (sample_attempt ok_env))) = [1]"
proof -
  obtain r tp' where at: "sample_attempt ok_env = (r, tp')" by force
  have start: "pool_reachable 5 (tp_pool new_transport, [])" by (simp add: new_transport_def pool_reachable.init)
  have "newClient (dialScript ok_env) \<notin> set (known (tp_pool new_transport, []))" by code_simp
  from attempt_no_leak [OF at [unfolded sample_attempt_def] start this] at sample_attempt_ok show ?thesis by simp
qed

lemma scale_le: "0 < tot \<Longrightarrow> tot * scaleTimeout left tot d \<le> d * left"
  by (simp add: scaleTimeout_def minus_mod_eq_mult_div [symmetric])

lemma scale_sum:
  assumes "0 \<le> left" and "left < b + h + d"
  shows "scaleTimeout left (b + h + d) b + scaleTimeout left (b + h + d) h + scaleTimeout left (b + h + d) d \<le> left"
proof -
  define tot where "tot = b + h + d"
  let ?s = "scaleTimeout left tot"
  have "0 < tot" using assms by (simp add: tot_def)
  then have "tot * ?s b + tot * ?s h + tot * ?s d \<le> b * left + h * left + d * left"
    using scale_le by (intro add_mono) blast+
  then have "tot * (?s b + ?s h + ?s d) \<le> tot * left" by (simp add: tot_def algebra_simps)
  with \<open>0 < tot\<close> show ?thesis by (simp add: tot_def)
qed

lemma scale_nonneg: "0 \<le> left \<Longrightarrow> left < tot \<Longrightarrow> 0 \<le> x \<Longrightarrow> 0 \<le> scaleTimeout left tot x"
  by (simp add: scaleTimeout_def pos_imp_zdiv_nonneg_iff)

text \<open>
  C36. The timeouts of an attempt respect the deadline: the phases of a new connection together fit into
  the time left, the command timeout is at most the time left (unless less than five seconds are left),
  a reused connection starts again from the configured timeout, and the wait for the final reply ends
  with the deadline or five seconds after its start.
\<close>

theorem timeouts_within_deadline:
  assumes "0 \<le> left" and "0 \<le> BannerTimeoutSeconds cfg" and "0 \<le> HandshakeTimeoutSeconds cfg"
    and "0 \<le> SMTPTimeoutSeconds cfg"
  shows "(case phasedTimeouts cfg (Some left) of (banner, hello, deliv) \<Rightarrow>
           banner + hello + deliv \<le> left \<and> 0 \<le> banner \<and> 0 \<le> hello \<and> 0 \<le> deliv)
    \<and> (left > minSMTPTimeout \<longrightarrow> commandTimeout reused cfg (Some left) current \<le> left)
    \<and> commandTimeout True cfg None current = (if SMTPTimeoutSeconds cfg > 0 then SMTPTimeoutSeconds cfg * Second else current)
    \<and> dataTerminationTimeout (Some left) cfg fallback \<le> max left minSMTPTimeout"
proof -
  let ?b = "BannerTimeoutSeconds cfg * Second" and ?h = "HandshakeTimeoutSeconds cfg * Second"
    and ?d = "SMTPTimeoutSeconds cfg * Second"
  have "case phasedTimeouts cfg (Some left) of (banner, hello, deliv) \<Rightarrow>
      banner + hello + deliv \<le> left \<and> 0 \<le> banner \<and> 0 \<le> hello \<and> 0 \<le> deliv"
  proof (cases "left < ?b + ?h + ?d")
    case True
    with scale_sum [OF assms(1) True] scale_nonneg [OF assms(1) True] assms show ?thesis
      by (simp add: phasedTimeouts_def Let_def)
  next
    case False
    with assms show ?thesis by (simp add: phasedTimeouts_def Let_def)
  qed
  then show ?thesis
    by (simp add: commandTimeout_def dataTerminationTimeout_def Let_def)
qed

theorem timeouts_within_deadline_witness:
  "phasedTimeouts sample_cfg (Some (45 * Second)) = (11250000000, 11250000000, 22500000000)
   \<and> (case phasedTimeouts sample_cfg (Some (45 * Second)) of (banner, hello, deliv) \<Rightarrow> banner + hello + deliv \<le> 45 * Second)"
proof -
  have "0 \<le> BannerTimeoutSeconds sample_cfg" "0 \<le> HandshakeTimeoutSeconds sample_cfg" "0 \<le> SMTPTimeoutSeconds sample_cfg"
    by code_simp+
  moreover have "phasedTimeouts sample_cfg (Some (45 * Second)) = (11250000000, 11250000000, 22500000000)" by code_simp
  ultimately show ?thesis using timeouts_within_deadline [of "45 * Second" sample_cfg] by auto
qed

lemma ParseIP_Nil [simp]: "ParseIP [] = None"
  by code_simp

lemma scanTargets_spec:
  "scanTargets want ips fb = (target, other) \<Longrightarrow>
     (target \<noteq> [] \<longrightarrow> target \<in> set ips \<and> ip_is_v6 target = Some want)
     \<and> (target = [] \<longrightarrow> (\<forall>ip\<in>set ips. ip_is_v6 ip \<noteq> Some want))
     \<and> (other \<noteq> fb \<longrightarrow> fb = [] \<and> other \<in> set ips \<and> ip_is_v6 other = Some (\<not> want))
     \<and> (target = [] \<longrightarrow> other = [] \<longrightarrow> (\<forall>ip\<in>set ips. ip_is_v6 ip = None))"
proof (induction want ips fb arbitrary: target other rule: scanTargets.induct)
  case (1 want fb)
  then show ?case by simp
next
  case (2 want ip ips fb)
  show ?case
  proof (cases "ParseIP ip")
    case None
    with 2 show ?thesis by (auto simp: ip_is_v6_def)
  next
    case (Some p)
    then have fam: "ip_is_v6 ip = Some (To4 p = None)" by (simp add: ip_is_v6_def)
    show ?thesis
    proof (cases "want = (To4 p = None)")
      case True
      with 2(3) Some fam show ?thesis by auto
    next
      case False
      with 2(2) [OF Some False, of target other] 2(3) Some fam show ?thesis
        by (auto split: if_splits)
    qed
  qed
qed

text \<open>
  The address a connection is made to: it is one of the addresses of the host, of the family of the
  source address if one is bound, else of the preferred family if the host has such an address. Without
  an address that fits, no connection is attempted.
\<close>

lemma target_family:
  "case selectTargetIP t mx ips ip pref of
     Inr target \<Rightarrow> target \<in> set ips
       \<and> (ip \<noteq> [] \<longrightarrow> ip_is_v6 target = Some (wantsIPv6 ip pref))
       \<and> (ip = [] \<longrightarrow> ip_is_v6 target = Some pref
            \<or> ip_is_v6 target = Some (\<not> pref) \<and> (\<forall>a\<in>set ips. ip_is_v6 a \<noteq> Some pref))
   | Inl (res, e) \<Rightarrow> (\<forall>a\<in>set ips. ip_is_v6 a \<noteq> Some (wantsIPv6 ip pref))
       \<and> Status res = (if ips = [] then ''temp_fail'' else ''error'')"
proof -
  obtain target other where scan: "scanTargets (wantsIPv6 ip pref) ips [] = (target, other)" by force
  note facts = scanTargets_spec [OF scan]
  show ?thesis
  proof (cases "ip = []")
    case True
    then have "wantsIPv6 ip pref = pref" by (simp add: wantsIPv6_def)
    with True facts scan show ?thesis by (auto simp: selectTargetIP_def Let_def)
  next
    case False
    with facts scan show ?thesis by (auto simp: selectTargetIP_def Let_def)
  qed
qed

lemma target_family_witness:
  "selectTargetIP ''t'' ''mx'' [''::1'', ''192.0.2.7''] ''192.0.2.1'' True = Inr ''192.0.2.7''
   \<and> ip_is_v6 ''192.0.2.7'' = Some (wantsIPv6 ''192.0.2.1'' True)"
proof -
  have "selectTargetIP ''t'' ''mx'' [''::1'', ''192.0.2.7''] ''192.0.2.1'' True = Inr ''192.0.2.7''" by code_simp
  with target_family [where t = "''t''" and mx = "''mx''" and ips = "[''::1'', ''192.0.2.7'']" and ip = "''192.0.2.1''" and pref = True]
  show ?thesis by simp
qed

text \<open>
  If the deadline passes after the connection is made and the context has not been told yet, the dial
  returns neither a connection nor an error, and the attempt reads through a nil pointer.
\<close>

lemma deadline_race_panics:
  "fst (sample_attempt (ok_env\<lparr>dialScript := ok_dial\<lparr>remainingShake := Some 0\<rparr>\<rparr>)) = None"
  by code_simp

lemma attempt_panics_only_in_race:
  assumes "freshAttempt env cfg t from to msg mx ips ip pref protocol dk tp = (None, tp')"
  shows "deadline_race (dialScript env)"
proof -
  obtain dr res err tp1 where dial: "dialAndHello (dialScript env) cfg t mx ips ip pref protocol tp = (dr, res, err, tp1)"
    by (metis prod_cases4)
  with dialAndHello_dialled [of "dialScript env" protocol tp cfg t mx ips ip pref]
  have "dialled (dialScript env) protocol tp (dr, res, err, tp1)" by simp
  with assms dial show ?thesis
    by (auto simp: freshAttempt_def dialled_def given_connection_def split: option.splits prod.splits if_splits)
qed

text \<open>
  A success code other than the expected one at the end of data leaves the attempt with the status
  \<open>error\<close>, which is not final, although the message may have been accepted.
\<close>

lemma odd_success_not_final:
  "let (r, tp) = sample_attempt (ok_env\<lparr>freshScript := ok_script\<lparr>replyEnd := Inl (ErrSMTP 251 ''ok'' ''SMTP error 251: ok'')\<rparr>\<rparr>)
   in map_option Status r = Some ''error'' \<and> map tx_reply (tp_sent tp) = [Some 251] \<and> \<not> isFinalResult ''error''"
  by code_simp

end
