(* ===== verification/Go_Encoding.thy ===== *)
theory Go_Encoding
  imports Go_Prelude
begin

text \<open>
  What strela uses of Go's \<^verbatim>\<open>encoding/base64\<close>, \<^verbatim>\<open>encoding/hex\<close> and \<^verbatim>\<open>mime/quotedprintable\<close>: decoding of
  padded base64, hexadecimal digits of bytes, and the quoted-printable writer with its line buffer.
\<close>

section \<open>Base64\<close>

definition base64_value :: "char \<Rightarrow> nat option" where
  "base64_value c =
     (let n = of_char c :: nat in
      if 65 \<le> n \<and> n \<le> 90 then Some (n - 65)
      else if 97 \<le> n \<and> n \<le> 122 then Some (n - 71)
      else if 48 \<le> n \<and> n \<le> 57 then Some (n + 4)
      else if c = CHR ''+'' then Some 62
      else if c = CHR ''/'' then Some 63
      else None)"

text \<open>Groups of four characters; the last may end in one or two padding characters.\<close>

fun base64_quanta :: "string \<Rightarrow> string option" where
  "base64_quanta [] = Some []"
| "base64_quanta (a # b # c # d # s) =
     (case (base64_value a, base64_value b) of
        (Some w, Some x) \<Rightarrow>
          (case base64_value c of
             None \<Rightarrow> if c = CHR ''='' \<and> d = CHR ''='' \<and> s = [] then Some [char_of (w * 4 + x div 16)] else None
           | Some y \<Rightarrow>
               (case base64_value d of
                  None \<Rightarrow>
                    if d = CHR ''='' \<and> s = [] then Some [char_of (w * 4 + x div 16), char_of (x mod 16 * 16 + y div 4)]
                    else None
                | Some z \<Rightarrow>
                    map_option (\<lambda>r. char_of (w * 4 + x div 16) # char_of (x mod 16 * 16 + y div 4)
                                      # char_of (y mod 4 * 64 + z) # r) (base64_quanta s)))
      | _ \<Rightarrow> None)"
| "base64_quanta _ = None"

text \<open>\<open>StdEncoding.DecodeString\<close>: carriage returns and line feeds are skipped.\<close>

definition base64_DecodeString :: "string \<Rightarrow> goerror + string" where
  "base64_DecodeString s =
     (case base64_quanta (filter (\<lambda>c. c \<noteq> CR \<and> c \<noteq> LF) s) of
        Some bs \<Rightarrow> Inr bs
      | None \<Rightarrow> Inl (ErrText ''illegal base64 data''))"

section \<open>Hexadecimal digits\<close>

definition hex_char :: "nat \<Rightarrow> char" where
  "hex_char n = ''0123456789abcdef'' ! n"

definition hex_EncodeToString :: "string \<Rightarrow> string" where
  "hex_EncodeToString bs = concat (map (\<lambda>c. [hex_char (of_char c div 16), hex_char (of_char c mod 16)]) bs)"

text \<open>The verb \<open>%016x\<close>.\<close>

fun hex_digits :: "nat \<Rightarrow> nat \<Rightarrow> string" where
  "hex_digits 0 n = []"
| "hex_digits (Suc k) n = hex_digits k (n div 16) @ [hex_char (n mod 16)]"

section \<open>Quoted-printable\<close>

text \<open>
  The writer keeps the current line, at most 76 characters long, and whether the last byte was a carriage
  return; \<open>qp_out\<close> is what it has passed on.
\<close>

record qp_writer =
  qp_line :: string
  qp_cr :: bool
  qp_out :: string

definition qp_upper :: "nat \<Rightarrow> char" where
  "qp_upper n = ''0123456789ABCDEF'' ! n"

definition qp_hex :: "char \<Rightarrow> string" where
  "qp_hex c = [CHR ''='', qp_upper (of_char c div 16), qp_upper (of_char c mod 16)]"

definition qp_white :: "char \<Rightarrow> bool" where
  "qp_white c \<longleftrightarrow> c = CHR '' '' \<or> c = CHR 0x09"

definition qp_plain :: "char \<Rightarrow> bool" where
  "qp_plain c \<longleftrightarrow> (33 \<le> (of_char c :: nat) \<and> (of_char c :: nat) \<le> 126 \<and> c \<noteq> CHR ''='') \<or> qp_white c"

definition qp_insertCRLF :: "qp_writer \<Rightarrow> qp_writer" where
  "qp_insertCRLF w = w\<lparr>qp_line := [], qp_out := qp_out w @ qp_line w @ [CR, LF]\<rparr>"

definition qp_insertSoftLineBreak :: "qp_writer \<Rightarrow> qp_writer" where
  "qp_insertSoftLineBreak w = qp_insertCRLF (w\<lparr>qp_line := qp_line w @ ''=''\<rparr>)"

definition qp_encode :: "char \<Rightarrow> qp_writer \<Rightarrow> qp_writer" where
  "qp_encode c w =
     (let w1 = (if length (qp_line w) > 72 then qp_insertSoftLineBreak w else w)
      in w1\<lparr>qp_line := qp_line w1 @ qp_hex c\<rparr>)"

text \<open>White space at the end of a line is encoded.\<close>

definition qp_checkLastByte :: "qp_writer \<Rightarrow> qp_writer" where
  "qp_checkLastByte w =
     (if qp_line w \<noteq> [] \<and> qp_white (last (qp_line w))
      then qp_encode (last (qp_line w)) (w\<lparr>qp_line := butlast (qp_line w)\<rparr>)
      else w)"

definition qp_writeByte :: "char \<Rightarrow> qp_writer \<Rightarrow> qp_writer" where
  "qp_writeByte c w =
     (if c = LF \<or> c = CR then
        if qp_cr w \<and> c = LF then w\<lparr>qp_cr := False\<rparr>
        else (qp_insertCRLF (qp_checkLastByte w))\<lparr>qp_cr := (c = CR)\<rparr>
      else if qp_plain c then
        let w1 = (if length (qp_line w) = 75 then qp_insertSoftLineBreak w else w)
        in w1\<lparr>qp_line := qp_line w1 @ [c], qp_cr := False\<rparr>
      else qp_encode c w)"

definition qp_Close :: "qp_writer \<Rightarrow> string" where
  "qp_Close w = (let w1 = qp_checkLastByte w in qp_out w1 @ qp_line w1)"

definition quotedPrintable :: "string \<Rightarrow> string" where
  "quotedPrintable s = qp_Close (fold qp_writeByte s \<lparr>qp_line = [], qp_cr = False, qp_out = []\<rparr>)"

subsection \<open>What a reader of the encoding gets\<close>

text \<open>Decoding as RFC 2045 describes it: soft line breaks vanish, escaped bytes are replaced.\<close>

definition unhex :: "char \<Rightarrow> nat" where
  "unhex c = (let n = of_char c :: nat in if n \<le> 57 then n - 48 else n - 55)"

fun qpDecode :: "string \<Rightarrow> string" where
  "qpDecode (a # b # c # s) =
     (if a = CHR ''='' then (if b = CR \<and> c = LF then qpDecode s else char_of (unhex b * 16 + unhex c) # qpDecode s)
      else a # qpDecode (b # c # s))"
| "qpDecode (a # s) = a # qpDecode s"
| "qpDecode [] = []"

text \<open>
  The text with network line ends: each line feed, carriage return or pair of both becomes a pair. A line
  feed is skipped also if only escaped bytes stand between it and a carriage return.
\<close>

fun netEOL :: "bool \<Rightarrow> string \<Rightarrow> string" where
  "netEOL cr [] = []"
| "netEOL cr (c # s) =
     (if c = LF \<or> c = CR then (if cr \<and> c = LF then netEOL False s else CR # LF # netEOL (c = CR) s)
      else c # netEOL (cr \<and> \<not> qp_plain c) s)"

text \<open>Sequences of complete tokens: plain characters, escapes and soft line breaks.\<close>

fun whole :: "string \<Rightarrow> bool" where
  "whole (a # b # c # s) =
     (if a = CHR ''='' then \<not> qp_white b \<and> \<not> qp_white c \<and> whole s else whole (b # c # s))"
| "whole (a # s) \<longleftrightarrow> a \<noteq> CHR ''='' \<and> whole s"
| "whole [] \<longleftrightarrow> True"

lemma whole_append: "whole s \<Longrightarrow> whole (s @ t) = whole t \<and> qpDecode (s @ t) = qpDecode s @ qpDecode t"
proof (induction s rule: whole.induct, goal_cases)
  case (1 a b c s)
  then show ?case by (auto split: if_splits)
next
  case (2 a)
  then show ?case by (cases t; cases "tl t") auto
next
  case (3 a b)
  then show ?case by (cases t) (auto split: if_splits)
qed simp

lemma whole_butlast: "whole (s @ [c]) \<Longrightarrow> qp_white c \<Longrightarrow> whole s"
  by (induction s rule: whole.induct) (auto simp: qp_white_def split: if_splits)

lemma qp_hex_nibbles: "of_char c div 16 < (16::nat)" "of_char c mod 16 < (16::nat)"
  using nat_of_char_less_256 [of c] by linarith+

lemma below_16: "n < (16::nat) \<longleftrightarrow> n \<in> set [0..<16]"
  by simp

lemma qp_upper_facts:
  "n < 16 \<Longrightarrow> unhex (qp_upper n) = n \<and> \<not> qp_white (qp_upper n) \<and> qp_upper n \<noteq> CR \<and> qp_upper n \<noteq> LF"
proof -
  have "list_all (\<lambda>n. unhex (qp_upper n) = n \<and> \<not> qp_white (qp_upper n) \<and> qp_upper n \<noteq> CR \<and> qp_upper n \<noteq> LF) [0..<16]"
    by (simp add: upt_rec unhex_def qp_upper_def qp_white_def Let_def)
  then show "n < 16 \<Longrightarrow> ?thesis" unfolding below_16 list_all_iff by blast
qed

lemma qp_hex_token: "whole (qp_hex c) \<and> qpDecode (qp_hex c) = [c] \<and> CR \<notin> set (qp_hex c) \<and> length (qp_hex c) = 3"
  using qp_upper_facts [OF qp_hex_nibbles(1) [of c]] qp_upper_facts [OF qp_hex_nibbles(2) [of c]]
  by (auto simp: qp_hex_def)

text \<open>The state of the writer: complete lines of at most 76 characters, and a last line of at most 75.\<close>

definition qp_lines :: "string list \<Rightarrow> string" where
  "qp_lines ls = concat (map (\<lambda>l. l @ [CR, LF]) ls)"

definition qp_good :: "qp_writer \<Rightarrow> bool" where
  "qp_good w \<longleftrightarrow>
     (\<exists>ls. qp_out w = qp_lines ls \<and> (\<forall>l\<in>set ls. CR \<notin> set l \<and> length l \<le> 76))
     \<and> CR \<notin> set (qp_line w) \<and> length (qp_line w) \<le> 75 \<and> whole (qp_out w @ qp_line w)"

definition qp_decoded :: "qp_writer \<Rightarrow> string" where
  "qp_decoded w = qpDecode (qp_out w @ qp_line w)"

lemma qp_lines_snoc: "qp_lines (ls @ [l]) = qp_lines ls @ l @ [CR, LF]"
  by (simp add: qp_lines_def)

lemma insertCRLF_good:
  assumes "qp_good w"
  shows "qp_good (qp_insertCRLF w) \<and> qp_decoded (qp_insertCRLF w) = qp_decoded w @ [CR, LF]"
proof -
  from assms obtain ls where ls: "qp_out w = qp_lines ls" "\<forall>l\<in>set ls. CR \<notin> set l \<and> length l \<le> 76"
    and line: "CR \<notin> set (qp_line w)" "length (qp_line w) \<le> 75" and wh: "whole (qp_out w @ qp_line w)"
    by (auto simp: qp_good_def)
  from whole_append [OF wh, of "[CR, LF]"] ls line show ?thesis
    by (auto simp: qp_good_def qp_insertCRLF_def qp_decoded_def qp_lines_snoc intro!: exI [of _ "ls @ [qp_line w]"])
qed

lemma insertSoftLineBreak_good:
  assumes "qp_good w"
  shows "qp_good (qp_insertSoftLineBreak w) \<and> qp_decoded (qp_insertSoftLineBreak w) = qp_decoded w
    \<and> qp_line (qp_insertSoftLineBreak w) = [] \<and> qp_cr (qp_insertSoftLineBreak w) = qp_cr w"
proof -
  from assms obtain ls where ls: "qp_out w = qp_lines ls" "\<forall>l\<in>set ls. CR \<notin> set l \<and> length l \<le> 76"
    and line: "CR \<notin> set (qp_line w)" "length (qp_line w) \<le> 75" and wh: "whole (qp_out w @ qp_line w)"
    by (auto simp: qp_good_def)
  from whole_append [OF wh, of "[CHR ''='', CR, LF]"] ls line show ?thesis
    by (auto simp: qp_good_def qp_insertSoftLineBreak_def qp_insertCRLF_def qp_decoded_def qp_lines_snoc qp_white_def
        intro!: exI [of _ "ls @ [qp_line w @ ''='']"])
qed

text \<open>Putting a token at the end of the line.\<close>

lemma token_good:
  assumes "qp_good w" and "whole t" "CR \<notin> set t" "length (qp_line w) + length t \<le> 75"
  shows "qp_good (w\<lparr>qp_line := qp_line w @ t\<rparr>) \<and> qp_decoded (w\<lparr>qp_line := qp_line w @ t\<rparr>) = qp_decoded w @ qpDecode t"
  using assms whole_append [of "qp_out w @ qp_line w" t] by (auto simp: qp_good_def qp_decoded_def)

lemma encode_good:
  assumes "qp_good w"
  shows "qp_good (qp_encode c w) \<and> qp_decoded (qp_encode c w) = qp_decoded w @ [c] \<and> qp_cr (qp_encode c w) = qp_cr w"
proof -
  let ?w = "if length (qp_line w) > 72 then qp_insertSoftLineBreak w else w"
  have "qp_good ?w \<and> qp_decoded ?w = qp_decoded w \<and> length (qp_line ?w) \<le> 72 \<and> qp_cr ?w = qp_cr w"
    using insertSoftLineBreak_good [OF assms] assms by auto
  with token_good [of ?w "qp_hex c"] qp_hex_token [of c] show ?thesis by (simp add: qp_encode_def Let_def)
qed

lemma checkLastByte_good:
  assumes "qp_good w"
  shows "qp_good (qp_checkLastByte w) \<and> qp_decoded (qp_checkLastByte w) = qp_decoded w"
proof (cases "qp_line w \<noteq> [] \<and> qp_white (last (qp_line w))")
  case True
  define c where "c = last (qp_line w)"
  define w1 where "w1 = w\<lparr>qp_line := butlast (qp_line w)\<rparr>"
  have line: "qp_line w = qp_line w1 @ [c]" and out: "qp_out w1 = qp_out w" using True by (simp_all add: c_def w1_def)
  have white: "qp_white c" using True by (simp add: c_def)
  have "whole ((qp_out w1 @ qp_line w1) @ [c])" using assms unfolding qp_good_def line out by simp
  then have wh: "whole (qp_out w1 @ qp_line w1)" using white by (rule whole_butlast)
  have good: "qp_good w1" using assms wh unfolding qp_good_def line out by simp
  have "qp_decoded w = qp_decoded w1 @ [c]"
    using whole_append [OF wh, of "[c]"] by (simp add: qp_decoded_def line out)
  moreover have "qp_checkLastByte w = qp_encode c w1" using True by (simp add: qp_checkLastByte_def c_def w1_def)
  ultimately show ?thesis using encode_good [OF good, of c] by simp
qed (use assms in \<open>auto simp: qp_checkLastByte_def\<close>)

lemma plain_token: "qp_plain c \<Longrightarrow> whole [c] \<and> CR \<notin> set [c] \<and> qpDecode [c] = [c]"
  by (auto simp: qp_plain_def qp_white_def)

lemma writeByte_good:
  assumes "qp_good w"
  shows "qp_good (qp_writeByte c w) \<and> qp_decoded (qp_writeByte c w) @ netEOL (qp_cr (qp_writeByte c w)) s
    = qp_decoded w @ netEOL (qp_cr w) (c # s)"
proof -
  consider (skip) "c = LF" "qp_cr w" | (eol) "c = LF \<or> c = CR" "\<not> (qp_cr w \<and> c = LF)"
    | (plain) "c \<noteq> LF" "c \<noteq> CR" "qp_plain c" | (escape) "c \<noteq> LF" "c \<noteq> CR" "\<not> qp_plain c" by blast
  then show ?thesis
  proof cases
    case skip
    with assms show ?thesis by (simp add: qp_writeByte_def qp_good_def qp_decoded_def)
  next
    case eol
    with checkLastByte_good [OF assms] insertCRLF_good [of "qp_checkLastByte w"] show ?thesis
      by (auto simp: qp_writeByte_def qp_good_def qp_decoded_def)
  next
    case plain
    let ?w = "if length (qp_line w) = 75 then qp_insertSoftLineBreak w else w"
    have "qp_good ?w \<and> qp_decoded ?w = qp_decoded w \<and> length (qp_line ?w) < 75"
      using insertSoftLineBreak_good [OF assms] assms by (auto simp: qp_good_def)
    with token_good [of ?w "[c]"] plain_token [OF plain(3)] plain show ?thesis
      by (simp add: qp_writeByte_def Let_def qp_good_def qp_decoded_def)
  next
    case escape
    with encode_good [OF assms, of c] show ?thesis by (auto simp: qp_writeByte_def)
  qed
qed

lemma fold_writeByte_good:
  "qp_good w \<Longrightarrow> qp_good (fold qp_writeByte s w) \<and> qp_decoded (fold qp_writeByte s w) = qp_decoded w @ netEOL (qp_cr w) s"
proof (induction s arbitrary: w)
  case (Cons c s)
  from Cons.IH [of "qp_writeByte c w"] writeByte_good [OF Cons.prems, of c s] show ?case by simp
qed simp

lemma Split_qp_lines:
  "\<forall>l\<in>set ls. CR \<notin> set l \<Longrightarrow> CR \<notin> set r \<Longrightarrow> Split (qp_lines ls @ r) [CR, LF] = ls @ [r]"
proof (induction ls)
  case Nil
  then have "\<not> Contains r [CR, LF]" by (auto simp: Contains_def sublist_def)
  then show ?case by (subst Split.simps) (simp add: qp_lines_def Index_None_iff [THEN iffD2])
next
  case (Cons l ls)
  have "Index (l @ [CR, LF] @ (qp_lines ls @ r)) [CR, LF] = Some (length l)"
    by (rule Index_sep) (use Cons.prems in auto)
  with Cons show ?case by (subst Split.simps) (simp add: qp_lines_def)
qed

text \<open>The encoding in short lines, and what it decodes to.\<close>

lemma quotedPrintable_lines: "l \<in> set (Split (quotedPrintable s) [CR, LF]) \<Longrightarrow> length l \<le> 76"
  and qpDecode_quotedPrintable: "qpDecode (quotedPrintable s) = netEOL False s"
proof -
  define w0 where "w0 = \<lparr>qp_line = [], qp_cr = False, qp_out = []\<rparr>"
  have "qp_good w0" by (simp add: qp_good_def w0_def qp_lines_def)
  from fold_writeByte_good [OF this, of s]
  have good: "qp_good (qp_checkLastByte (fold qp_writeByte s w0))"
    and dec: "qp_decoded (qp_checkLastByte (fold qp_writeByte s w0)) = netEOL False s"
    using checkLastByte_good [of "fold qp_writeByte s w0"] by (auto simp: w0_def qp_decoded_def)
  from dec show "qpDecode (quotedPrintable s) = netEOL False s"
    by (simp add: quotedPrintable_def qp_Close_def Let_def w0_def qp_decoded_def)
  from good obtain ls where "\<forall>l\<in>set ls. CR \<notin> set l \<and> length l \<le> 76"
    "qp_out (qp_checkLastByte (fold qp_writeByte s w0)) = qp_lines ls"
    "CR \<notin> set (qp_line (qp_checkLastByte (fold qp_writeByte s w0)))"
    "length (qp_line (qp_checkLastByte (fold qp_writeByte s w0))) \<le> 75" by (auto simp: qp_good_def)
  then show "l \<in> set (Split (quotedPrintable s) [CR, LF]) \<Longrightarrow> length l \<le> 76"
    using Split_qp_lines [of ls "qp_line (qp_checkLastByte (fold qp_writeByte s w0))"]
    by (auto simp: quotedPrintable_def qp_Close_def Let_def w0_def)
qed

end
