(* ===== verification/DKIM.thy ===== *)
theory DKIM
  imports DNS_Resolver Go_Encoding "HOL-Library.Multiset"
begin

text \<open>
  The DKIM package, \<^verbatim>\<open>internal/dkim\<close>: parsing of private keys, signing, validation of the published key
  and the store of per-domain keys with its selector map and its bounded cache. The cryptographic
  library, the file system and the address parser are parameters.
\<close>

section \<open>Keys and signing\<close>

record rsa_key =
  rsa_N :: nat
  rsa_E :: nat

record sign_options =
  so_Domain :: string
  so_Selector :: string
  so_Signer :: rsa_key
  so_HeaderCanon :: string
  so_BodyCanon :: string
  so_HeaderKeys :: "string list"
  so_Expiration :: "gotime option"

text \<open>
  The library: PEM and key parsing, and the signing of a message, which prepends a signature field. Private
  keys of the PKCS 8 format and public keys may be of another kind than RSA, then the key is \<^const>\<open>None\<close>.
\<close>

record crypto_lib =
  pemDecode :: "string \<Rightarrow> (string \<times> string) option"
  parsePKCS1 :: "string \<Rightarrow> goerror + rsa_key"
  parsePKCS8 :: "string \<Rightarrow> goerror + rsa_key option"
  parsePKIX :: "string \<Rightarrow> goerror + rsa_key option"
  signWith :: "sign_options \<Rightarrow> string \<Rightarrow> goerror + string"

fun bitLen :: "nat \<Rightarrow> nat" where
  "bitLen n = (if n = 0 then 0 else Suc (bitLen (n div 2)))"

declare bitLen.simps [simp del]

definition parsePrivateKey :: "crypto_lib \<Rightarrow> string \<Rightarrow> goerror + rsa_key" where
  "parsePrivateKey lib pemData =
     (case pemDecode lib (TrimSpace pemData) of
        None \<Rightarrow> Inl (ErrText ''failed to decode PEM block'')
      | Some (type, bytes) \<Rightarrow>
          if type = ''RSA PRIVATE KEY'' then
            (case parsePKCS1 lib bytes of
               Inl e \<Rightarrow> Inl (wrapErr ''failed to parse PKCS#1 RSA private key: '' e)
             | Inr key \<Rightarrow> Inr key)
          else if type = ''PRIVATE KEY'' then
            (case parsePKCS8 lib bytes of
               Inl e \<Rightarrow> Inl (wrapErr ''failed to parse PKCS#8 private key: '' e)
             | Inr None \<Rightarrow> Inl (ErrText ''parsed key is not an RSA private key'')
             | Inr (Some key) \<Rightarrow> Inr key)
          else Inl (ErrText (''unsupported PEM block type: '' @ type @ '' (expected '' @ [CHR 0x27] @ ''RSA PRIVATE KEY''
                 @ [CHR 0x27] @ '' or '' @ [CHR 0x27] @ ''PRIVATE KEY'' @ [CHR 0x27] @ '')'')))"

definition unsupportedSize :: "nat \<Rightarrow> goerror" where
  "unsupportedSize keySize =
     ErrText (''unsupported RSA key size: '' @ Itoa (int keySize) @ '' bits (must be between 1024 and 4096)'')"

definition ValidatePrivateKey :: "crypto_lib \<Rightarrow> string \<Rightarrow> nat \<times> goerror option" where
  "ValidatePrivateKey lib privateKeyPEM =
     (case parsePrivateKey lib privateKeyPEM of
        Inl e \<Rightarrow> (0, Some e)
      | Inr key \<Rightarrow>
          let keySize = bitLen (rsa_N key) in
          if keySize < 1024 \<or> keySize > 4096 then (keySize, Some (unsupportedSize keySize)) else (keySize, None))"

definition dkimHeaderKeys :: "string list" where
  "dkimHeaderKeys = [''from'', ''to'', ''subject'', ''date'', ''message-id'', ''mime-version'', ''content-type'']"

definition SignMessage :: "crypto_lib \<Rightarrow> gotime \<Rightarrow> string \<Rightarrow> string \<Rightarrow> string \<Rightarrow> string \<Rightarrow> goerror + string" where
  "SignMessage lib now rawMessage privateKeyPEM selector domain =
     (case parsePrivateKey lib privateKeyPEM of
        Inl e \<Rightarrow> Inl (wrapErr ''failed to parse DKIM private key: '' e)
      | Inr key \<Rightarrow>
          let keySize = bitLen (rsa_N key) in
          if keySize < 1024 \<or> keySize > 4096 then Inl (unsupportedSize keySize)
          else
            let options = \<lparr>so_Domain = domain, so_Selector = selector, so_Signer = key, so_HeaderCanon = [],
                           so_BodyCanon = [], so_HeaderKeys = dkimHeaderKeys, so_Expiration = Some (now + 7 * 24 * Hour)\<rparr>
            in case signWith lib options rawMessage of
                 Inl e \<Rightarrow> Inl (wrapErr ''failed to sign message with DKIM: '' e)
               | Inr signedMsg \<Rightarrow> Inr signedMsg)"

definition ExtractDomainFromEmail :: "string \<Rightarrow> string" where
  "ExtractDomainFromEmail email =
     (case Split email ''@'' of [_, domain] \<Rightarrow> ToLower domain | _ \<Rightarrow> [])"

section \<open>Validation of the published key\<close>

text \<open>The value of the first \<open>p=\<close> tag of a record, white space removed.\<close>

definition extractPublicKeyFromDKIM :: "string \<Rightarrow> string" where
  "extractPublicKeyFromDKIM rec0 =
     (let rec1 = ReplaceAll (ReplaceAll (ReplaceAll rec0 '' '' []) [LF] []) [CHR 0x09] [] in
      case find (\<lambda>part. HasPrefix part ''p='') (map TrimSpace (Split rec1 '';'')) of
        Some part \<Rightarrow> TrimPrefix part ''p=''
      | None \<Rightarrow> [])"

definition publicKeysMatch :: "rsa_key \<Rightarrow> rsa_key \<Rightarrow> bool" where
  "publicKeysMatch k1 k2 \<longleftrightarrow> rsa_E k1 = rsa_E k2 \<and> rsa_N k1 = rsa_N k2"

definition checkPublicKey :: "crypto_lib \<Rightarrow> string \<Rightarrow> string \<Rightarrow> goerror option" where
  "checkPublicKey lib publicKeyB64 privateKeyPEM =
     (case parsePrivateKey lib privateKeyPEM of
        Inl e \<Rightarrow> Some (wrapErr ''failed to parse private key: '' e)
      | Inr key \<Rightarrow>
          (case base64_DecodeString publicKeyB64 of
             Inl e \<Rightarrow> Some (wrapErr ''failed to decode public key from DNS: '' e)
           | Inr der \<Rightarrow>
               (case parsePKIX lib der of
                  Inl e \<Rightarrow> Some (wrapErr ''failed to parse public key from DNS: '' e)
                | Inr None \<Rightarrow> Some (ErrText ''public key in DNS is not an RSA key'')
                | Inr (Some pub) \<Rightarrow>
                    if \<not> publicKeysMatch key pub
                    then Some (ErrText ''public key in DNS does not match the provided private key'') else None)))"

definition ValidateDKIMConfiguration ::
  "crypto_lib \<Rightarrow> (string \<Rightarrow> goerror + string list) \<Rightarrow> string \<Rightarrow> string \<Rightarrow> string \<Rightarrow> goerror option" where
  "ValidateDKIMConfiguration lib lookupTXT selector domain privateKeyPEM =
     (let dnsName = selector @ ''._domainkey.'' @ domain in
      case lookupTXT dnsName of
        Inl e \<Rightarrow> Some (wrapErr (''DKIM DNS lookup failed for '' @ dnsName @ '': '') e)
      | Inr txtRecords \<Rightarrow>
          if txtRecords = [] then Some (ErrText (''no DKIM TXT record found for '' @ dnsName))
          else let fullRecord = Join txtRecords [] in
            if \<not> Contains fullRecord ''v=DKIM1''
            then Some (ErrText (''no valid DKIM record (v=DKIM1) found for '' @ dnsName))
            else let publicKeyB64 = extractPublicKeyFromDKIM fullRecord in
              if publicKeyB64 = []
              then Some (ErrText (''no public key (p=...) found in DKIM record for '' @ dnsName))
              else if privateKeyPEM \<noteq> [] then checkPublicKey lib publicKeyB64 privateKeyPEM else None)"

section \<open>Key store\<close>

record keyCacheEntry =
  ke_keyPEM :: string
  ke_found :: bool
  ke_expires :: gotime

record KeyStore =
  keyDir :: string
  selectorMapPath :: string
  fallbackSelector :: string
  cacheSize :: int
  selectors :: "(string \<times> string) list"
  mapModTime :: gotime
  nextMapCheck :: gotime
  keyCache :: "(string \<times> keyCacheEntry) list"

text \<open>
  The file system: status of a path (an error, or whether it is a directory and its modification
  time), the lines of the selector map with its modification time (or the error of opening, of the status
  or of reading, with its label), and the contents of the file with
  the given path elements. The reads of key files are recorded by the lookup.
\<close>

record key_fs =
  fsStat :: "string \<Rightarrow> goerror + (bool \<times> gotime)"
  fsLines :: "string \<Rightarrow> goerror + (string list \<times> gotime)"
  fsRead :: "string list \<Rightarrow> goerror + string"

definition safePathComponent :: "string \<Rightarrow> bool" where
  "safePathComponent s \<longleftrightarrow> s \<noteq> [] \<and> \<not> ContainsAny s [CHR ''/'', CHR 0x5C] \<and> \<not> Contains s ''..''"

text \<open>\<open>strings.Fields\<close>: the maximal runs without white space.\<close>

function Fields :: "string \<Rightarrow> string list" where
  "Fields s =
     (let t = dropWhile is_space s in
      if t = [] then [] else takeWhile (\<lambda>c. \<not> is_space c) t # Fields (dropWhile (\<lambda>c. \<not> is_space c) t))"
  by pat_completeness auto
termination
proof (relation "measure length", goal_cases)
  case 1
  show ?case by simp
next
  case (2 s t)
  then obtain c r where t: "dropWhile is_space s = c # r" by (cases "dropWhile is_space s") auto
  then have "\<not> is_space c" using hd_dropWhile [of is_space s] by auto
  then have "length (dropWhile (\<lambda>c. \<not> is_space c) (c # r)) \<le> length r" by (simp add: length_dropWhile_le)
  moreover have "Suc (length r) \<le> length s" using t length_dropWhile_le [of is_space s] by simp
  ultimately show ?case using 2 t by simp
qed

declare Fields.simps [simp del]

definition selectorLine :: "string \<Rightarrow> (string \<times> string) list \<Rightarrow> (string \<times> string) list" where
  "selectorLine line0 m =
     (let line = TrimSpace line0 in
      if line = [] \<or> HasPrefix line ''#'' then m
      else case Fields line of
        domain # selector # _ \<Rightarrow> AList.update (ToLower domain) selector m
      | _ \<Rightarrow> m)"

definition reloadSelectorMap :: "key_fs \<Rightarrow> KeyStore \<Rightarrow> goerror option \<times> KeyStore" where
  "reloadSelectorMap fs ks =
     (case fsLines fs (selectorMapPath ks) of
        Inl e \<Rightarrow> (Some e, ks)
      | Inr (ls, modTime) \<Rightarrow>
          (None, ks\<lparr>selectors := foldl (\<lambda>m l. selectorLine l m) [] ls, mapModTime := modTime\<rparr>))"

definition NewKeyStore :: "key_fs \<Rightarrow> string \<Rightarrow> string \<Rightarrow> string \<Rightarrow> int \<Rightarrow> goerror + KeyStore" where
  "NewKeyStore fs dir mapPath fallback sz =
     (case fsStat fs dir of
        Inl e \<Rightarrow> Inl (wrapErr ''DKIM key directory not accessible: '' e)
      | Inr (isDir, _) \<Rightarrow>
          if \<not> isDir then Inl (ErrText (''DKIM key directory is not a directory: '' @ dir))
          else
            let ks = \<lparr>keyDir = dir, selectorMapPath = mapPath, fallbackSelector = fallback,
                      cacheSize = (if sz \<le> 0 then 20000 else sz), selectors = [], mapModTime = 0, nextMapCheck = 0,
                      keyCache = []\<rparr>
            in if mapPath \<noteq> [] then
                 (case reloadSelectorMap fs ks of (Some e, _) \<Rightarrow> Inl e | (None, ks') \<Rightarrow> Inr ks')
               else Inr ks)"

definition maybeReloadSelectorMap :: "key_fs \<Rightarrow> gotime \<Rightarrow> KeyStore \<Rightarrow> KeyStore" where
  "maybeReloadSelectorMap fs now ks =
     (if selectorMapPath ks = [] then ks
      else if \<not> nextMapCheck ks < now then ks
      else
        let ks1 = ks\<lparr>nextMapCheck := now + 1 * Minute\<rparr> in
        case fsStat fs (selectorMapPath ks) of
          Inl _ \<Rightarrow> ks1
        | Inr (_, modTime) \<Rightarrow>
            if modTime = mapModTime ks then ks1 else snd (reloadSelectorMap fs ks1))"

text \<open>
  Eviction: deletion of the entries that satisfy a predicate, in the order of the given keys, as long as
  the cache is full. The order of Go's map iteration is a parameter.
\<close>

fun dropWhileFull ::
  "int \<Rightarrow> (keyCacheEntry \<Rightarrow> bool) \<Rightarrow> string list \<Rightarrow> (string \<times> keyCacheEntry) list \<Rightarrow> (string \<times> keyCacheEntry) list" where
  "dropWhileFull sz P [] c = c"
| "dropWhileFull sz P (k # ks) c =
     (if int (length c) < sz then c
      else case map_of c k of
        Some e \<Rightarrow> dropWhileFull sz P ks (if P e then AList.delete k c else c)
      | None \<Rightarrow> dropWhileFull sz P ks c)"

definition evict ::
  "(string list \<Rightarrow> string list) \<Rightarrow> gotime \<Rightarrow> int \<Rightarrow> (string \<times> keyCacheEntry) list \<Rightarrow> (string \<times> keyCacheEntry) list" where
  "evict order now sz c0 =
     (let c1 = filter (\<lambda>(k, e). \<not> ke_expires e < now) c0;
          c2 = dropWhileFull sz (\<lambda>e. \<not> ke_found e) (order (map fst c1)) c1
      in dropWhileFull sz (\<lambda>e. True) (order (map fst c2)) c2)"

definition storeCacheEntry ::
  "(string list \<Rightarrow> string list) \<Rightarrow> gotime \<Rightarrow> string \<Rightarrow> keyCacheEntry \<Rightarrow> KeyStore \<Rightarrow> KeyStore" where
  "storeCacheEntry order now key entry ks =
     (let c = (if int (length (keyCache ks)) \<ge> cacheSize ks then evict order now (cacheSize ks) (keyCache ks)
               else keyCache ks)
      in ks\<lparr>keyCache := AList.update key entry c\<rparr>)"

record key_env =
  ke_lib :: crypto_lib
  ke_fs :: key_fs
  ke_order :: "string list \<Rightarrow> string list"
  mapClock :: gotime
  lookupClock :: gotime
  storeClock :: gotime

text \<open>
  A lookup: the key and the selector if a key was found, the paths that were read, and the store.
\<close>

definition readKey ::
  "key_env \<Rightarrow> string \<Rightarrow> string \<Rightarrow> string \<Rightarrow> KeyStore \<Rightarrow> (string \<times> string) option \<times> string list list \<times> KeyStore" where
  "readKey env cacheKey selector domain ks =
     (let path = [keyDir ks, selector, domain @ ''.key''];
          now = lookupClock env;
          missing = storeCacheEntry (ke_order env) (storeClock env) cacheKey
                      \<lparr>ke_keyPEM = [], ke_found = False, ke_expires = now + 5 * Minute\<rparr> ks
      in case fsRead (ke_fs env) path of
           Inl _ \<Rightarrow> (None, [path], missing)
         | Inr data \<Rightarrow>
             (case parsePrivateKey (ke_lib env) data of
                Inl _ \<Rightarrow> (None, [path], missing)
              | Inr _ \<Rightarrow>
                  (Some (data, selector), [path],
                   storeCacheEntry (ke_order env) (storeClock env) cacheKey
                     \<lparr>ke_keyPEM = data, ke_found = True, ke_expires = now + 1 * Hour\<rparr> ks)))"

definition KeyStore_Lookup ::
  "key_env \<Rightarrow> string \<Rightarrow> KeyStore \<Rightarrow> (string \<times> string) option \<times> string list list \<times> KeyStore" where
  "KeyStore_Lookup env domain0 ks0 =
     (let domain = ToLower (TrimSpace domain0) in
      if domain = [] \<or> \<not> safePathComponent domain then (None, [], ks0)
      else
        let ks = maybeReloadSelectorMap (ke_fs env) (mapClock env) ks0;
            mapped = (case map_of (selectors ks) domain of Some s \<Rightarrow> s | None \<Rightarrow> []);
            selector = (if mapped = [] then fallbackSelector ks else mapped)
        in if selector = [] \<or> \<not> safePathComponent selector then (None, [], ks)
           else
             let cacheKey = selector @ ''/'' @ domain in
             case map_of (keyCache ks) cacheKey of
               Some entry \<Rightarrow>
                 if lookupClock env < ke_expires entry
                 then (if ke_found entry then Some (ke_keyPEM entry, selector) else None, [], ks)
                 else readKey env cacheKey selector domain ks
             | None \<Rightarrow> readKey env cacheKey selector domain ks)"

definition ExtractFromHeaderDomain :: "(string \<Rightarrow> string option) \<Rightarrow> string \<Rightarrow> string" where
  "ExtractFromHeaderDomain fromAddress message =
     (case fromAddress message of Some address \<Rightarrow> ExtractDomainFromEmail address | None \<Rightarrow> [])"

section \<open>Lemmas\<close>

lemma dropWhileFull_subset: "set (dropWhileFull sz P ks c) \<subseteq> set c"
proof (induction sz P ks c rule: dropWhileFull.induct)
  case (2 sz P k ks c)
  then show ?case by (auto split: option.split simp: AList.delete_eq)
qed simp

lemma length_delete_le: "length (AList.delete k c) \<le> length c"
  by (simp add: AList.delete_eq)

lemma dropWhileFull_distinct: "distinct (map fst c) \<Longrightarrow> distinct (map fst (dropWhileFull sz P ks c))"
  by (induction sz P ks c rule: dropWhileFull.induct) (auto split: option.split simp: distinct_delete)

text \<open>Entries that do not satisfy the predicate survive.\<close>

lemma dropWhileFull_keeps:
  "map_of c k = Some e \<Longrightarrow> \<not> P e \<Longrightarrow> map_of (dropWhileFull sz P ks c) k = Some e"
proof (induction sz P ks c rule: dropWhileFull.induct)
  case (2 sz P k' ks c)
  have "map_of (AList.delete k' c) k = Some e" if "map_of c k' = Some e'" "P e'" for e'
    using that 2(3,4) by (cases "k = k'") (auto simp: delete_conv')
  with 2 show ?case by (auto split: option.split)
qed simp

text \<open>If all entries may go and all keys are visited, the cache is below its sz afterwards.\<close>

lemma dropWhileFull_empties:
  "distinct (map fst c) \<Longrightarrow> fst ` set c \<subseteq> set ks \<Longrightarrow> 0 < sz \<Longrightarrow>
     int (length (dropWhileFull sz (\<lambda>e. True) ks c)) < sz"
proof (induction ks arbitrary: c)
  case Nil
  then show ?case by auto
next
  case (Cons k ks)
  show ?case
  proof (cases "int (length c) < sz")
    case False
    show ?thesis
    proof (cases "map_of c k")
      case None
      then have "fst ` set c \<subseteq> set ks" using Cons.prems(2) by (auto simp: map_of_eq_None_iff)
      with Cons None False show ?thesis by simp
    next
      case (Some e)
      have "fst ` set (AList.delete k c) \<subseteq> set ks" using Cons.prems(2) by (auto simp: AList.delete_eq)
      with Cons Some False show ?thesis by (simp add: distinct_delete)
    qed
  qed simp
qed

lemma dropWhileFull_room:
  assumes "int (length c) < sz"
  shows "dropWhileFull sz P ks c = c"
  using assms by (cases ks) simp_all

text \<open>If the entries that must stay leave room, the deletion of others makes room.\<close>

lemma length_filter_delete: "length (filter P (AList.delete k c)) \<le> length (filter P c)"
  by (induction c) (auto simp: AList.delete_eq)

lemma dropWhileFull_enough:
  "distinct (map fst c) \<Longrightarrow> \<forall>k e. (k, e) \<in> set c \<longrightarrow> P e \<longrightarrow> k \<in> set ks \<Longrightarrow>
     int (length (filter (\<lambda>(k, e). \<not> P e) c)) < sz \<Longrightarrow> int (length (dropWhileFull sz P ks c)) < sz"
proof (induction ks arbitrary: c)
  case Nil
  then have "filter (\<lambda>(k, e). \<not> P e) c = c" by (auto simp: filter_id_conv)
  with Nil show ?case by simp
next
  case (Cons k ks)
  show ?case
  proof (cases "int (length c) < sz")
    case False
    consider (drop) e where "map_of c k = Some e" "P e" | (keep) "\<forall>e. map_of c k = Some e \<longrightarrow> \<not> P e"
      by (cases "map_of c k") auto
    then show ?thesis
    proof cases
      case drop
      let ?c = "AList.delete k c"
      have "int (length (filter (\<lambda>(k, e). \<not> P e) ?c)) < sz"
        using Cons.prems(3) length_filter_delete [of "\<lambda>(k, e). \<not> P e" k c] by linarith
      moreover have "\<forall>k' e. (k', e) \<in> set ?c \<longrightarrow> P e \<longrightarrow> k' \<in> set ks"
        using Cons.prems(2) by (auto simp: AList.delete_eq)
      moreover have "distinct (map fst ?c)" using Cons.prems(1) by (rule distinct_delete)
      ultimately have "int (length (dropWhileFull sz P ks ?c)) < sz" by (intro Cons.IH)
      with drop False show ?thesis by simp
    next
      case keep
      have "\<forall>k' e. (k', e) \<in> set c \<longrightarrow> P e \<longrightarrow> k' \<in> set ks"
        using Cons.prems(1,2) keep map_of_is_SomeI [OF Cons.prems(1)] by (metis set_ConsD)
      with Cons.prems have "int (length (dropWhileFull sz P ks c)) < sz" by (intro Cons.IH)
      with keep False show ?thesis by (auto split: option.split)
    qed
  qed simp
qed

text \<open>
  The invariant of the store: distinct cache keys, no more entries than the size, and every key in it can
  be parsed. Go visits every entry of a map once, in some order.
\<close>

definition visits_all :: "(string list \<Rightarrow> string list) \<Rightarrow> bool" where
  "visits_all order \<longleftrightarrow> (\<forall>ks. mset (order ks) = mset ks)"

definition entry_parses :: "crypto_lib \<Rightarrow> string \<times> keyCacheEntry \<Rightarrow> bool" where
  "entry_parses lib e \<longleftrightarrow> (ke_found (snd e) \<longrightarrow> (\<exists>key. parsePrivateKey lib (ke_keyPEM (snd e)) = Inr key))"

definition store_ok :: "crypto_lib \<Rightarrow> KeyStore \<Rightarrow> bool" where
  "store_ok lib ks \<longleftrightarrow> cacheSize ks > 0 \<and> distinct (map fst (keyCache ks))
     \<and> int (length (keyCache ks)) \<le> cacheSize ks \<and> list_all (entry_parses lib) (keyCache ks)"

lemma visits_set: "visits_all order \<Longrightarrow> set (order ks) = set ks"
  by (metis visits_all_def set_mset_mset)

lemma evict_subset: "set (evict order now sz c) \<subseteq> set c"
  unfolding evict_def Let_def
  by (rule order_trans [OF dropWhileFull_subset order_trans [OF dropWhileFull_subset]]) auto

lemma evict_distinct: "distinct (map fst c) \<Longrightarrow> distinct (map fst (evict order now sz c))"
  by (simp add: evict_def Let_def dropWhileFull_distinct distinct_filter_keys)

lemma evict_room:
  assumes "visits_all order" and "distinct (map fst c)" and "0 < sz"
  shows "int (length (evict order now sz c)) < sz"
  unfolding evict_def Let_def
  by (rule dropWhileFull_empties)
    (use assms in \<open>auto simp: dropWhileFull_distinct distinct_filter_keys visits_set\<close>)

lemma storeCacheEntry_ok:
  assumes "store_ok lib ks" and "visits_all order" and "entry_parses lib (k, e)"
  shows "store_ok lib (storeCacheEntry order now k e ks)"
proof -
  define c where "c = (if int (length (keyCache ks)) \<ge> cacheSize ks then evict order now (cacheSize ks) (keyCache ks)
    else keyCache ks)"
  have room: "int (length c) < cacheSize ks" and dist: "distinct (map fst c)" and sub: "set c \<subseteq> set (keyCache ks)"
    using assms evict_room evict_distinct evict_subset by (auto simp: c_def store_ok_def)
  have "length (AList.update k e c) \<le> Suc (length c)"
    by (induction c) auto
  moreover have "list_all (entry_parses lib) (AList.update k e c)"
    using assms sub by (intro list_all_update) (auto simp: store_ok_def list_all_iff)
  ultimately show ?thesis
    using assms(1) room dist by (simp add: storeCacheEntry_def store_ok_def c_def [symmetric] Let_def distinct_update)
qed

lemma reloadSelectorMap_sel [simp]:
  "cacheSize (snd (reloadSelectorMap fs ks)) = cacheSize ks" "keyCache (snd (reloadSelectorMap fs ks)) = keyCache ks"
  "keyDir (snd (reloadSelectorMap fs ks)) = keyDir ks"
  by (simp_all add: reloadSelectorMap_def split: sum.split)

lemma maybeReload_sel [simp]:
  "cacheSize (maybeReloadSelectorMap fs now ks) = cacheSize ks"
  "keyCache (maybeReloadSelectorMap fs now ks) = keyCache ks"
  "keyDir (maybeReloadSelectorMap fs now ks) = keyDir ks"
  by (simp_all add: maybeReloadSelectorMap_def Let_def split: sum.split)

lemma storeCacheEntry_dir [simp]: "keyDir (storeCacheEntry order now k e ks) = keyDir ks"
  by (simp add: storeCacheEntry_def Let_def)

lemma readKey_spec:
  assumes "readKey env ck sel dm ks = (r, reads, ks')" and "store_ok (ke_lib env) ks" and "visits_all (ke_order env)"
  shows "store_ok (ke_lib env) ks' \<and> reads = [[keyDir ks, sel, dm @ ''.key'']]
    \<and> (\<forall>pem s. r = Some (pem, s) \<longrightarrow> s = sel \<and> (\<exists>key. parsePrivateKey (ke_lib env) pem = Inr key))"
  using assms
  by (auto simp: readKey_def Let_def entry_parses_def intro!: storeCacheEntry_ok split: sum.splits)

section \<open>Properties\<close>

definition confined :: "KeyStore \<Rightarrow> string list \<Rightarrow> bool" where
  "confined ks path \<longleftrightarrow>
     (\<exists>sel dm. path = [keyDir ks, sel, dm @ ''.key''] \<and> safePathComponent sel \<and> safePathComponent dm)"

text \<open>
  C17. A lookup in the key store keeps its invariant, in particular the bound on the cached keys; it reads
  at most one file, always the one of a safe selector and a safe domain inside the key directory,
  whatever the domain it is asked for and the contents of the selector map; and a key it returns can be
  parsed.
\<close>

theorem keystore_lookup_safe:
  assumes "KeyStore_Lookup env domain ks = (r, reads, ks')" and "store_ok (ke_lib env) ks"
    and "visits_all (ke_order env)"
  shows "store_ok (ke_lib env) ks' \<and> length reads \<le> 1 \<and> list_all (confined ks) reads
    \<and> (\<forall>pem sel. r = Some (pem, sel) \<longrightarrow> safePathComponent sel \<and> (\<exists>key. parsePrivateKey (ke_lib env) pem = Inr key))"
proof -
  let ?dm = "ToLower (TrimSpace domain)" and ?ks = "maybeReloadSelectorMap (ke_fs env) (mapClock env) ks"
  let ?m = "case map_of (selectors ?ks) ?dm of Some s \<Rightarrow> s | None \<Rightarrow> []"
  let ?sel = "if ?m = [] then fallbackSelector ?ks else ?m"
  have ok: "store_ok (ke_lib env) ?ks" using assms(2) by (simp add: store_ok_def)
  show ?thesis
  proof (cases "?dm = [] \<or> \<not> safePathComponent ?dm \<or> ?sel = [] \<or> \<not> safePathComponent ?sel")
    case True
    with assms ok have "r = None \<and> reads = [] \<and> (ks' = ks \<or> ks' = ?ks)"
      by (auto simp: KeyStore_Lookup_def Let_def split: if_splits)
    with assms(2) ok show ?thesis by auto
  next
    case False
    let ?ck = "?sel @ ''/'' @ ?dm"
    consider (hit) e where "map_of (keyCache ?ks) ?ck = Some e" "ks' = ?ks" "reads = []"
        "r = (if ke_found e then Some (ke_keyPEM e, ?sel) else None)"
      | (miss) "readKey env ?ck ?sel ?dm ?ks = (r, reads, ks')"
      using assms(1) False by (auto simp: KeyStore_Lookup_def Let_def split: option.splits if_splits)
    then show ?thesis
    proof cases
      case hit
      have "entry_parses (ke_lib env) (?ck, e)"
        using map_of_SomeD [OF hit(1)] ok by (auto simp: store_ok_def list_all_iff)
      with hit ok False show ?thesis by (simp add: entry_parses_def)
    next
      case miss
      from readKey_spec [OF this ok assms(3)] False show ?thesis
        by (auto simp: confined_def)
    qed
  qed
qed

text \<open>
  A full cache makes room by dropping expired entries and then failed lookups: as long as the keys
  that are found and not expired leave room, storing an entry drops none of them, so that a burst of
  unknown domains cannot push out the keys in use.
\<close>

lemma hot_keys_survive:
  assumes "distinct (map fst (keyCache ks))" and "visits_all order"
    and "int (length (filter (\<lambda>(k, e). ke_found e \<and> \<not> ke_expires e < now) (keyCache ks))) < cacheSize ks"
    and "map_of (keyCache ks) k = Some e" and "ke_found e" and "\<not> ke_expires e < now" and "k \<noteq> k'"
  shows "map_of (keyCache (storeCacheEntry order now k' e' ks)) k = Some e"
proof (cases "int (length (keyCache ks)) \<ge> cacheSize ks")
  case False
  with assms show ?thesis by (simp add: storeCacheEntry_def Let_def)
next
  case True
  define c1 where "c1 = filter (\<lambda>(k, e). \<not> ke_expires e < now) (keyCache ks)"
  define c2 where "c2 = dropWhileFull (cacheSize ks) (\<lambda>e. \<not> ke_found e) (order (map fst c1)) c1"
  have dist: "distinct (map fst c1)" using assms(1) by (simp add: c1_def distinct_filter_keys)
  have "map_of c1 k = Some e" using assms(1,4,6) by (simp add: c1_def map_of_filter_distinct)
  then have "map_of c2 k = Some e" unfolding c2_def by (rule dropWhileFull_keeps) (simp add: assms(5))
  moreover have "int (length c2) < cacheSize ks"
    unfolding c2_def
  proof (rule dropWhileFull_enough [OF dist])
    show "\<forall>k e. (k, e) \<in> set c1 \<longrightarrow> \<not> ke_found e \<longrightarrow> k \<in> set (order (map fst c1))"
      using assms(2) by (force simp: visits_set)
    have "filter (\<lambda>(k, e). \<not> \<not> ke_found e) c1 = filter (\<lambda>(k, e). ke_found e \<and> \<not> ke_expires e < now) (keyCache ks)"
      unfolding c1_def filter_filter by (rule filter_cong) auto
    then show "int (length (filter (\<lambda>(k, e). \<not> \<not> ke_found e) c1)) < cacheSize ks" using assms(3) by simp
  qed
  ultimately have "map_of (evict order now (cacheSize ks) (keyCache ks)) k = Some e"
    by (simp add: evict_def Let_def c1_def [symmetric] c2_def [symmetric] dropWhileFull_room)
  with True assms(7) show ?thesis by (simp add: storeCacheEntry_def Let_def)
qed

definition sample_lib :: crypto_lib where
  "sample_lib = \<lparr>pemDecode = (\<lambda>p. if p = ''pem'' then Some (''RSA PRIVATE KEY'', ''der'') else None),
     parsePKCS1 = (\<lambda>_. Inr \<lparr>rsa_N = 35, rsa_E = 3\<rparr>), parsePKCS8 = (\<lambda>_. Inr None), parsePKIX = (\<lambda>_. Inr None),
     signWith = (\<lambda>_ m. Inr (''DKIM-Signature: s'' @ [CR, LF] @ m))\<rparr>"

definition sample_key_env :: key_env where
  "sample_key_env = \<lparr>ke_lib = sample_lib,
     ke_fs = \<lparr>fsStat = (\<lambda>_. Inr (True, 1)), fsLines = (\<lambda>_. Inr ([''example.org  s1'', ''# x''], 1)),
              fsRead = (\<lambda>p. if p = [''/keys'', ''s1'', ''example.org.key''] then Inr ''pem'' else Inl (ErrText ''none''))\<rparr>,
     ke_order = (\<lambda>ks. ks), mapClock = 5, lookupClock = 6, storeClock = 7\<rparr>"

definition sample_store :: "KeyStore" where
  "sample_store = \<lparr>keyDir = ''/keys'', selectorMapPath = ''/map'', fallbackSelector = [], cacheSize = 1, selectors = [],
     mapModTime = 0, nextMapCheck = 0, keyCache = [(''s1/other'', \<lparr>ke_keyPEM = [], ke_found = False, ke_expires = 9\<rparr>)]\<rparr>"

lemma sample_lookup:
  "fst (KeyStore_Lookup sample_key_env ''Example.ORG'' sample_store) = Some (''pem'', ''s1'')
   \<and> fst (snd (KeyStore_Lookup sample_key_env ''Example.ORG'' sample_store)) = [[''/keys'', ''s1'', ''example.org.key'']]"
  by code_simp

theorem keystore_lookup_safe_witness:
  "\<exists>reads ks'. KeyStore_Lookup sample_key_env ''Example.ORG'' sample_store = (Some (''pem'', ''s1''), reads, ks')
     \<and> length (keyCache ks') \<le> 1"
proof -
  obtain r reads ks' where l: "KeyStore_Lookup sample_key_env ''Example.ORG'' sample_store = (r, reads, ks')"
    by (metis prod_cases3)
  have "store_ok (ke_lib sample_key_env) sample_store"
    by (simp add: store_ok_def sample_store_def entry_parses_def)
  moreover have "visits_all (ke_order sample_key_env)" by (simp add: visits_all_def sample_key_env_def)
  ultimately have "store_ok (ke_lib sample_key_env) ks'" using keystore_lookup_safe [OF l] by blast
  moreover have "cacheSize ks' = 1"
  proof -
    have "cacheSize (snd (snd (KeyStore_Lookup sample_key_env ''Example.ORG'' sample_store))) = 1" by code_simp
    with l show ?thesis by simp
  qed
  ultimately show ?thesis using l sample_lookup by (auto simp: store_ok_def)
qed

lemma hot_keys_survive_witness:
  "let hot = \<lparr>ke_keyPEM = ''pem'', ke_found = True, ke_expires = 9\<rparr>; cold = \<lparr>ke_keyPEM = [], ke_found = False, ke_expires = 9\<rparr>;
       ks = sample_store\<lparr>cacheSize := 2, keyCache := [(''a'', cold), (''b'', hot)]\<rparr>
   in map_of (keyCache (storeCacheEntry (\<lambda>ks. ks) 5 ''c'' cold ks)) ''b'' = Some hot"
  unfolding Let_def by (rule hot_keys_survive) (simp_all add: visits_all_def)

end
