(* ===== verification/ARC.thy ===== *)
theory ARC
  imports DKIM
begin

text \<open>
  The ARC package, \<^verbatim>\<open>internal/arc/arc.go\<close>: the three ARC header fields of a forwarded message and the
  number of their instance. The signatures come from the DKIM library, the results field from the
  formatter of the authentication results library; both are parameters.
\<close>

section \<open>Model\<close>

record SignConfig =
  sc_Selector :: string
  sc_Domain :: string
  sc_PrivateKey :: string
  sc_HeaderCanon :: string
  sc_BodyCanon :: string

abbreviation (input) CRLF :: string where "CRLF \<equiv> [CR, LF]"

text \<open>
  The integer that \<open>fmt.Sscanf\<close> with \<open>%d\<close> reads at the start of a text: leading blanks, a sign and
  decimal digits that fit into 64 bits. If there is none, the variable keeps its value 0.
\<close>

definition sscanInt :: "string \<Rightarrow> int" where
  "sscanInt s =
     (let t = dropWhile (\<lambda>c. is_space c \<and> c \<noteq> LF) s;
          neg = (t \<noteq> [] \<and> hd t = CHR ''-'');
          u = (if t \<noteq> [] \<and> (hd t = CHR ''-'' \<or> hd t = CHR ''+'') then tl t else t);
          ds = takeWhile is_digit u;
          v = (if neg then - int (digits_value ds) else int (digits_value ds))
      in if ds = [] \<or> v < - (2 ^ 63) \<or> v \<ge> 2 ^ 63 then 0 else v)"

text \<open>The instance that a header line carries, 0 if it is no ARC field or has no instance.\<close>

definition lineInstance :: "string \<Rightarrow> int" where
  "lineInstance line =
     (if HasPrefix line ''ARC-'' then
        (case Index line ''i='' of Some idx \<Rightarrow> sscanInt (drop (idx + 2) line) | None \<Rightarrow> 0)
      else 0)"

fun scanInstances :: "string list \<Rightarrow> int \<Rightarrow> int" where
  "scanInstances [] maxInstance = maxInstance"
| "scanInstances (line # ls) maxInstance =
     (let m = (if lineInstance line > maxInstance then lineInstance line else maxInstance) in
      if line = [] then m else scanInstances ls m)"

text \<open>The addition is one of 64 bits.\<close>

definition int64 :: "int \<Rightarrow> int" where
  "int64 i = (i + 2 ^ 63) mod 2 ^ 64 - 2 ^ 63"

definition determineInstance :: "string \<Rightarrow> int" where
  "determineInstance rawMessage = int64 (scanInstances (Split rawMessage CRLF) 0 + 1)"

definition parseCanonicalization :: "string \<Rightarrow> string \<Rightarrow> string \<times> string" where
  "parseCanonicalization headerCanon bodyCanon =
     (if ToLower headerCanon = ''simple'' then ''simple'' else ''relaxed'',
      if ToLower bodyCanon = ''simple'' then ''simple'' else ''relaxed'')"

definition removeVersionParam :: "string \<Rightarrow> string" where
  "removeVersionParam sig =
     (let s1 = ReplaceAll sig '' v=1;'' [];
          s2 = ReplaceAll s1 (CRLF @ '' v=1;'') [];
          s3 = ReplaceAll s2 ([LF] @ '' v=1;'') [];
          s4 = ReplaceAll s3 ([CHR 0x09] @ '' v=1;'') []
      in TrimPrefix (TrimPrefix s4 ''v=1; '') ''v=1;'')"

text \<open>The value of the first signature field of a signed message, with its continuation lines.\<close>

definition is_folded :: "string \<Rightarrow> bool" where
  "is_folded l \<longleftrightarrow> l \<noteq> [] \<and> (hd l = CHR '' '' \<or> hd l = CHR 0x09)"

fun dkimSignatureOf :: "string list \<Rightarrow> string" where
  "dkimSignatureOf [] = []"
| "dkimSignatureOf (line # ls) =
     (if HasPrefix line ''DKIM-Signature:''
      then drop (length ''DKIM-Signature:'') line @ concat (map (\<lambda>l. CRLF @ l) (takeWhile is_folded ls))
      else dkimSignatureOf ls)"

definition signARCMessageSignature :: "crypto_lib \<Rightarrow> string \<Rightarrow> sign_options \<Rightarrow> int \<Rightarrow> goerror + string" where
  "signARCMessageSignature lib rawMessage options inst =
     (case signWith lib options rawMessage of
        Inl err \<Rightarrow> Inl err
      | Inr signedMsg \<Rightarrow>
          let dkimSig = dkimSignatureOf (Split signedMsg CRLF) in
          if dkimSig = [] then Inl (ErrText ''failed to extract DKIM signature'')
          else Inr (''i='' @ Itoa inst @ ''; v=1; '' @ removeVersionParam (TrimSpace dkimSig)))"

definition sealInput :: "string \<Rightarrow> string \<Rightarrow> string \<Rightarrow> string" where
  "sealInput domain arcMS arcAR =
     ''From: arc-sealer@'' @ domain @ CRLF @ ''ARC-Message-Signature: '' @ arcMS @ CRLF
     @ ''ARC-Authentication-Results: '' @ arcAR @ CRLF @ CRLF @ ''ARC seal body'' @ CRLF"

definition signARCSeal :: "crypto_lib \<Rightarrow> sign_options \<Rightarrow> int \<Rightarrow> string \<Rightarrow> string \<Rightarrow> goerror + string" where
  "signARCSeal lib options inst arcMS arcAR =
     (let sealOptions = options\<lparr>so_HeaderKeys := [''from'', ''arc-authentication-results'', ''arc-message-signature'']\<rparr> in
      case signWith lib sealOptions (sealInput (so_Domain options) arcMS arcAR) of
        Inl err \<Rightarrow> Inl err
      | Inr signedMsg \<Rightarrow>
          let dkimSig = dkimSignatureOf (Split signedMsg CRLF) in
          if dkimSig = [] then Inl (ErrText ''failed to extract DKIM signature for seal'')
          else
            let cv = (if inst > 1 then ''pass'' else ''none'')
            in Inr (''i='' @ Itoa inst @ ''; v=1; cv='' @ cv @ ''; '' @ removeVersionParam (TrimSpace dkimSig)))"

definition createARCAuthenticationResults :: "(string \<Rightarrow> string) \<Rightarrow> string \<Rightarrow> int \<Rightarrow> string" where
  "createARCAuthenticationResults formatNone domain inst = ''i='' @ Itoa inst @ ''; '' @ formatNone domain"

text \<open>
  The package has its own copies of the two functions of the DKIM package that read and check a private
  key; that the copies agree is the lemma \<open>same_key_functions\<close>.
\<close>

definition ARC_parsePrivateKey :: "crypto_lib \<Rightarrow> string \<Rightarrow> goerror + rsa_key" where
  "ARC_parsePrivateKey lib pemData =
     (case pemDecode lib (TrimSpace pemData) of
        None \<Rightarrow> Inl (ErrText ''failed to decode PEM block'')
      | Some (type, bytes) \<Rightarrow>
          if type = ''RSA PRIVATE KEY'' then
            (case parsePKCS1 lib bytes of
               Inl e \<Rightarrow> Inl (wrapErr ''failed to parse PKCS#1 RSA private key: '' e)
             | Inr key \<Rightarrow> Inr key)
          else if type = ''PRIVATE KEY'' then
            (case parsePKCS8 lib bytes of
               Inl e \<Rightarrow> Inl (wrapErr ''failed to parse PKCS#8 private key: '' e)
             | Inr None \<Rightarrow> Inl (ErrText ''parsed key is not an RSA private key'')
             | Inr (Some key) \<Rightarrow> Inr key)
          else Inl (ErrText (''unsupported PEM block type: '' @ type @ '' (expected '' @ [CHR 0x27] @ ''RSA PRIVATE KEY''
                 @ [CHR 0x27] @ '' or '' @ [CHR 0x27] @ ''PRIVATE KEY'' @ [CHR 0x27] @ '')'')))"

definition ARC_ValidatePrivateKey :: "crypto_lib \<Rightarrow> string \<Rightarrow> nat \<times> goerror option" where
  "ARC_ValidatePrivateKey lib privateKeyPEM =
     (case ARC_parsePrivateKey lib privateKeyPEM of
        Inl e \<Rightarrow> (0, Some e)
      | Inr key \<Rightarrow>
          let keySize = bitLen (rsa_N key) in
          if keySize < 1024 \<or> keySize > 4096 then (keySize, Some (unsupportedSize keySize)) else (keySize, None))"

definition arcHeaderKeys :: "string list" where
  "arcHeaderKeys = [''from'', ''to'', ''subject'', ''date'', ''message-id'', ''mime-version'', ''content-type'',
     ''cc'', ''bcc'', ''reply-to'']"

definition arcFields :: "string \<Rightarrow> string \<Rightarrow> string \<Rightarrow> string" where
  "arcFields arcSeal arcMS arcAR =
     ''ARC-Seal: '' @ arcSeal @ CRLF @ ''ARC-Message-Signature: '' @ arcMS @ CRLF
     @ ''ARC-Authentication-Results: '' @ arcAR @ CRLF"

text \<open>\<open>formatNone\<close> is the formatter of the results field for a single result \<open>none\<close>.\<close>

definition ARC_SignMessage :: "crypto_lib \<Rightarrow> (string \<Rightarrow> string) \<Rightarrow> string \<Rightarrow> SignConfig \<Rightarrow> goerror + string" where
  "ARC_SignMessage lib formatNone rawMessage cfg =
     (case ARC_parsePrivateKey lib (sc_PrivateKey cfg) of
        Inl err \<Rightarrow> Inl (wrapErr ''failed to parse ARC private key: '' err)
      | Inr key \<Rightarrow>
          let keySize = bitLen (rsa_N key) in
          if keySize < 1024 \<or> keySize > 4096 then Inl (unsupportedSize keySize)
          else
            let (headerCanon, bodyCanon) = parseCanonicalization (sc_HeaderCanon cfg) (sc_BodyCanon cfg);
                inst = determineInstance rawMessage;
                options = \<lparr>so_Domain = sc_Domain cfg, so_Selector = sc_Selector cfg, so_Signer = key,
                           so_HeaderCanon = headerCanon, so_BodyCanon = bodyCanon, so_HeaderKeys = arcHeaderKeys,
                           so_Expiration = None\<rparr>
            in case signARCMessageSignature lib rawMessage options inst of
                 Inl err \<Rightarrow> Inl (wrapErr ''failed to create ARC-Message-Signature: '' err)
               | Inr arcMS \<Rightarrow>
                   let arcAR = createARCAuthenticationResults formatNone (sc_Domain cfg) inst in
                   (case signARCSeal lib options inst arcMS arcAR of
                      Inl err \<Rightarrow> Inl (wrapErr ''failed to create ARC-Seal: '' err)
                    | Inr arcSeal \<Rightarrow> Inr (arcFields arcSeal arcMS arcAR @ rawMessage)))"

definition LoadPrivateKeyFromFile :: "crypto_lib \<Rightarrow> (string \<Rightarrow> goerror + string) \<Rightarrow> string \<Rightarrow> goerror + string" where
  "LoadPrivateKeyFromFile lib readFile path =
     (case readFile path of
        Inl err \<Rightarrow> Inl (wrapErr ''failed to read private key file: '' err)
      | Inr data \<Rightarrow>
          (case ARC_ValidatePrivateKey lib data of
             (_, Some err) \<Rightarrow> Inl (wrapErr (''invalid private key in '' @ path @ '': '') err)
           | (_, None) \<Rightarrow> Inr data))"

section \<open>Lemmas\<close>

lemma same_key_functions [simp]:
  "ARC_parsePrivateKey = parsePrivateKey" "ARC_ValidatePrivateKey = ValidatePrivateKey"
proof -
  show same: "ARC_parsePrivateKey = parsePrivateKey"
    by (intro ext) (simp only: ARC_parsePrivateKey_def parsePrivateKey_def)
  show "ARC_ValidatePrivateKey = ValidatePrivateKey"
    by (intro ext) (simp only: ARC_ValidatePrivateKey_def ValidatePrivateKey_def same)
qed

lemma digit_char_facts: "n < 10 \<Longrightarrow> of_char (digit_char n) = 48 + n \<and> is_digit (digit_char n) \<and> \<not> is_space (digit_char n)
    \<and> digit_char n \<noteq> CHR ''-'' \<and> digit_char n \<noteq> CHR ''+'' \<and> digit_char n \<noteq> CR"
proof -
  assume "n < 10"
  then have n: "of_char (digit_char n) = 48 + n" by (simp add: digit_char_def)
  then have "is_digit (digit_char n)" "\<not> is_space (digit_char n)"
    using \<open>n < 10\<close> by (simp_all add: is_digit_def is_space_def)
  moreover have "digit_char n \<noteq> c" if "of_char c < (48 :: nat)" for c using n that by auto
  ultimately show ?thesis using n by simp
qed

lemma nat_digits_facts:
  "list_all (\<lambda>c. is_digit c \<and> \<not> is_space c \<and> c \<noteq> CHR ''-'' \<and> c \<noteq> CHR ''+'' \<and> c \<noteq> CR) (nat_digits n) \<and> nat_digits n \<noteq> []
   \<and> digits_value (nat_digits n) = n"
proof (induction n rule: nat_digits.induct)
  case (1 n)
  have last: "digits_value (s @ [digit_char (n mod 10)]) = 10 * digits_value s + n mod 10" for s
    using digit_char_facts [of "n mod 10"] by (simp add: digits_value_def)
  show ?case
  proof (cases "n < 10")
    case True
    with digit_char_facts [of n] show ?thesis by (subst (1 2 3) nat_digits.simps) (simp add: digits_value_def)
  next
    case False
    with 1 digit_char_facts [of "n mod 10"] last show ?thesis by (subst (1 2 3) nat_digits.simps) simp
  qed
qed

lemma sscanInt_Itoa:
  assumes "0 \<le> i" "i < 2 ^ 63"
  shows "sscanInt (Itoa i @ CHR '';'' # s) = i"
proof -
  let ?ds = "nat_digits (nat i)"
  obtain d ds where ds: "?ds = d # ds" using nat_digits_facts [of "nat i"] by (cases ?ds) auto
  have all: "\<forall>c\<in>set ?ds. is_digit c" and d: "\<not> is_space d" "d \<noteq> CHR ''-''" "d \<noteq> CHR ''+''"
    using nat_digits_facts [of "nat i"] by (auto simp: ds list_all_iff)
  have "takeWhile is_digit (?ds @ CHR '';'' # s) = ?ds" using all by (simp add: takeWhile_append2 is_digit_def)
  then show ?thesis using nat_digits_facts [of "nat i"] d assms
    by (simp add: sscanInt_def Itoa_def Let_def ds)
qed

lemma scanInstances_bound: "m \<le> scanInstances ls m"
  by (induction ls m rule: scanInstances.induct) (auto simp: Let_def split: if_splits)

text \<open>The scan looks at the header: the lines before the first empty one.\<close>

lemma scanInstances_header: "line \<in> set (takeWhile (\<lambda>l. l \<noteq> []) ls) \<Longrightarrow> lineInstance line \<le> scanInstances ls m"
proof (induction ls m rule: scanInstances.induct)
  case (2 l ls m)
  then show ?case
    using scanInstances_bound [of "if lineInstance l > m then lineInstance l else m" ls]
    by (auto simp: Let_def split: if_splits)
qed simp

lemma sscanInt_range: "- (2 ^ 63) \<le> sscanInt s \<and> sscanInt s < 2 ^ 63"
  by (auto simp: sscanInt_def Let_def)

lemma scanInstances_range: "0 \<le> m \<Longrightarrow> m < 2 ^ 63 \<Longrightarrow> scanInstances ls m < 2 ^ 63"
proof (induction ls m rule: scanInstances.induct)
  case (2 l ls m)
  then show ?case using sscanInt_range by (auto simp: Let_def lineInstance_def split: option.splits)
qed simp

lemma determineInstance_cases:
  "determineInstance raw = scanInstances (Split raw CRLF) 0 + 1 \<and> 0 < determineInstance raw \<and> determineInstance raw < 2 ^ 63
   \<or> determineInstance raw = - (2 ^ 63)"
  using scanInstances_range [of 0 "Split raw CRLF"] scanInstances_bound [of 0 "Split raw CRLF"]
  by (cases "scanInstances (Split raw CRLF) 0 = 2 ^ 63 - 1") (auto simp: determineInstance_def int64_def)

lemma Split_line:
  assumes "CR \<notin> set p"
  shows "\<exists>q. hd (Split (p @ s) CRLF) = p @ q"
proof (cases "Index (p @ s) CRLF")
  case None
  then show ?thesis by (subst Split.simps) simp
next
  case (Some i)
  have "length p \<le> i"
  proof (rule ccontr)
    assume "\<not> length p \<le> i"
    moreover from Index_split [OF Some] have "(p @ s) ! i = CR"
      using Index_bound [OF Some] by (metis (no_types, lifting) Cons_eq_appendI append_assoc length_take min.absorb2
          nth_append_length add_leD1)
    ultimately show False using assms by (metis not_le nth_append nth_mem)
  qed
  then show ?thesis using Some by (subst Split.simps) simp
qed

lemma seal_line_instance:
  assumes "0 \<le> i" "i < 2 ^ 63"
  shows "lineInstance (hd (Split (''ARC-Seal: i='' @ Itoa i @ CHR '';'' # s) CRLF)) = i"
proof -
  have "CR \<notin> set (Itoa i)" using nat_digits_facts [of "nat i"] assms by (auto simp: Itoa_def list_all_iff)
  then have "CR \<notin> set (''ARC-Seal: i='' @ Itoa i @ '';'')" by simp
  from Split_line [OF this, of s] obtain q
    where "hd (Split (''ARC-Seal: i='' @ Itoa i @ CHR '';'' # s) CRLF) = ''ARC-Seal: i='' @ Itoa i @ CHR '';'' # q" by auto
  with sscanInt_Itoa [OF assms, of q] show ?thesis by (simp add: lineInstance_def HasPrefix_def)
qed

text \<open>
  A version parameter on a line of its own leaves an empty line, which ends the header of the message: the
  first replacement already takes the parameter, the one with the line break never applies.
\<close>

lemma version_line_leaves_empty_line:
  "removeVersionParam (''a=x;'' @ CRLF @ '' v=1;'' @ CRLF @ '' b=y'') = ''a=x;'' @ CRLF @ CRLF @ '' b=y''"
  by code_simp

lemma signARCMessageSignature_form:
  "signARCMessageSignature lib raw options n = Inr x \<Longrightarrow> \<exists>sig. x = ''i='' @ Itoa n @ ''; v=1; '' @ sig"
  by (auto simp: signARCMessageSignature_def Let_def split: sum.splits if_splits)

lemma signARCSeal_form:
  "signARCSeal lib options n ms ar = Inr x \<Longrightarrow>
     \<exists>sig. x = ''i='' @ Itoa n @ ''; v=1; cv='' @ (if n > 1 then ''pass'' else ''none'') @ ''; '' @ sig"
  by (auto simp: signARCSeal_def Let_def split: sum.splits if_splits)

section \<open>Properties\<close>


definition arc_sample :: string where
  "arc_sample = ''ARC-Seal: i=2; cv=pass'' @ CRLF @ ''From: a@b.c'' @ CRLF @ CRLF @ ''ARC-Seal: i=9'' @ CRLF"

definition arc_sample_config :: SignConfig where
  "arc_sample_config = \<lparr>sc_Selector = ''s'', sc_Domain = ''b.c'', sc_PrivateKey = ''pem'', sc_HeaderCanon = ''relaxed'',
     sc_BodyCanon = ''relaxed''\<rparr>"

lemma arc_sample_instance: "determineInstance arc_sample = 3"
  by code_simp

definition arc_sample_N :: nat where
  "arc_sample_N = 2 ^ 1023"

definition arc_sample_lib :: crypto_lib where
  "arc_sample_lib = sample_lib\<lparr>parsePKCS1 := (\<lambda>_. Inr \<lparr>rsa_N = arc_sample_N, rsa_E = 3\<rparr>)\<rparr>"

lemma bitLen_power: "bitLen (2 ^ n) = Suc n"
  by (induction n) (simp_all add: bitLen.simps)

lemma bitLen_sample: "bitLen arc_sample_N = 1024"
  unfolding arc_sample_N_def bitLen_power by simp

lemma arc_sample_key: "parsePrivateKey arc_sample_lib ''pem'' = Inr \<lparr>rsa_N = arc_sample_N, rsa_E = 3\<rparr>"
  by (simp add: parsePrivateKey_def arc_sample_lib_def sample_lib_def TrimSpace_def trim_left_by_def trim_right_by_def is_space_def)

lemma sample_signature: "dkimSignatureOf (Split (''DKIM-Signature: s'' @ CRLF @ m) CRLF) \<noteq> []"
proof -
  have "Index (''DKIM-Signature: s'' @ CRLF @ m) CRLF = Some (length ''DKIM-Signature: s'')"
    by (rule Index_sep) simp_all
  then have "Split (''DKIM-Signature: s'' @ CRLF @ m) CRLF = ''DKIM-Signature: s'' # Split m CRLF"
    by (subst Split.simps) simp
  then show ?thesis by (simp add: HasPrefix_def)
qed

lemma arc_sample_signed:
  "\<exists>out. ARC_SignMessage arc_sample_lib (\<lambda>dm. dm @ ''; none'') arc_sample arc_sample_config = Inr out"
  using arc_sample_key sample_signature
  by (simp add: ARC_SignMessage_def arc_sample_config_def bitLen_sample signARCMessageSignature_def signARCSeal_def Let_def
      arc_sample_lib_def sample_lib_def split: prod.split)


end
