(* ===== verification/Delivery.thy ===== *)
theory Delivery
  imports SMTP_Attempt MX_Lookup IP_Reputation IP_Rotator Domain_Limiter ARC
begin

text \<open>
  The delivery engine of \<^verbatim>\<open>internal/delivery/delivery.go\<close>: the \<open>Deliverer\<close> with its components, the steps
  of \<open>DeliverMessage\<close> (rate limit, signing, MX lookup, the loop over MX hosts, address families and source
  addresses) and its background work. The outside world of one call is a record of functions: what
  attempt number \<open>n\<close> meets, when the context has ended, what the clocks show.
\<close>

section \<open>State\<close>

record Deliverer =
  d_config :: OutboundConfig
  d_arcConfig :: "ARCConfig option"
  d_mxLookup :: MXLookup
  d_rotator :: IPRotator
  d_tracker :: IPReputationTracker
  d_arcKey :: string
  d_keyStore :: "KeyStore option"
  d_transport :: transport
  d_limiters :: domain_limiters
  d_metrics :: "(string \<times> string \<times> int) list option"
  d_stopped :: bool
  d_attempts :: nat

text \<open>
  The environment of a call. \<open>attemptEnv n\<close> is what the attempt with number \<open>n\<close> meets, \<open>ctxAtIP n\<close> whether
  the context has ended before it, \<open>ctxAtMX i\<close> whether it has ended before the MX host with index \<open>i\<close>.
\<close>

record delivery_env =
  attemptEnv :: "nat \<Rightarrow> attempt_env"
  ctxAtIP :: "nat \<Rightarrow> bool"
  ctxAtMX :: "nat \<Rightarrow> bool"
  attemptClock :: "nat \<Rightarrow> attempt_clock"
  healthClock :: "nat \<Rightarrow> nat \<Rightarrow> gotime"
  randIntn :: "nat \<Rightarrow> nat \<Rightarrow> nat"
  hostQuery :: "nat \<Rightarrow> string \<Rightarrow> goerror + string list"
  mxWorld :: mx_env
  mxCtxErr :: "goerror option"
  mxCtxDone :: "goerror option"
  mxGetAt :: gotime
  mxStoreAt :: gotime
  limitStoreAt :: gotime
  limitAt :: gotime
  keyWorld :: key_env
  fromAddress :: "string \<Rightarrow> string option"
  txtQuery :: "string \<Rightarrow> goerror + string list"
  signAt :: gotime
  formatResults :: "string \<Rightarrow> string"
  elapsedMs :: int

record request =
  rq_trace :: string
  rq_from :: string
  rq_to :: string
  rq_msg :: string
  rq_protocol :: string
  rq_inboundDKIM :: "string option"
  rq_cfg :: OutboundConfig

section \<open>Construction and background work\<close>

definition newSRSFor :: "SRSConfig option \<Rightarrow> SRS option" where
  "newSRSFor srsConfig =
     (case srsConfig of
        None \<Rightarrow> None
      | Some c \<Rightarrow>
          if \<not> SRSEnabled c \<or> SRSDomains c = [] then None
          else case NewSRS (SRSDomains c) (SRSSelection c) (SRSSecret c) (SRSMaxAge c) (SRSHashLength c)
                      (SRSSeparator c) (SRSSkipDomains c) (SRSSkipIfDKIMPass c) (SRSSkipIfSameDomain c)
                      (SRSUseDynamicSubdomain c) of
                 Inl _ \<Rightarrow> None
               | Inr s \<Rightarrow> Some s)"

definition arcKeyFor :: "(string \<Rightarrow> goerror + string) \<Rightarrow> ARCConfig option \<Rightarrow> string" where
  "arcKeyFor readFile arcConfig =
     (case arcConfig of
        None \<Rightarrow> []
      | Some c \<Rightarrow>
          if ARCEnabled c \<and> ARCPrivateKeyPath c \<noteq> [] then
            (case readFile (ARCPrivateKeyPath c) of Inr data \<Rightarrow> data | Inl _ \<Rightarrow> [])
          else [])"

definition NewDeliverer ::
  "(string \<Rightarrow> goerror + string) \<Rightarrow> OutboundConfig \<Rightarrow> string list \<Rightarrow> string list \<Rightarrow> MXLookup \<Rightarrow> ReputationConfig
     \<Rightarrow> ARCConfig option \<Rightarrow> SRSConfig option \<Rightarrow> Deliverer" where
  "NewDeliverer readFile cfg v4 v6 mx repConfig arcConfig srsConfig =
     \<lparr>d_config = cfg, d_arcConfig = arcConfig, d_mxLookup = mx, d_rotator = NewIPRotator v4 v6 (SourceIPSelection cfg),
      d_tracker = NewIPReputationTracker repConfig, d_arcKey = arcKeyFor readFile arcConfig, d_keyStore = None,
      d_transport = \<lparr>tp_pool = NewConnectionPool (ConnectionPoolTTLSeconds cfg), tp_srs = newSRSFor srsConfig,
                     tp_cmdTimeout = (\<lambda>_. 0), tp_subTimeout = (\<lambda>_. 0), tp_sent = []\<rparr>,
      d_limiters = [], d_metrics = None, d_stopped = False, d_attempts = 0\<rparr>"

definition Stop :: "cleanup_clock \<Rightarrow> Deliverer \<Rightarrow> Deliverer" where
  "Stop clk d = d
     \<lparr>d_stopped := True,
      d_transport := (d_transport d)\<lparr>tp_pool := CloseAll (tp_pool (d_transport d))\<rparr>,
      d_tracker := Cleanup clk (d_tracker d)\<rparr>"

definition Deliverer_ReloadConfig :: "OutboundConfig \<Rightarrow> Deliverer \<Rightarrow> Deliverer" where
  "Deliverer_ReloadConfig cfg d = d\<lparr>d_config := cfg\<rparr>"

definition SetDKIMKeyStore :: "KeyStore \<Rightarrow> Deliverer \<Rightarrow> Deliverer" where
  "SetDKIMKeyStore ks d = d\<lparr>d_keyStore := Some ks\<rparr>"

definition Deliverer_SetMetrics :: "bool \<Rightarrow> Deliverer \<Rightarrow> Deliverer" where
  "Deliverer_SetMetrics present d = d\<lparr>d_metrics := (if present then Some [] else None)\<rparr>"

definition recordMetrics :: "DeliveryResult \<Rightarrow> string \<Rightarrow> Deliverer \<Rightarrow> Deliverer" where
  "recordMetrics result domain d = d
     \<lparr>d_metrics := map_option (\<lambda>ms. ms @ [(Status result, domain, AttemptDurationMs result)]) (d_metrics d)\<rparr>"

text \<open>One tick of each background loop.\<close>

definition limiterTick :: "gotime \<Rightarrow> Deliverer \<Rightarrow> Deliverer" where
  "limiterTick now d = (if d_stopped d then d else d\<lparr>d_limiters := cleanupDomainLimiters now (d_limiters d)\<rparr>)"

definition mxTick :: "gotime \<Rightarrow> Deliverer \<Rightarrow> Deliverer" where
  "mxTick now d = (if d_stopped d then d else d\<lparr>d_mxLookup := snd (CleanupExpiredCache now (d_mxLookup d))\<rparr>)"

definition trackerTick :: "cleanup_clock \<Rightarrow> Deliverer \<Rightarrow> Deliverer" where
  "trackerTick clk d = (if d_stopped d then d else d\<lparr>d_tracker := Cleanup clk (d_tracker d)\<rparr>)"

section \<open>Signing\<close>

text \<open>
  The DKIM key, selector and domain to sign with: explicit ones, or those of the key store. \<^const>\<open>None\<close> if
  an explicit key comes without a domain and the sender has none.
\<close>

definition dkimKeyFor ::
  "delivery_env \<Rightarrow> string \<Rightarrow> string \<Rightarrow> string \<Rightarrow> string \<Rightarrow> string \<Rightarrow> KeyStore option
     \<Rightarrow> (string \<times> string \<times> string) option \<times> KeyStore option" where
  "dkimKeyFor env from msg key selector domain store =
     (if key \<noteq> [] \<and> selector \<noteq> [] then
        (if domain = [] then
           (let dm = ExtractDomainFromEmail from in
            if dm = [] then (None, store) else (Some (key, selector, dm), store))
         else (Some (key, selector, domain), store))
      else if key = [] then
        (case store of
           None \<Rightarrow> (Some (key, selector, domain), None)
         | Some ks \<Rightarrow>
             let header = ExtractFromHeaderDomain (fromAddress env) msg;
                 lookupDomain = (if header = [] then ExtractDomainFromEmail from else header)
             in if lookupDomain = [] then (Some (key, selector, domain), Some ks)
                else (case KeyStore_Lookup (keyWorld env) lookupDomain ks of
                        (Some (pem, sel), _, ks') \<Rightarrow> (Some (pem, sel, lookupDomain), Some ks')
                      | (None, _, ks') \<Rightarrow> (Some (key, selector, domain), Some ks')))
      else (Some (key, selector, domain), store))"

definition dkimSigned :: "delivery_env \<Rightarrow> DNSResolver \<Rightarrow> bool \<Rightarrow> string \<times> string \<times> string \<Rightarrow> string \<Rightarrow> string" where
  "dkimSigned env resolver skipValidation params msg =
     (case params of (key, selector, domain) \<Rightarrow>
        if key \<noteq> [] \<and> selector \<noteq> [] \<and> domain \<noteq> []
           \<and> (skipValidation
              \<or> ValidateDKIMConfiguration (ke_lib (keyWorld env)) (LookupTXT resolver (txtQuery env)) selector domain key = None)
        then (case SignMessage (ke_lib (keyWorld env)) (signAt env) msg key selector domain of
                Inr signedMsg \<Rightarrow> signedMsg
              | Inl _ \<Rightarrow> msg)
        else msg)"

definition arcParams :: "Deliverer \<Rightarrow> string \<Rightarrow> string \<Rightarrow> string \<Rightarrow> string \<times> string \<times> string" where
  "arcParams d key selector domain =
     (case d_arcConfig d of
        None \<Rightarrow> (key, selector, domain)
      | Some c \<Rightarrow>
          (if key = [] \<and> ARCEnabled c \<and> d_arcKey d \<noteq> [] then d_arcKey d else key,
           if selector = [] \<and> ARCConfSelector c \<noteq> [] then ARCConfSelector c else selector,
           if domain = [] \<and> ARCConfDomain c \<noteq> [] then ARCConfDomain c else domain))"

definition arcSigned :: "delivery_env \<Rightarrow> string \<times> string \<times> string \<Rightarrow> string \<Rightarrow> string" where
  "arcSigned env params msg =
     (case params of (key, selector, domain) \<Rightarrow>
        if key \<noteq> [] \<and> selector \<noteq> [] \<and> domain \<noteq> [] then
          (case ARC_SignMessage (ke_lib (keyWorld env)) (formatResults env) msg
                  \<lparr>sc_Selector = selector, sc_Domain = domain, sc_PrivateKey = key, sc_HeaderCanon = ''relaxed'',
                   sc_BodyCanon = ''relaxed''\<rparr> of
             Inr signedMsg \<Rightarrow> signedMsg
           | Inl _ \<Rightarrow> msg)
        else msg)"

section \<open>Hosts and addresses\<close>

definition resolveMXHost ::
  "(string \<Rightarrow> goerror + string list) \<Rightarrow> DNSResolver \<Rightarrow> string \<Rightarrow> goerror + (string list \<times> bool \<times> bool)" where
  "resolveMXHost query resolver host =
     (case LookupHost resolver query host of
        Inl err \<Rightarrow> Inl err
      | Inr ips \<Rightarrow>
          Inr (ips, list_ex (\<lambda>ip. ip_is_v6 ip = Some False) ips, list_ex (\<lambda>ip. ip_is_v6 ip = Some True) ips))"

text \<open>
  The families to try on a host, in order, or \<^const>\<open>None\<close> for the system's default source address.
\<close>

record ip_plan =
  ipMode :: string
  preferIPv6 :: bool
  tryIPv4 :: bool
  tryIPv6 :: bool
  tryIPv6First :: bool

definition ipPlan :: "OutboundConfig \<Rightarrow> string \<Rightarrow> IPRotator \<Rightarrow> ip_plan" where
  "ipPlan cfg protocol rot =
     (let mode = IPModeForProtocol cfg protocol; pref = PreferIPv6ForProtocol cfg protocol;
          v4 = ((mode = IPModeDual \<or> mode = IPModeIPv4) \<and> HasIPv4 rot \<and> protocol \<noteq> ProtocolLMTP);
          v6 = ((mode = IPModeDual \<or> mode = IPModeIPv6) \<and> HasIPv6 rot \<and> protocol \<noteq> ProtocolLMTP)
      in \<lparr>ipMode = mode, preferIPv6 = pref, tryIPv4 = v4, tryIPv6 = v6,
          tryIPv6First = (v6 \<and> (mode = IPModeIPv6 \<or> mode = IPModeDual \<and> pref))\<rparr>)"

definition hostVersions :: "ip_plan \<Rightarrow> bool \<Rightarrow> bool \<Rightarrow> bool list option" where
  "hostVersions plan has4 has6 =
     (if tryIPv6First plan then
        Some ((if tryIPv6 plan \<and> has6 then [True] else []) @ (if tryIPv4 plan \<and> has4 then [False] else []))
      else if tryIPv4 plan then
        Some ((if has4 then [False] else []) @ (if tryIPv6 plan \<and> has6 then [True] else []))
      else None)"

definition defaultTargetIPv6 :: "ip_plan \<Rightarrow> bool" where
  "defaultTargetIPv6 plan =
     (if ipMode plan = IPModeIPv4 then False else if ipMode plan = IPModeIPv6 then True else preferIPv6 plan)"

section \<open>Attempts\<close>

text \<open>One attempt with a source address, and its record in the reputation tracker.\<close>

definition oneAttempt ::
  "delivery_env \<Rightarrow> request \<Rightarrow> string \<Rightarrow> string list \<Rightarrow> string \<Rightarrow> bool \<Rightarrow> Deliverer \<Rightarrow> DeliveryResult option \<times> Deliverer" where
  "oneAttempt env rq mxHost mxIPs sourceIP preferV6 d =
     (case attemptDelivery (attemptEnv env (d_attempts d)) (rq_cfg rq) (rq_trace rq) (rq_from rq) (rq_to rq) (rq_msg rq)
             mxHost mxIPs sourceIP preferV6 (rq_protocol rq) (rq_inboundDKIM rq) (d_transport d) of
        (None, tp) \<Rightarrow> (None, d\<lparr>d_transport := tp, d_attempts := Suc (d_attempts d)\<rparr>)
      | (Some result, tp) \<Rightarrow>
          (Some result,
           d\<lparr>d_transport := tp, d_attempts := Suc (d_attempts d),
             d_tracker := RecordDeliveryAttempt sourceIP (Status result = ''delivered'') (classifiedErr result)
               \<lparr>InfoFrom = rq_from rq, InfoTo = rq_to rq, InfoSubject = [], InfoIdempotencyKey = [], InfoMXHost = mxHost\<rparr>
               (attemptClock env (d_attempts d)) (d_tracker d)\<rparr>))"

fun tryIPs ::
  "delivery_env \<Rightarrow> request \<Rightarrow> string \<Rightarrow> string list \<Rightarrow> bool \<Rightarrow> string list \<Rightarrow> DeliveryResult \<Rightarrow> Deliverer
     \<Rightarrow> DeliveryResult option \<times> Deliverer" where
  "tryIPs env rq mxHost mxIPs useIPv6 [] lastResult d = (Some lastResult, d)"
| "tryIPs env rq mxHost mxIPs useIPv6 (sourceIP # ips) lastResult d =
     (if ctxAtIP env (d_attempts d)
      then (Some (mkResult (rq_trace rq) ''timeout'' mxHost sourceIP ''Context canceled''), d)
      else case oneAttempt env rq mxHost mxIPs sourceIP useIPv6 d of
        (None, d') \<Rightarrow> (None, d')
      | (Some result, d') \<Rightarrow>
          if isFinalResult (Status result) \<or> Status result = ''timeout'' then (Some result, d')
          else tryIPs env rq mxHost mxIPs useIPv6 ips result d')"

text \<open>The source addresses to try: the healthy ones, or all if none is healthy.\<close>

definition candidateIPs :: "delivery_env \<Rightarrow> Deliverer \<Rightarrow> string list \<Rightarrow> string list" where
  "candidateIPs env d sourceIPs =
     (let healthyIPs = GetHealthyIPs (d_tracker d) (healthClock env (d_attempts d)) sourceIPs in
      if healthyIPs = [] \<and> sourceIPs \<noteq> [] then sourceIPs else healthyIPs)"

definition zeroResult :: DeliveryResult where
  "zeroResult = mkResult [] [] [] [] []"

definition tryDeliveryWithIPVersion ::
  "delivery_env \<Rightarrow> request \<Rightarrow> string \<Rightarrow> string list \<Rightarrow> bool \<Rightarrow> Deliverer \<Rightarrow> DeliveryResult option \<times> Deliverer" where
  "tryDeliveryWithIPVersion env rq mxHost mxIPs useIPv6 d =
     (case SelectIPs (randIntn env (d_attempts d)) useIPv6 (snd (splitEmail (rq_to rq))) (d_rotator d) of
        (sourceIPs, rot) \<Rightarrow>
          tryIPs env rq mxHost mxIPs useIPv6 (candidateIPs env d sourceIPs) zeroResult (d\<lparr>d_rotator := rot\<rparr>))"

text \<open>
  The attempts on one host: \<^const>\<open>Inl\<close> is a final result, \<^const>\<open>Inr\<close> the last result so far.
\<close>

fun tryVersions ::
  "delivery_env \<Rightarrow> request \<Rightarrow> string \<Rightarrow> string list \<Rightarrow> bool list \<Rightarrow> DeliveryResult \<Rightarrow> Deliverer
     \<Rightarrow> (DeliveryResult + DeliveryResult) option \<times> Deliverer" where
  "tryVersions env rq mxHost mxIPs [] lastResult d = (Some (Inr lastResult), d)"
| "tryVersions env rq mxHost mxIPs (useIPv6 # vs) lastResult d =
     (case tryDeliveryWithIPVersion env rq mxHost mxIPs useIPv6 d of
        (None, d') \<Rightarrow> (None, d')
      | (Some result, d') \<Rightarrow>
          if isFinalResult (Status result) then (Some (Inl result), d')
          else tryVersions env rq mxHost mxIPs vs result d')"

definition tryHost ::
  "delivery_env \<Rightarrow> request \<Rightarrow> ip_plan \<Rightarrow> string \<Rightarrow> string list \<Rightarrow> bool \<Rightarrow> bool \<Rightarrow> DeliveryResult \<Rightarrow> Deliverer
     \<Rightarrow> (DeliveryResult + DeliveryResult) option \<times> Deliverer" where
  "tryHost env rq plan mxHost mxIPs has4 has6 lastResult d =
     (case hostVersions plan has4 has6 of
        Some vs \<Rightarrow> tryVersions env rq mxHost mxIPs vs lastResult d
      | None \<Rightarrow>
          (case oneAttempt env rq mxHost mxIPs [] (defaultTargetIPv6 plan) d of
             (None, d') \<Rightarrow> (None, d')
           | (Some result, d') \<Rightarrow>
               if isFinalResult (Status result) then (Some (Inl result), d') else (Some (Inr result), d')))"

fun tryMX ::
  "delivery_env \<Rightarrow> request \<Rightarrow> ip_plan \<Rightarrow> nat \<Rightarrow> MXRecord list \<Rightarrow> DeliveryResult \<Rightarrow> Deliverer
     \<Rightarrow> DeliveryResult option \<times> Deliverer" where
  "tryMX env rq plan i [] lastResult d = (Some lastResult, d)"
| "tryMX env rq plan i (mx # mxs) lastResult d =
     (if ctxAtMX env i then (Some (mkResult (rq_trace rq) ''timeout'' (MXHost mx) [] ''Context canceled''), d)
      else case resolveMXHost (hostQuery env i) (dnsResolver (d_mxLookup d)) (MXHost mx) of
        Inl resErr \<Rightarrow>
          tryMX env rq plan (Suc i) mxs
            (mkResult (rq_trace rq) ''temp_fail'' (MXHost mx) [] (''Failed to resolve MX host: '' @ err_text resErr)) d
      | Inr (mxIPs, has4, has6) \<Rightarrow>
          (case tryHost env rq plan (MXHost mx) mxIPs has4 has6 lastResult d of
             (None, d') \<Rightarrow> (None, d')
           | (Some (Inl result), d') \<Rightarrow> (Some result, d')
           | (Some (Inr result), d') \<Rightarrow> tryMX env rq plan (Suc i) mxs result d'))"

section \<open>Delivery\<close>

text \<open>The hosts to deliver to, or the result if there are none.\<close>

definition mxTargets ::
  "delivery_env \<Rightarrow> OutboundConfig \<Rightarrow> string \<Rightarrow> string \<Rightarrow> string \<Rightarrow> MXLookup \<Rightarrow> (DeliveryResult + MXRecord list) \<times> MXLookup" where
  "mxTargets env cfg traceID protocol domain m =
     (let fixedDest = fixedDestination cfg protocol; fail = (\<lambda>status msg. Inl (mkResult traceID status [] [] msg)) in
      if fixedDest \<noteq> [] then
        (case SplitHostPort fixedDest of
           Inl err \<Rightarrow> (fail ''error'' (invalidDestination protocol fixedDest err), m)
         | Inr (host, _) \<Rightarrow> (Inr [\<lparr>MXHost = host, Priority = 0\<rparr>], m))
      else
        (case Lookup (mxWorld env) (mxCtxErr env) (mxCtxDone env) domain (mxGetAt env) (mxStoreAt env) m of
           (Inl err, m') \<Rightarrow>
             if errors_is err ErrNoMXRecords then (fail ''hard_bounce'' ''No MX records found'', m')
             else (fail ''temp_fail'' (''MX lookup failed: '' @ err_text err), m')
         | (Inr [], m') \<Rightarrow> (fail ''hard_bounce'' ''No MX records found'', m')
         | (Inr records, m') \<Rightarrow> (Inr records, m')))"

definition rateLimited :: "delivery_env \<Rightarrow> OutboundConfig \<Rightarrow> string \<Rightarrow> Deliverer \<Rightarrow> bool \<times> Deliverer" where
  "rateLimited env cfg domain d =
     (if PerDomainIntervalSeconds cfg > 0 \<and> \<not> isDomainWhitelisted cfg domain then
        (case waitForDomainRateLimit cfg domain (limitStoreAt env) (limitAt env) (d_limiters d) of
           (err, ls) \<Rightarrow> (err \<noteq> None, d\<lparr>d_limiters := ls\<rparr>))
      else (False, d))"

record signing =
  dkimKey :: string
  dkimSelector :: string
  dkimDomain :: string
  skipDKIMValidation :: bool
  arcKey :: string
  arcSelector :: string
  arcDomain :: string

text \<open>The last part of a delivery: hosts, attempts, duration and metrics.\<close>

definition deliverSigned ::
  "delivery_env \<Rightarrow> request \<Rightarrow> string \<Rightarrow> Deliverer \<Rightarrow> DeliveryResult option \<times> Deliverer" where
  "deliverSigned env rq domain d =
     (case mxTargets env (rq_cfg rq) (rq_trace rq) (rq_protocol rq) domain (d_mxLookup d) of
        (Inl result, m) \<Rightarrow> (Some result, d\<lparr>d_mxLookup := m\<rparr>)
      | (Inr mxRecords, m) \<Rightarrow>
          (case tryMX env rq (ipPlan (rq_cfg rq) (rq_protocol rq) (d_rotator d)) 0 mxRecords zeroResult
                  (d\<lparr>d_mxLookup := m\<rparr>) of
             (None, d') \<Rightarrow> (None, d')
           | (Some r, d') \<Rightarrow>
               let result = r\<lparr>AttemptDurationMs := elapsedMs env\<rparr> in (Some result, recordMetrics result domain d')))"

definition DeliverMessage ::
  "delivery_env \<Rightarrow> string \<Rightarrow> string \<Rightarrow> string \<Rightarrow> string \<Rightarrow> string \<Rightarrow> signing \<Rightarrow> string option \<Rightarrow> Deliverer
     \<Rightarrow> DeliveryResult option \<times> Deliverer" where
  "DeliverMessage env traceID from to message transport sg inboundDKIM d0 =
     (let cfg = d_config d0;
          protocol = (if transport = [] then DefaultProtocol cfg else transport);
          domain = snd (splitEmail to);
          fail = (\<lambda>status msg. Some (mkResult traceID status [] [] msg))
      in if domain = [] then (fail ''hard_bounce'' ''Invalid recipient address'', d0)
         else
           (case rateLimited env cfg domain d0 of
              (True, d1) \<Rightarrow> (fail ''rate_limit'' ''Domain rate limit exceeded'', d1)
            | (False, d1) \<Rightarrow>
                (case dkimKeyFor env from message (dkimKey sg) (dkimSelector sg) (dkimDomain sg) (d_keyStore d1) of
                   (None, store) \<Rightarrow> (fail ''error'' ''Invalid sender address for DKIM signing'', d1\<lparr>d_keyStore := store\<rparr>)
                 | (Some params, store) \<Rightarrow>
                     let d2 = d1\<lparr>d_keyStore := store\<rparr>;
                         dkimMsg = dkimSigned env (dnsResolver (d_mxLookup d2)) (skipDKIMValidation sg) params message;
                         arcMsg = arcSigned env (arcParams d2 (arcKey sg) (arcSelector sg) (arcDomain sg)) dkimMsg
                     in deliverSigned env
                          \<lparr>rq_trace = traceID, rq_from = from, rq_to = to, rq_msg = arcMsg, rq_protocol = protocol,
                           rq_inboundDKIM = inboundDKIM, rq_cfg = cfg\<rparr>
                          domain d2)))"

section \<open>The retry contract\<close>

text \<open>
  What holds of every attempt and can be put in sequence as long as no result says that the message may
  have been accepted holds of a whole delivery. \<open>S env rq d r d'\<close> relates the state before, the result and
  the state after; it looks at the transport, the tracker and the number of attempts only.
\<close>

definition same_work :: "Deliverer \<Rightarrow> Deliverer \<Rightarrow> bool" where
  "same_work d d' \<longleftrightarrow>
     d_transport d' = d_transport d \<and> d_tracker d' = d_tracker d \<and> d_attempts d' = d_attempts d"

locale retry_contract =
  fixes S :: "delivery_env \<Rightarrow> request \<Rightarrow> Deliverer \<Rightarrow> DeliveryResult option \<Rightarrow> Deliverer \<Rightarrow> bool"
  assumes attempt: "oneAttempt env rq mx ips ip v6 d = (r, d') \<Longrightarrow> S env rq d r d'"
    and in_sequence: "S env rq d (Some x) d1 \<Longrightarrow> \<not> accepting (Status x) \<Longrightarrow> S env rq d1 r d2 \<Longrightarrow> S env rq d r d2"
    and idle: "\<not> accepting (Status x) \<Longrightarrow> S env rq d (Some x) d"
    and same: "S env rq d r d' \<Longrightarrow> map_option Status r' = map_option Status r \<Longrightarrow> same_work d' d'' \<Longrightarrow> S env rq d r' d''"
    and same_start: "S env rq d r d' \<Longrightarrow> same_work d0 d \<Longrightarrow> S env rq d0 r d'"
begin

lemma tryIPs_S:
  "tryIPs env rq mx ips v6 srcs lastResult d = (r, d') \<Longrightarrow> \<not> accepting (Status lastResult) \<Longrightarrow> S env rq d r d'"
proof (induction env rq mx ips v6 srcs lastResult d rule: tryIPs.induct)
  case (1 env rq mx ips v6 lastResult d)
  then show ?case by (auto intro: idle)
next
  case (2 env rq mx ips v6 ip srcs lastResult d)
  show ?case
  proof (cases "ctxAtIP env (d_attempts d)")
    case True
    with 2(2) show ?thesis by (auto intro: idle)
  next
    case False
    obtain q d1 where one: "oneAttempt env rq mx ips ip v6 d = (q, d1)" by force
    then have S1: "S env rq d q d1" by (rule attempt)
    show ?thesis
    proof (cases "q = None \<or> (\<exists>x. q = Some x \<and> (isFinalResult (Status x) \<or> Status x = ''timeout''))")
      case True
      with 2(2) False one S1 show ?thesis by (auto split: if_splits)
    next
      case more: False
      then obtain x where x: "q = Some x" "\<not> isFinalResult (Status x)" "Status x \<noteq> ''timeout''" by (cases q) auto
      then have quiet: "\<not> accepting (Status x)" by (auto simp: accepting_def isFinalResult_def)
      have "S env rq d1 r d'" using 2 False one x quiet by auto
      with S1 quiet x in_sequence show ?thesis by blast
    qed
  qed
qed

lemma quiet_zero: "\<not> accepting (Status zeroResult)"
  by (simp add: zeroResult_def accepting_def)

lemma tryDeliveryWithIPVersion_S:
  assumes "tryDeliveryWithIPVersion env rq mx ips v6 d = (r, d')"
  shows "S env rq d r d'"
proof -
  obtain srcs rot where "SelectIPs (randIntn env (d_attempts d)) v6 (snd (splitEmail (rq_to rq))) (d_rotator d) = (srcs, rot)"
    by force
  with assms have "tryIPs env rq mx ips v6 (candidateIPs env d srcs) zeroResult (d\<lparr>d_rotator := rot\<rparr>) = (r, d')"
    by (simp add: tryDeliveryWithIPVersion_def)
  from tryIPs_S [OF this quiet_zero] show ?thesis by (rule same_start) (simp add: same_work_def)
qed

lemma tryVersions_S:
  "tryVersions env rq mx ips vs lastResult d = (q, d') \<Longrightarrow> \<not> accepting (Status lastResult) \<Longrightarrow>
     S env rq d (map_option (case_sum id id) q) d' \<and> (\<forall>x. q = Some (Inr x) \<longrightarrow> \<not> accepting (Status x))"
proof (induction env rq mx ips vs lastResult d rule: tryVersions.induct)
  case (1 env rq mx ips lastResult d)
  then show ?case by (auto intro: idle)
next
  case (2 env rq mx ips v vs lastResult d)
  obtain r d1 where one: "tryDeliveryWithIPVersion env rq mx ips v d = (r, d1)" by force
  then have S1: "S env rq d r d1" by (rule tryDeliveryWithIPVersion_S)
  show ?case
  proof (cases "r = None \<or> (\<exists>x. r = Some x \<and> isFinalResult (Status x))")
    case True
    with 2(2) one S1 show ?thesis by auto
  next
    case False
    then obtain x where x: "r = Some x" "\<not> isFinalResult (Status x)" by (cases r) auto
    then have quiet: "\<not> accepting (Status x)" by (auto simp: accepting_def isFinalResult_def)
    have "S env rq d1 (map_option (case_sum id id) q) d' \<and> (\<forall>x. q = Some (Inr x) \<longrightarrow> \<not> accepting (Status x))"
      using 2 one x quiet by auto
    with S1 quiet x in_sequence show ?thesis by blast
  qed
qed

lemma tryHost_S:
  assumes "tryHost env rq plan mx ips h4 h6 lastResult d = (q, d')" and "\<not> accepting (Status lastResult)"
  shows "S env rq d (map_option (case_sum id id) q) d' \<and> (\<forall>x. q = Some (Inr x) \<longrightarrow> \<not> accepting (Status x))"
proof (cases "hostVersions plan h4 h6")
  case (Some vs)
  with assms tryVersions_S show ?thesis by (auto simp: tryHost_def)
next
  case None
  obtain r d1 where "oneAttempt env rq mx ips [] (defaultTargetIPv6 plan) d = (r, d1)" by force
  with attempt [OF this] assms None show ?thesis
    by (cases r) (auto simp: tryHost_def accepting_def isFinalResult_def split: if_splits)
qed

lemma tryMX_S:
  "tryMX env rq plan i mxs lastResult d = (r, d') \<Longrightarrow> \<not> accepting (Status lastResult) \<Longrightarrow> S env rq d r d'"
proof (induction env rq plan i mxs lastResult d rule: tryMX.induct)
  case (1 env rq plan i lastResult d)
  then show ?case by (auto intro: idle)
next
  case (2 env rq plan i mx mxs lastResult d)
  let ?res = "resolveMXHost (hostQuery env i) (dnsResolver (d_mxLookup d)) (MXHost mx)"
  consider (ctx) "ctxAtMX env i" | (dns) e where "\<not> ctxAtMX env i" "?res = Inl e"
    | (host) ips h4 h6 where "\<not> ctxAtMX env i" "?res = Inr (ips, h4, h6)" by (cases ?res) auto
  then show ?case
  proof cases
    case ctx
    with 2(3) show ?thesis by (auto intro: idle)
  next
    case dns
    with 2(1) 2(3) show ?thesis by auto
  next
    case host
    obtain q d1 where one: "tryHost env rq plan (MXHost mx) ips h4 h6 lastResult d = (q, d1)" by force
    from tryHost_S [OF this 2(4)] have S1: "S env rq d (map_option (case_sum id id) q) d1"
      and quiet: "\<forall>x. q = Some (Inr x) \<longrightarrow> \<not> accepting (Status x)" by auto
    show ?thesis
    proof (cases "\<exists>x. q = Some (Inr x)")
      case True
      then obtain x where x: "q = Some (Inr x)" by blast
      with 2(2) [OF host(1) _ _ _ one [symmetric]] 2(3) host one quiet have "S env rq d1 r d'" by auto
      with S1 x quiet in_sequence show ?thesis by auto
    next
      case False
      with 2(3) host one S1 show ?thesis by (auto split: option.splits sum.splits)
    qed
  qed
qed

lemma deliverSigned_S:
  assumes "deliverSigned env rq domain d = (r, d')"
  shows "S env rq d r d'"
proof -
  obtain q m where mx: "mxTargets env (rq_cfg rq) (rq_trace rq) (rq_protocol rq) domain (d_mxLookup d) = (q, m)" by force
  show ?thesis
  proof (cases q)
    case (Inl x)
    with mx have "\<not> accepting (Status x)"
      by (auto simp: mxTargets_def accepting_def Let_def split: if_splits sum.splits prod.splits list.splits)
    from idle [OF this] have "S env rq d (Some x) (d\<lparr>d_mxLookup := m\<rparr>)" by (rule same) (simp_all add: same_work_def)
    with assms mx Inl show ?thesis by (simp add: deliverSigned_def)
  next
    case (Inr mxs)
    obtain r1 d1 where tr: "tryMX env rq (ipPlan (rq_cfg rq) (rq_protocol rq) (d_rotator d)) 0 mxs zeroResult
        (d\<lparr>d_mxLookup := m\<rparr>) = (r1, d1)" by force
    from tryMX_S [OF this quiet_zero] have "S env rq d r1 d1" by (rule same_start) (simp add: same_work_def)
    moreover have "map_option Status r = map_option Status r1 \<and> same_work d1 d'"
      using assms mx Inr tr by (auto simp: deliverSigned_def Let_def same_work_def recordMetrics_def split: option.splits)
    ultimately show ?thesis using same by blast
  qed
qed

lemma DeliverMessage_S:
  assumes "DeliverMessage env t from to msg transport sg dk d = (r, d')"
  shows "\<exists>rq. rq_to rq = to \<and> rq_from rq = from
    \<and> rq_protocol rq = (if transport = [] then DefaultProtocol (d_config d) else transport) \<and> S env rq d r d'"
proof -
  let ?rq = "\<lambda>m. \<lparr>rq_trace = t, rq_from = from, rq_to = to, rq_msg = m,
    rq_protocol = (if transport = [] then DefaultProtocol (d_config d) else transport), rq_inboundDKIM = dk,
    rq_cfg = d_config d\<rparr>"
  have early: ?thesis if "r = Some x" "\<not> accepting (Status x)" "same_work d d'" for x
  proof -
    have "S env (?rq []) d (Some x) d" by (rule idle [OF that(2)])
    then have "S env (?rq []) d r d'" by (rule same) (simp_all add: that)
    then show ?thesis by (intro exI [of _ "?rq []"]) simp
  qed
  obtain lim d1 where lim: "rateLimited env (d_config d) (snd (splitEmail to)) d = (lim, d1)" by force
  obtain q store where key: "dkimKeyFor env from msg (dkimKey sg) (dkimSelector sg) (dkimDomain sg) (d_keyStore d1) = (q, store)"
    by force
  have work1: "same_work d d1"
    using lim by (auto simp: rateLimited_def same_work_def split: if_splits prod.splits)
  have quiet: "\<not> accepting ''hard_bounce''" "\<not> accepting ''rate_limit''" "\<not> accepting ''error''"
    by (simp_all add: accepting_def)
  show ?thesis
  proof (cases "snd (splitEmail to) = [] \<or> lim \<or> q = None")
    case True
    with assms lim key work1 quiet show ?thesis
      by (intro early [of "the r"]) (auto simp: DeliverMessage_def Let_def same_work_def split: if_splits bool.splits option.splits)
  next
    case False
    then obtain params where q: "q = Some params" by auto
    obtain m where "deliverSigned env (?rq m) (snd (splitEmail to)) (d1\<lparr>d_keyStore := store\<rparr>) = (r, d')"
      using assms lim key False q by (auto simp: DeliverMessage_def Let_def)
    from deliverSigned_S [OF this] have "S env (?rq m) d r d'"
      by (rule same_start) (use work1 in \<open>simp add: same_work_def\<close>)
    then show ?thesis by (intro exI [of _ "?rq m"]) simp
  qed
qed

end

section \<open>Instances of the contract\<close>

text \<open>Transmissions: at most the last may have been accepted, all carry the message of the request.\<close>

definition transmits :: "delivery_env \<Rightarrow> request \<Rightarrow> Deliverer \<Rightarrow> DeliveryResult option \<Rightarrow> Deliverer \<Rightarrow> bool" where
  "transmits env rq d r d' \<longleftrightarrow>
     ((\<forall>n. definite (attemptEnv env n)) \<longrightarrow>
      (\<exists>evs. tp_sent (d_transport d') = tp_sent (d_transport d) @ evs \<and> sound_outcome evs r
         \<and> (\<forall>ev\<in>set evs. \<exists>mx ip. carries (rq_protocol rq) mx ip (rq_to rq) (rq_msg rq) ev)
         \<and> ((\<forall>n. foreign_env (attemptEnv env n)) \<longrightarrow> rq_protocol rq \<noteq> ProtocolLMTP \<longrightarrow> attested evs r)))"

lemma oneAttempt_transport:
  assumes "oneAttempt env rq mx ips ip v6 d = (r, d')"
  shows "attemptDelivery (attemptEnv env (d_attempts d)) (rq_cfg rq) (rq_trace rq) (rq_from rq) (rq_to rq) (rq_msg rq)
      mx ips ip v6 (rq_protocol rq) (rq_inboundDKIM rq) (d_transport d) = (r, d_transport d')"
    and "d_attempts d' = Suc (d_attempts d)"
  using assms by (auto simp: oneAttempt_def split: prod.splits option.splits)

lemma sound_status: "sound_outcome evs r \<Longrightarrow> map_option Status r' = map_option Status r \<Longrightarrow> sound_outcome evs r'"
  by (cases r; cases r') (auto simp: sound_outcome_def)

lemma attested_status: "attested evs r \<Longrightarrow> map_option Status r' = map_option Status r \<Longrightarrow> attested evs r'"
  by (cases r; cases r') (auto simp: attested_def)

interpretation sending: retry_contract transmits
proof
  fix env rq mx ips ip v6 d r d'
  assume "oneAttempt env rq mx ips ip v6 d = (r, d')"
  from attemptDelivery_sent [OF oneAttempt_transport(1) [OF this]] show "transmits env rq d r d'"
    unfolding transmits_def by (fastforce simp: list_all_iff)
next
  fix env rq d x d1 r d2
  assume 1: "transmits env rq d (Some x) d1" and 2: "\<not> accepting (Status x)" and 3: "transmits env rq d1 r d2"
  show "transmits env rq d r d2"
    unfolding transmits_def
  proof
    assume def: "\<forall>n. definite (attemptEnv env n)"
    from 1 def obtain e1 where e1: "tp_sent (d_transport d1) = tp_sent (d_transport d) @ e1" "sound_outcome e1 (Some x)"
      "\<forall>ev\<in>set e1. \<exists>mx ip. carries (rq_protocol rq) mx ip (rq_to rq) (rq_msg rq) ev" by (auto simp: transmits_def)
    from 3 def obtain e2 where e2: "tp_sent (d_transport d2) = tp_sent (d_transport d1) @ e2" "sound_outcome e2 r"
      "\<forall>ev\<in>set e2. \<exists>mx ip. carries (rq_protocol rq) mx ip (rq_to rq) (rq_msg rq) ev"
      "(\<forall>n. foreign_env (attemptEnv env n)) \<longrightarrow> rq_protocol rq \<noteq> ProtocolLMTP \<longrightarrow> attested e2 r" by (auto simp: transmits_def)
    have "sound_outcome (e1 @ e2) r" using sound_append [OF e1(2) _ e2(2)] 2 by simp
    with e1 e2 show "\<exists>evs. tp_sent (d_transport d2) = tp_sent (d_transport d) @ evs \<and> sound_outcome evs r
        \<and> (\<forall>ev\<in>set evs. \<exists>mx ip. carries (rq_protocol rq) mx ip (rq_to rq) (rq_msg rq) ev)
        \<and> ((\<forall>n. foreign_env (attemptEnv env n)) \<longrightarrow> rq_protocol rq \<noteq> ProtocolLMTP \<longrightarrow> attested evs r)"
      by (intro exI [of _ "e1 @ e2"]) (auto simp: attested_def)
  qed
next
  fix env rq d and x :: DeliveryResult
  assume "\<not> accepting (Status x)"
  then show "transmits env rq d (Some x) d" by (simp add: transmits_def attested_def)
qed (auto simp: transmits_def same_work_def dest: sound_status attested_status)

text \<open>The reputation tracker keeps its invariant.\<close>

interpretation tracking: retry_contract "\<lambda>env rq d r d'. tracker_inv (d_tracker d) \<longrightarrow> tracker_inv (d_tracker d')"
proof
  fix env rq mx ips ip v6 d r d'
  assume "oneAttempt env rq mx ips ip v6 d = (r, d')"
  then show "tracker_inv (d_tracker d) \<longrightarrow> tracker_inv (d_tracker d')"
    by (auto simp: oneAttempt_def RecordDeliveryAttempt_inv split: prod.splits option.splits)
qed (auto simp: same_work_def)

text \<open>Connections: every attempt has a client of its own if it dials.\<close>

definition clientAt :: "delivery_env \<Rightarrow> nat \<Rightarrow> client" where
  "clientAt env n = newClient (dialScript (attemptEnv env n))"

definition pooling :: "int \<Rightarrow> client list \<Rightarrow> delivery_env \<Rightarrow> Deliverer \<Rightarrow> bool" where
  "pooling ttl held env d \<longleftrightarrow>
     pool_reachable ttl (tp_pool (d_transport d), held) \<and> inj (clientAt env)
     \<and> (\<forall>n \<ge> d_attempts d. clientAt env n \<notin> set (known (tp_pool (d_transport d), held)))"

lemma pooling_same: "same_work d d' \<Longrightarrow> pooling ttl held env d' = pooling ttl held env d"
  by (simp add: same_work_def pooling_def)

interpretation connecting: retry_contract "\<lambda>env rq d r d'. \<forall>ttl held. pooling ttl held env d \<longrightarrow> pooling ttl held env d'"
proof
  fix env rq mx ips ip v6 d r d'
  assume one: "oneAttempt env rq mx ips ip v6 d = (r, d')"
  show "\<forall>ttl held. pooling ttl held env d \<longrightarrow> pooling ttl held env d'"
  proof (intro allI impI)
    fix ttl held
    assume p: "pooling ttl held env d"
    then have "newClient (dialScript (attemptEnv env (d_attempts d))) \<notin> set (known (tp_pool (d_transport d), held))"
      "pool_reachable ttl (tp_pool (d_transport d), held)" and "inj (clientAt env)"
      by (auto simp: pooling_def clientAt_def)
    from attemptDelivery_reachable [OF oneAttempt_transport(1) [OF one] this(2,1)]
    have reach: "pool_reachable ttl (tp_pool (d_transport d'), held)"
      and sub: "set (known (tp_pool (d_transport d'), held)) \<subseteq>
        insert (clientAt env (d_attempts d)) (set (known (tp_pool (d_transport d), held)))" by (auto simp: clientAt_def)
    have "clientAt env n \<notin> set (known (tp_pool (d_transport d'), held))" if "n \<ge> d_attempts d'" for n
    proof -
      have "n > d_attempts d" using that oneAttempt_transport(2) [OF one] by simp
      then have "clientAt env n \<noteq> clientAt env (d_attempts d)" using \<open>inj (clientAt env)\<close> by (auto dest: injD)
      with sub p \<open>n > d_attempts d\<close> show ?thesis by (auto simp: pooling_def)
    qed
    with reach \<open>inj (clientAt env)\<close> show "pooling ttl held env d'" by (simp add: pooling_def)
  qed
qed (auto simp: pooling_same)

section \<open>Properties\<close>


text \<open>
  C3. What is reported was transmitted: over SMTP, a result \<open>delivered\<close> or \<open>unknown\<close> means that the message
  was transmitted to its end and that this last transmission was answered with success or not at all.
\<close>

theorem reported_was_transmitted:
  assumes "DeliverMessage env t from to msg transport sg dk d = (Some x, d')" and "accepting (Status x)"
    and "\<forall>n. definite (attemptEnv env n)" and "\<forall>n. foreign_env (attemptEnv env n)"
    and "(if transport = [] then DefaultProtocol (d_config d) else transport) \<noteq> ProtocolLMTP"
  shows "\<exists>evs ev. tp_sent (d_transport d') = tp_sent (d_transport d) @ evs @ [ev] \<and> maybe_accepted ev"
proof -
  from sending.DeliverMessage_S [OF assms(1)] obtain rq where
    "rq_protocol rq = (if transport = [] then DefaultProtocol (d_config d) else transport)"
    "transmits env rq d (Some x) d'" by auto
  with assms obtain evs where "tp_sent (d_transport d') = tp_sent (d_transport d) @ evs" "attested evs (Some x)"
    by (auto simp: transmits_def)
  with assms(2) show ?thesis by (intro exI [of _ "butlast evs"] exI [of _ "last evs"]) (auto simp: attested_def)
qed


text \<open>Sample inputs: a fixed destination, one IPv4 source address, a server that accepts.\<close>

definition sample_world :: delivery_env where
  "sample_world = \<lparr>attemptEnv = (\<lambda>n. ok_env\<lparr>dialScript := ok_dial\<lparr>newClient := n\<rparr>\<rparr>), ctxAtIP = (\<lambda>_. False),
     ctxAtMX = (\<lambda>_. False), attemptClock = (\<lambda>_. sample_clock 0), healthClock = (\<lambda>_ _. 0), randIntn = (\<lambda>_ _. 0),
     hostQuery = (\<lambda>_ _. Inr [''192.0.2.7'']), mxWorld = sample_env, mxCtxErr = None, mxCtxDone = None, mxGetAt = 0,
     mxStoreAt = 0, limitStoreAt = 0, limitAt = 0, keyWorld = sample_key_env, fromAddress = (\<lambda>_. None),
     txtQuery = (\<lambda>_. Inr []), signAt = 0, formatResults = (\<lambda>d. d), elapsedMs = 7\<rparr>"

definition sample_engine :: Deliverer where
  "sample_engine = NewDeliverer (\<lambda>_. Inr []) (sample_cfg\<lparr>DefaultSMTPDestination := ''mx.e.f:25''\<rparr>) [''192.0.2.1''] []
     sample_mx sample_rep_config None None"

definition no_signing :: signing where
  "no_signing = \<lparr>dkimKey = [], dkimSelector = [], dkimDomain = [], skipDKIMValidation = False, arcKey = [],
     arcSelector = [], arcDomain = []\<rparr>"

definition sample_delivery :: "delivery_env \<Rightarrow> Deliverer \<Rightarrow> DeliveryResult option \<times> Deliverer" where
  "sample_delivery env d = DeliverMessage env ''t'' ''a@b.c'' ''d@e.f'' ''hi'' [] no_signing None d"

lemma sample_run:
  "(case sample_delivery sample_world sample_engine of (r, d') \<Rightarrow>
      (map_option Status r, map tx_reply (tp_sent (d_transport d')), idle (tp_pool (d_transport d'))))
   = (Some ''delivered'', [Some 250], [0])"
  by code_simp

lemma sample_delivered:
  "map_option Status (fst (sample_delivery sample_world sample_engine)) = Some ''delivered''"
  using sample_run by (simp add: case_prod_beta)

lemma sample_sent:
  "map tx_reply (tp_sent (d_transport (snd (sample_delivery sample_world sample_engine)))) = [Some 250]"
  using sample_run by (simp add: case_prod_beta)

lemma sample_idle: "idle (tp_pool (d_transport (snd (sample_delivery sample_world sample_engine)))) = [0]"
  using sample_run by (simp add: case_prod_beta)

lemma sample_world_ok: "definite (attemptEnv sample_world n)" "foreign_env (attemptEnv sample_world n)"
  by (simp_all add: sample_world_def definite_def foreign_env_def definite_end_def foreign_errors_only_def ok_env_def ok_script_def)

lemma sample_engine_new: "tp_sent (d_transport sample_engine) = []" "tp_pool (d_transport sample_engine) = NewConnectionPool 5"
  "DefaultProtocol (d_config sample_engine) = ProtocolSMTP" "d_rotator sample_engine = NewIPRotator [''192.0.2.1''] [] ''round-robin''"
  "d_tracker sample_engine = NewIPReputationTracker sample_rep_config"
  by (simp_all add: sample_engine_def NewDeliverer_def sample_cfg_def setOutboundDefaults_def zero_config_def
        default_int_def default_str_def)


theorem reported_was_transmitted_witness:
  "\<exists>ev. tp_sent (d_transport (snd (sample_delivery sample_world sample_engine))) = [ev] \<and> maybe_accepted ev"
proof -
  obtain x d' where dm: "sample_delivery sample_world sample_engine = (Some x, d')" and st: "Status x = ''delivered''"
    using sample_delivered by (cases "sample_delivery sample_world sample_engine") auto
  have "(if [] = ([] :: string) then DefaultProtocol (d_config sample_engine) else []) \<noteq> ProtocolLMTP"
    by (simp add: sample_engine_new)
  with reported_was_transmitted [OF dm [unfolded sample_delivery_def]] st sample_world_ok obtain evs ev where
    "tp_sent (d_transport d') = tp_sent (d_transport sample_engine) @ evs @ [ev]" "maybe_accepted ev"
    by (auto simp: accepting_def)
  moreover have "length (tp_sent (d_transport d')) = 1"
    using arg_cong [OF sample_sent, of length] dm by simp
  ultimately show ?thesis using dm by (auto simp: sample_engine_new)
qed




text \<open>
  When configured source addresses are used: over SMTP a delivery uses the system's default source
  address only if no address of an allowed family is configured, or if in dual mode with IPv4 preferred
  only IPv6 addresses are configured. Over LMTP it always uses the default.
\<close>

lemma default_source_when:
  assumes "validIPMode (IPModeForProtocol cfg protocol)" and "IPModeForProtocol cfg protocol \<noteq> []"
  shows "hostVersions (ipPlan cfg protocol rot) h4 h6 = None \<longleftrightarrow>
     protocol = ProtocolLMTP
     \<or> IPModeForProtocol cfg protocol = IPModeIPv4 \<and> \<not> HasIPv4 rot
     \<or> IPModeForProtocol cfg protocol = IPModeIPv6 \<and> \<not> HasIPv6 rot
     \<or> IPModeForProtocol cfg protocol = IPModeDual \<and> \<not> HasIPv4 rot
         \<and> (\<not> HasIPv6 rot \<or> \<not> PreferIPv6ForProtocol cfg protocol)"
proof -
  have "IPModeForProtocol cfg protocol \<in> {IPModeDual, IPModeIPv4, IPModeIPv6}"
    using assms by (auto simp: validIPMode_def)
  then consider "IPModeForProtocol cfg protocol = IPModeDual" | "IPModeForProtocol cfg protocol = IPModeIPv4"
    | "IPModeForProtocol cfg protocol = IPModeIPv6" by blast
  then show ?thesis
    by cases (cases "protocol = ProtocolLMTP"; cases "HasIPv4 rot"; cases "HasIPv6 rot";
      simp add: hostVersions_def ipPlan_def Let_def)+
qed

lemma default_source_when_witness:
  "hostVersions (ipPlan sample_cfg ProtocolSMTP (NewIPRotator [] [''2001:db8::1''] [])) True True = None
     \<and> HasIPv6 (NewIPRotator [] [''2001:db8::1''] [])"
proof -
  let ?rot = "NewIPRotator [] [''2001:db8::1''] []"
  have "validIPMode (IPModeForProtocol sample_cfg ProtocolSMTP)" "IPModeForProtocol sample_cfg ProtocolSMTP = IPModeDual"
    "\<not> PreferIPv6ForProtocol sample_cfg ProtocolSMTP" "\<not> HasIPv4 ?rot" "HasIPv6 ?rot"
    by (simp_all add: sample_cfg_def setOutboundDefaults_def zero_config_def default_str_def validIPMode_def
          IPModeForProtocol_def PreferIPv6ForProtocol_def HasIPv4_def HasIPv6_def NewIPRotator_def)
  with default_source_when [of sample_cfg ProtocolSMTP ?rot True True] show ?thesis by simp
qed

text \<open>
  A host that has addresses only in a family without source addresses is passed over without an attempt;
  if no other host remains, the result is the zero value, with an empty status and no error text.
\<close>

lemma unreachable_family_empty_result:
  "map_option (\<lambda>x. (Status x, ResError x))
     (fst (sample_delivery (sample_world\<lparr>hostQuery := (\<lambda>_ _. Inr [''::7''])\<rparr>) sample_engine)) = Some ([], [])"
  by code_simp

section \<open>Progress over the hosts\<close>

text \<open>Steps of the loops keep the pools of source addresses and the resolver, and only add attempts.\<close>

definition onwards :: "Deliverer \<Rightarrow> Deliverer \<Rightarrow> bool" where
  "onwards d d' \<longleftrightarrow> d_attempts d \<le> d_attempts d' \<and> d_mxLookup d' = d_mxLookup d
     \<and> (\<forall>b. poolOf b (d_rotator d') = poolOf b (d_rotator d))"

lemma onwards_refl [simp]: "onwards d d"
  by (simp add: onwards_def)

lemma onwards_trans: "onwards d d1 \<Longrightarrow> onwards d1 d2 \<Longrightarrow> onwards d d2"
  by (simp add: onwards_def)

lemma oneAttempt_onwards:
  "oneAttempt env rq mx ips ip v6 d = (r, d') \<Longrightarrow> onwards d d' \<and> d_attempts d < d_attempts d'"
  by (auto simp: oneAttempt_def onwards_def split: prod.splits option.splits)

lemma tryIPs_onwards:
  "tryIPs env rq mx ips v6 srcs lastResult d = (r, d') \<Longrightarrow>
     onwards d d' \<and> (srcs \<noteq> [] \<longrightarrow> (\<forall>n. \<not> ctxAtIP env n) \<longrightarrow> d_attempts d < d_attempts d')"
proof (induction env rq mx ips v6 srcs lastResult d rule: tryIPs.induct)
  case (2 env rq mx ips v6 ip srcs lastResult d)
  show ?case
  proof (cases "ctxAtIP env (d_attempts d)")
    case False
    obtain q d1 where one: "oneAttempt env rq mx ips ip v6 d = (q, d1)" by force
    have "onwards d1 d'" using 2 False one by (cases q) (auto split: if_splits)
    with oneAttempt_onwards [OF one] show ?thesis by (auto simp: onwards_def)
  qed (use 2 in auto)
qed auto

lemma tryDeliveryWithIPVersion_onwards:
  assumes "tryDeliveryWithIPVersion env rq mx ips v6 d = (r, d')"
  shows "onwards d d' \<and> (poolOf v6 (d_rotator d) \<noteq> [] \<longrightarrow> (\<forall>n. \<not> ctxAtIP env n) \<longrightarrow> d_attempts d < d_attempts d')"
proof -
  obtain srcs rot where sel: "SelectIPs (randIntn env (d_attempts d)) v6 (snd (splitEmail (rq_to rq))) (d_rotator d) = (srcs, rot)"
    by force
  with assms have "tryIPs env rq mx ips v6 (candidateIPs env d srcs) zeroResult (d\<lparr>d_rotator := rot\<rparr>) = (r, d')"
    by (simp add: tryDeliveryWithIPVersion_def)
  note ips = tryIPs_onwards [OF this]
  have "poolOf b rot = poolOf b (d_rotator d)" for b using SelectIPs_pools(1) sel by (metis snd_conv)
  moreover have "candidateIPs env d srcs \<noteq> []" if "poolOf v6 (d_rotator d) \<noteq> []"
  proof -
    have "set srcs = set (poolOf v6 (d_rotator d))" using set_SelectIPs sel by (metis fst_conv)
    with that have "srcs \<noteq> []" by auto
    then show ?thesis by (simp add: candidateIPs_def Let_def)
  qed
  ultimately show ?thesis using ips by (auto simp: onwards_def)
qed

lemma tryVersions_onwards:
  "tryVersions env rq mx ips vs lastResult d = (q, d') \<Longrightarrow>
     onwards d d' \<and> (\<forall>x. q = Some (Inl x) \<longrightarrow> isFinalResult (Status x))
     \<and> (vs \<noteq> [] \<longrightarrow> poolOf (hd vs) (d_rotator d) \<noteq> [] \<longrightarrow> (\<forall>n. \<not> ctxAtIP env n) \<longrightarrow> d_attempts d < d_attempts d')"
proof (induction env rq mx ips vs lastResult d rule: tryVersions.induct)
  case (2 env rq mx ips v vs lastResult d)
  obtain r d1 where one: "tryDeliveryWithIPVersion env rq mx ips v d = (r, d1)" by force
  have "onwards d1 d' \<and> (\<forall>x. q = Some (Inl x) \<longrightarrow> isFinalResult (Status x))"
    using 2 one by (cases r) (auto split: if_splits)
  with tryDeliveryWithIPVersion_onwards [OF one] show ?case by (auto simp: onwards_def)
qed auto

lemma hostVersions_pool:
  assumes "hostVersions (ipPlan cfg protocol rot) h4 h6 = Some vs" and "vs \<noteq> []"
  shows "poolOf (hd vs) rot \<noteq> []"
  using assms
  by (auto simp: hostVersions_def ipPlan_def Let_def HasIPv4_def HasIPv6_def poolOf_def split: if_splits)

lemma tryHost_onwards:
  assumes "tryHost env rq (ipPlan cfg protocol rot) mx ips h4 h6 lastResult d = (q, d')"
    and "\<And>b. poolOf b (d_rotator d) = poolOf b rot"
  shows "onwards d d' \<and> (\<forall>x. q = Some (Inl x) \<longrightarrow> isFinalResult (Status x))
    \<and> (hostVersions (ipPlan cfg protocol rot) h4 h6 \<noteq> Some [] \<longrightarrow> (\<forall>n. \<not> ctxAtIP env n) \<longrightarrow> d_attempts d < d_attempts d')"
proof (cases "hostVersions (ipPlan cfg protocol rot) h4 h6")
  case None
  obtain r d1 where one: "oneAttempt env rq mx ips [] (defaultTargetIPv6 (ipPlan cfg protocol rot)) d = (r, d1)" by force
  with assms(1) None have "d' = d1 \<and> (\<forall>x. q = Some (Inl x) \<longrightarrow> isFinalResult (Status x))"
    by (cases r) (auto simp: tryHost_def split: if_splits)
  with oneAttempt_onwards [OF one] show ?thesis by simp
next
  case (Some vs)
  with assms(1) have "tryVersions env rq mx ips vs lastResult d = (q, d')" by (simp add: tryHost_def)
  with tryVersions_onwards [OF this] hostVersions_pool [OF Some] assms(2) Some show ?thesis by auto
qed

lemma tryMX_progress:
  assumes "\<forall>i. \<not> ctxAtMX env i" and "\<forall>n. \<not> ctxAtIP env n" and "\<not> isFinalResult (Status r)"
    and "\<forall>i host. \<exists>ips h4 h6. resolveMXHost (hostQuery env i) resolver host = Inr (ips, h4, h6)
           \<and> hostVersions (ipPlan cfg protocol rot) h4 h6 \<noteq> Some []"
  shows "tryMX env rq (ipPlan cfg protocol rot) i mxs lastResult d = (Some r, d') \<Longrightarrow>
    (\<forall>b. poolOf b (d_rotator d) = poolOf b rot) \<Longrightarrow> dnsResolver (d_mxLookup d) = resolver \<Longrightarrow>
    d_attempts d + length mxs \<le> d_attempts d'"
proof (induction mxs arbitrary: i lastResult d)
  case Nil
  then show ?case by simp
next
  case (Cons mx mxs)
  from assms(4) obtain ips h4 h6 where host: "resolveMXHost (hostQuery env i) resolver (MXHost mx) = Inr (ips, h4, h6)"
    "hostVersions (ipPlan cfg protocol rot) h4 h6 \<noteq> Some []" by blast
  obtain q d1 where one: "tryHost env rq (ipPlan cfg protocol rot) (MXHost mx) ips h4 h6 lastResult d = (q, d1)" by force
  note step = tryHost_onwards [OF one] Cons.prems(2)
  have "d_attempts d < d_attempts d1" "onwards d d1" using step host(2) assms(2) by auto
  moreover obtain x where "q = Some (Inr x)" "tryMX env rq (ipPlan cfg protocol rot) (Suc i) mxs x d1 = (Some r, d')"
    using Cons.prems host one assms(1,3) step by (auto split: option.splits sum.splits)
  ultimately show ?case using Cons.IH [of "Suc i" x d1] Cons.prems by (auto simp: onwards_def)
qed


definition refusing_world :: delivery_env where
  "refusing_world = sample_world\<lparr>attemptEnv := (\<lambda>n. ok_env\<lparr>dialScript :=
     ok_dial\<lparr>dialTCP := (\<lambda>_ _ _. Some (ErrNet False ''connection refused''))\<rparr>\<rparr>)\<rparr>"

definition sample_request :: request where
  "sample_request = \<lparr>rq_trace = ''t'', rq_from = ''a@b.c'', rq_to = ''d@e.f'', rq_msg = ''hi'', rq_protocol = ProtocolSMTP,
     rq_inboundDKIM = None, rq_cfg = sample_cfg\<rparr>"

definition sample_refused :: "DeliveryResult option \<times> Deliverer" where
  "sample_refused = tryMX refusing_world sample_request
     (ipPlan (rq_cfg sample_request) (rq_protocol sample_request) (d_rotator sample_engine)) 0
     [\<lparr>MXHost = ''mx1.e.f'', Priority = 10\<rparr>, \<lparr>MXHost = ''mx2.e.f'', Priority = 20\<rparr>] zeroResult sample_engine"

lemma sample_refused_status: "map_option Status (fst sample_refused) = Some ''timeout''"
  by code_simp


section \<open>The engine as a machine\<close>

text \<open>
  The operations on the engine: deliveries, the ticks of its background loops, reloads and shutdown.
\<close>

datatype deliverer_op =
    OpDeliver delivery_env string string string string string signing "string option"
  | OpLimiterTick gotime
  | OpMXTick gotime
  | OpTrackerTick cleanup_clock
  | OpReload OutboundConfig
  | OpKeyStore KeyStore
  | OpMetrics bool
  | OpStop cleanup_clock

fun deliverer_step :: "Deliverer \<Rightarrow> deliverer_op \<Rightarrow> Deliverer" where
  "deliverer_step d (OpDeliver env t from to msg transport sg dk) = snd (DeliverMessage env t from to msg transport sg dk d)"
| "deliverer_step d (OpLimiterTick now) = limiterTick now d"
| "deliverer_step d (OpMXTick now) = mxTick now d"
| "deliverer_step d (OpTrackerTick clk) = trackerTick clk d"
| "deliverer_step d (OpReload cfg) = Deliverer_ReloadConfig cfg d"
| "deliverer_step d (OpKeyStore ks) = SetDKIMKeyStore ks d"
| "deliverer_step d (OpMetrics present) = Deliverer_SetMetrics present d"
| "deliverer_step d (OpStop clk) = Stop clk d"

definition deliverer_inv :: "Deliverer \<Rightarrow> bool" where
  "deliverer_inv d \<longleftrightarrow> tracker_inv (d_tracker d) \<and> cache_keys_distinct (d_mxLookup d)
     \<and> distinct (map fst (d_limiters d))"

lemma Lookup_keys:
  assumes "Lookup env e1 e2 domain t1 t2 m = (r, m')" and "cache_keys_distinct m"
  shows "cache_keys_distinct m'"
  using assms
  by (auto simp: Lookup_def getFromCache_def lookupAndStore_def storeInCache_def cache_keys_distinct_def
        Let_def distinct_update distinct_delete split: option.splits sum.splits prod.splits if_splits)

lemma mxTargets_keys:
  assumes "mxTargets env cfg t protocol domain m = (r, m')" and "cache_keys_distinct m"
  shows "cache_keys_distinct m'"
  using assms by (auto simp: mxTargets_def Let_def dest: Lookup_keys split: if_splits sum.splits prod.splits list.splits)

lemma rateLimited_limiters:
  assumes "rateLimited env cfg domain d = (b, d')" and "distinct (map fst (d_limiters d))"
  shows "distinct (map fst (d_limiters d')) \<and> d_mxLookup d' = d_mxLookup d"
  using assms
  by (auto simp: rateLimited_def waitForDomainRateLimit_def Let_def distinct_update split: if_splits prod.splits)

text \<open>The loops of a delivery leave the configuration, the MX cache and the limiters alone.\<close>

definition untouched :: "Deliverer \<Rightarrow> Deliverer \<Rightarrow> bool" where
  "untouched d d' \<longleftrightarrow>
     d_mxLookup d' = d_mxLookup d \<and> d_limiters d' = d_limiters d \<and> d_config d' = d_config d"

lemma oneAttempt_untouched: "untouched d (snd (oneAttempt env rq mx ips ip v6 d))"
  by (simp add: oneAttempt_def untouched_def split: prod.split option.split)

lemma tryIPs_untouched: "untouched d (snd (tryIPs env rq mx ips v6 srcs lastResult d))"
proof (induction env rq mx ips v6 srcs lastResult d rule: tryIPs.induct)
  case (2 env rq mx ips v6 ip srcs lastResult d)
  obtain q d1 where one: "oneAttempt env rq mx ips ip v6 d = (q, d1)" by force
  with oneAttempt_untouched [of d env rq mx ips ip v6] have "untouched d d1" by simp
  with 2 one show ?case by (cases q) (auto simp: untouched_def)
qed (simp add: untouched_def)

lemma tryDeliveryWithIPVersion_untouched: "untouched d (snd (tryDeliveryWithIPVersion env rq mx ips v6 d))"
proof -
  obtain srcs rot where "SelectIPs (randIntn env (d_attempts d)) v6 (snd (splitEmail (rq_to rq))) (d_rotator d) = (srcs, rot)"
    by force
  with tryIPs_untouched [of "d\<lparr>d_rotator := rot\<rparr>" env rq mx ips v6 "candidateIPs env d srcs" zeroResult]
  show ?thesis by (simp add: tryDeliveryWithIPVersion_def untouched_def)
qed

lemma tryVersions_untouched: "untouched d (snd (tryVersions env rq mx ips vs lastResult d))"
proof (induction env rq mx ips vs lastResult d rule: tryVersions.induct)
  case (2 env rq mx ips v vs lastResult d)
  obtain q d1 where one: "tryDeliveryWithIPVersion env rq mx ips v d = (q, d1)" by force
  with tryDeliveryWithIPVersion_untouched [of d env rq mx ips v] have "untouched d d1" by simp
  with 2 one show ?case by (cases q) (auto simp: untouched_def)
qed (simp add: untouched_def)

lemma tryHost_untouched: "untouched d (snd (tryHost env rq plan mx ips h4 h6 lastResult d))"
proof (cases "hostVersions plan h4 h6")
  case None
  obtain q d1 where one: "oneAttempt env rq mx ips [] (defaultTargetIPv6 plan) d = (q, d1)" by force
  with oneAttempt_untouched [of d env rq mx ips "[]"] have "untouched d d1" by (metis snd_conv)
  with None one show ?thesis by (cases q) (auto simp: tryHost_def)
qed (simp add: tryHost_def tryVersions_untouched)

lemma tryMX_untouched: "untouched d (snd (tryMX env rq plan i mxs lastResult d))"
proof (induction mxs arbitrary: i lastResult d)
  case (Cons mx mxs)
  show ?case
  proof (cases "resolveMXHost (hostQuery env i) (dnsResolver (d_mxLookup d)) (MXHost mx)")
    case (Inl e)
    with Cons show ?thesis by (simp add: untouched_def)
  next
    case (Inr host)
    obtain ips h4 h6 where h: "host = (ips, h4, h6)" by (metis prod_cases3)
    obtain q d1 where one: "tryHost env rq plan (MXHost mx) ips h4 h6 lastResult d = (q, d1)" by force
    with tryHost_untouched [of d env rq plan "MXHost mx" ips h4 h6 lastResult] have "untouched d d1" by simp
    with Cons Inr h one show ?thesis by (auto simp: untouched_def split: option.split sum.split)
  qed
qed (simp add: untouched_def)

lemma deliverSigned_keys:
  assumes "cache_keys_distinct (d_mxLookup d)" and "distinct (map fst (d_limiters d))"
  shows "cache_keys_distinct (d_mxLookup (snd (deliverSigned env rq domain d)))
    \<and> distinct (map fst (d_limiters (snd (deliverSigned env rq domain d))))"
proof -
  obtain q m where mx: "mxTargets env (rq_cfg rq) (rq_trace rq) (rq_protocol rq) domain (d_mxLookup d) = (q, m)" by force
  with assms(1) have keys: "cache_keys_distinct m" by (rule mxTargets_keys [rotated])
  show ?thesis
  proof (cases q)
    case (Inl x)
    with mx keys assms(2) show ?thesis by (simp add: deliverSigned_def)
  next
    case (Inr mxs)
    let ?plan = "ipPlan (rq_cfg rq) (rq_protocol rq) (d_rotator d)"
    from tryMX_untouched [of "d\<lparr>d_mxLookup := m\<rparr>" env rq ?plan 0 mxs zeroResult] mx Inr keys assms(2)
    show ?thesis by (auto simp: deliverSigned_def untouched_def recordMetrics_def Let_def split: prod.split option.split)
  qed
qed

lemma deliverSigned_config: "d_config (snd (deliverSigned env rq domain d)) = d_config d"
proof -
  obtain q m where mx: "mxTargets env (rq_cfg rq) (rq_trace rq) (rq_protocol rq) domain (d_mxLookup d) = (q, m)" by force
  show ?thesis
  proof (cases q)
    case (Inr mxs)
    let ?plan = "ipPlan (rq_cfg rq) (rq_protocol rq) (d_rotator d)"
    from tryMX_untouched [of "d\<lparr>d_mxLookup := m\<rparr>" env rq ?plan 0 mxs zeroResult] mx Inr
    show ?thesis by (auto simp: deliverSigned_def untouched_def recordMetrics_def Let_def split: prod.split option.split)
  qed (simp add: deliverSigned_def mx)
qed

lemma DeliverMessage_config: "d_config (snd (DeliverMessage env t from to msg transport sg dk d)) = d_config d"
proof -
  obtain lim d1 where lim: "rateLimited env (d_config d) (snd (splitEmail to)) d = (lim, d1)" by force
  then have "d_config d1 = d_config d" by (auto simp: rateLimited_def split: if_splits prod.splits)
  with lim show ?thesis
    by (auto simp: DeliverMessage_def Let_def deliverSigned_config split: prod.split bool.split option.split)
qed

lemma DeliverMessage_inv:
  assumes "deliverer_inv d"
  shows "deliverer_inv (snd (DeliverMessage env t from to msg transport sg dk d))"
proof -
  obtain r d' where dm: "DeliverMessage env t from to msg transport sg dk d = (r, d')" by force
  obtain lim d1 where lim: "rateLimited env (d_config d) (snd (splitEmail to)) d = (lim, d1)" by force
  obtain q store where key: "dkimKeyFor env from msg (dkimKey sg) (dkimSelector sg) (dkimDomain sg) (d_keyStore d1) = (q, store)"
    by force
  have "tracker_inv (d_tracker d')" using tracking.DeliverMessage_S [OF dm] assms by (auto simp: deliverer_inv_def)
  moreover have keys: "cache_keys_distinct (d_mxLookup d1)" "distinct (map fst (d_limiters d1))"
    using rateLimited_limiters [OF lim] assms by (simp_all add: deliverer_inv_def)
  moreover have "cache_keys_distinct (d_mxLookup d') \<and> distinct (map fst (d_limiters d'))"
  proof -
    let ?d2 = "d1\<lparr>d_keyStore := store\<rparr>"
    consider "d' = d \<or> d' = d1 \<or> d' = ?d2" | rq where "deliverSigned env rq (snd (splitEmail to)) ?d2 = (r, d')"
      using dm lim key by (auto simp: DeliverMessage_def Let_def split: if_splits bool.splits option.splits)
    then show ?thesis
    proof cases
      case 1
      with keys assms show ?thesis by (auto simp: deliverer_inv_def)
    next
      case 2
      with deliverSigned_keys [of ?d2 env rq "snd (splitEmail to)"] keys show ?thesis by simp
    qed
  qed
  ultimately show ?thesis using dm by (simp add: deliverer_inv_def)
qed

interpretation engine: machine deliverer_step deliverer_inv
proof
  fix d op
  show "deliverer_inv d \<Longrightarrow> deliverer_inv (deliverer_step d op)"
    by (cases op, simp add: DeliverMessage_inv) (auto simp: limiterTick_def mxTick_def trackerTick_def Stop_def
        Deliverer_ReloadConfig_def SetDKIMKeyStore_def Deliverer_SetMetrics_def deliverer_inv_def
        cleanupDomainLimiters_def distinct_filter_keys Cleanup_inv mxc.valid_sweep)
qed

text \<open>
  The delivery engine keeps the invariants of its parts: after any sequence of deliveries, background
  cleanups, reloads and a shutdown, the reputation tracker satisfies its invariant and the MX cache and
  the table of domain limiters have one entry per key.
\<close>

lemma engine_reachable:
  assumes "cache_keys_distinct mx"
  shows "deliverer_inv (foldl deliverer_step (NewDeliverer readFile cfg v4 v6 mx rep arcCfg srsCfg) ops)"
  by (rule engine.run_inv)
    (simp add: deliverer_inv_def NewDeliverer_def assms tracker_inv_def NewIPReputationTracker_def)

lemma engine_reachable_witness:
  "deliverer_inv (foldl deliverer_step
     (NewDeliverer (\<lambda>_. Inr []) sample_cfg [''192.0.2.1''] [] (NewMXLookup (DNS zero_config)) sample_rep_config None None)
     [OpDeliver sample_world ''t'' ''a@b.c'' ''d@e.f'' ''hi'' [] no_signing None, OpLimiterTick 5])"
  by (rule engine_reachable) (simp add: cache_keys_distinct_def NewMXLookup_def)

end
