(* ===== verification/Handler.thy ===== *)
theory Handler
  imports Delivery Go_Mime Go_Encoding
begin

text \<open>
  The HTTP API of \<^verbatim>\<open>internal/handler/handler_new.go\<close>: authentication, the two ways to submit a message,
  validation, composition of a message, the choice of signing parameters, the call of the delivery
  engine and the mapping of its result to an HTTP status. The JSON decoder and the mail library are
  parameters; of the mail library's objects the calls made on them are recorded.
\<close>

section \<open>Requests and responses\<close>

record InboundAuthResults =
  ia_DKIM :: string
  ia_SPF :: string
  ia_DMARC :: string

record Attachment =
  at_Filename :: string
  at_ContentType :: string
  at_Content :: string

text \<open>The custom headers are listed in the order in which the iteration over the map visits them.\<close>

record MessageRequest =
  mr_From :: string
  mr_To :: string
  mr_Subject :: string
  mr_Text :: string
  mr_HTML :: string
  mr_Attachments :: "Attachment list"
  mr_Headers :: "(string \<times> string) list"
  mr_MessageID :: string
  mr_RawMessage :: string
  mr_DKIMPrivateKey :: string
  mr_DKIMSelector :: string
  mr_DKIMDomain :: string
  mr_SkipDKIMValidation :: bool
  mr_ARCPrivateKey :: string
  mr_ARCSelector :: string
  mr_ARCDomain :: string
  mr_InboundAuth :: "InboundAuthResults option"

record http_request =
  hr_Method :: string
  hr_Header :: "(string \<times> string) list"
  hr_Body :: string
  hr_BodyBroken :: bool

datatype addr_error =
    EmptyAddress | MissingAt | EmptyLocalPart | EmptyDomain | DomainTooLong | NoTLD | BadDomainStart | BadDomainEnd
  | ConsecutiveDots | EmptyLabel | LabelTooLong | BadDomainChar | AddressTooLong

datatype response_body =
    TextBody string
  | BadAddress string addr_error
  | JSONError string
  | JSONResult DeliveryResult

record http_response =
  hs_Code :: int
  hs_Body :: response_body

abbreviation httpError :: "int \<Rightarrow> string \<Rightarrow> http_response" where
  "httpError code msg \<equiv> \<lparr>hs_Code = code, hs_Body = TextBody msg\<rparr>"

record Handler =
  h_config :: Config
  h_dkimPrivateKey :: string

definition NewHandler :: "(string \<Rightarrow> goerror + string) \<Rightarrow> Config \<Rightarrow> Handler" where
  "NewHandler readFile cfg =
     \<lparr>h_config = cfg,
      h_dkimPrivateKey =
        (if DKIMEnabled (DKIM cfg) \<and> DKIMPrivateKeyPath (DKIM cfg) \<noteq> [] then
           (case readFile (DKIMPrivateKeyPath (DKIM cfg)) of Inr keyData \<Rightarrow> keyData | Inl _ \<Rightarrow> [])
         else [])\<rparr>"

text \<open>Eight random bytes, or the nanoseconds of the clock if there are none.\<close>

definition generateTraceID :: "string option \<Rightarrow> nat \<Rightarrow> string" where
  "generateTraceID random unixNano =
     (case random of Some b \<Rightarrow> hex_EncodeToString b | None \<Rightarrow> hex_digits 16 unixNano)"

section \<open>Addresses\<close>

definition domainChar :: "char \<Rightarrow> bool" where
  "domainChar c \<longleftrightarrow>
     (let n = of_char c :: nat in
      97 \<le> n \<and> n \<le> 122 \<or> 65 \<le> n \<and> n \<le> 90 \<or> 48 \<le> n \<and> n \<le> 57 \<or> c = CHR ''-'' \<or> n > 127)"

fun checkLabels :: "string list \<Rightarrow> addr_error option" where
  "checkLabels [] = None"
| "checkLabels (l # ls) =
     (if l = [] then Some EmptyLabel
      else if length l > 63 then Some LabelTooLong
      else if \<not> list_all domainChar l then Some BadDomainChar
      else checkLabels ls)"

definition checkDomain :: "string \<Rightarrow> addr_error option" where
  "checkDomain domain =
     (if domain = [] then Some EmptyDomain
      else if length domain > 255 then Some DomainTooLong
      else if \<not> Contains domain ''.'' then Some NoTLD
      else if hd domain = CHR ''.'' \<or> hd domain = CHR ''-'' then Some BadDomainStart
      else if last domain = CHR ''.'' \<or> last domain = CHR ''-'' then Some BadDomainEnd
      else if Contains domain ''..'' then Some ConsecutiveDots
      else checkLabels (Split domain ''.''))"

definition validateEmailAddress :: "string \<Rightarrow> bool \<Rightarrow> addr_error option" where
  "validateEmailAddress addr0 allowNull =
     (let addr = (if length addr0 \<ge> 2 \<and> hd addr0 = CHR ''<'' \<and> last addr0 = CHR ''>'' then butlast (tl addr0) else addr0)
      in if addr = [] then (if allowNull then None else Some EmptyAddress)
         else
           (case LastIndexByte addr CHR ''@'' of
              None \<Rightarrow> Some MissingAt
            | Some atIdx \<Rightarrow>
                if take atIdx addr = [] then Some EmptyLocalPart
                else
                  (case checkDomain (drop (atIdx + 1) addr) of
                     Some err \<Rightarrow> Some err
                   | None \<Rightarrow> if length addr > 254 then Some AddressTooLong else None)))"

section \<open>Header mode\<close>

definition decodeBase64Header :: "string \<Rightarrow> string" where
  "decodeBase64Header val =
     (if val = [] then []
      else case base64_DecodeString val of Inl _ \<Rightarrow> val | Inr decoded \<Rightarrow> decoded)"

text \<open>
  What can be read of a body under the size limit, and whether an error comes after it.
\<close>

definition maxBody :: "Handler \<Rightarrow> int" where
  "maxBody h =
     (let m = MaxBodySizeBytes (Inbound (h_config h)) in if m \<le> 0 then 35 * 1024 * 1024 else m)"

definition limitedBody :: "int \<Rightarrow> http_request \<Rightarrow> string \<times> bool" where
  "limitedBody limit r = (take (nat limit) (hr_Body r), int (length (hr_Body r)) > limit \<or> hr_BodyBroken r)"

definition parseHeaderMode :: "int \<Rightarrow> http_request \<Rightarrow> MessageRequest" where
  "parseHeaderMode limit r =
     (let get = mimeGet (hr_Header r);
          body = (case limitedBody limit r of (bytes, failed) \<Rightarrow> if failed then [] else bytes);
          dkimRes = get ''X-Inbound-DKIM-Result''; spfRes = get ''X-Inbound-SPF-Result'';
          dmarcRes = get ''X-Inbound-DMARC-Result''
      in \<lparr>mr_From = get ''X-Envelope-From'', mr_To = get ''X-Envelope-To'', mr_Subject = [], mr_Text = [], mr_HTML = [],
          mr_Attachments = [], mr_Headers = [], mr_MessageID = [], mr_RawMessage = body,
          mr_DKIMPrivateKey = decodeBase64Header (get ''X-DKIM-Private-Key''), mr_DKIMSelector = get ''X-DKIM-Selector'',
          mr_DKIMDomain = get ''X-DKIM-Domain'', mr_SkipDKIMValidation = False,
          mr_ARCPrivateKey = decodeBase64Header (get ''X-ARC-Private-Key''), mr_ARCSelector = get ''X-ARC-Selector'',
          mr_ARCDomain = get ''X-ARC-Domain'',
          mr_InboundAuth = (if dkimRes \<noteq> [] \<or> spfRes \<noteq> [] \<or> dmarcRes \<noteq> []
                            then Some \<lparr>ia_DKIM = dkimRes, ia_SPF = spfRes, ia_DMARC = dmarcRes\<rparr> else None)\<rparr>)"

section \<open>Composition\<close>

datatype header_op =
    SetDate
  | SetAddressList string string
  | SetSubject string
  | SetMessageID string
  | GenerateMessageID
  | SetField string string

datatype message_part =
    InlinePart string string
  | SinglePart string string
  | AttachmentPart string string string

datatype part_writer = InlineWriter | MailWriter | OtherWriter

text \<open>
  The mail library: a header is known by the calls that made it, a multipart writer by the parts written
  so far. \<open>rawFields\<close> gives the fields of a header one by one.
\<close>

record mail_lib =
  generateMessageID :: "header_op list \<Rightarrow> goerror option"
  createWriter :: "header_op list \<Rightarrow> goerror option"
  createInline :: "header_op list \<Rightarrow> goerror option"
  writePart :: "header_op list \<Rightarrow> message_part list \<Rightarrow> message_part \<Rightarrow> goerror option"
  rawFields :: "header_op list \<Rightarrow> (goerror + string) list"
  renderMultipart :: "header_op list \<Rightarrow> message_part list \<Rightarrow> string"

definition addPart :: "mail_lib \<Rightarrow> header_op list \<Rightarrow> message_part \<Rightarrow> message_part list \<Rightarrow> goerror + message_part list" where
  "addPart lib hdr p parts = (case writePart lib hdr parts p of Some err \<Rightarrow> Inl err | None \<Rightarrow> Inr (parts @ [p]))"

definition createPart ::
  "mail_lib \<Rightarrow> header_op list \<Rightarrow> part_writer \<Rightarrow> string \<Rightarrow> string \<Rightarrow> message_part list \<Rightarrow> goerror + message_part list" where
  "createPart lib hdr w contentType content parts =
     (case w of
        InlineWriter \<Rightarrow> addPart lib hdr (InlinePart (contentType @ ''; charset=utf-8'') content) parts
      | MailWriter \<Rightarrow> addPart lib hdr (SinglePart (contentType @ ''; charset=utf-8'') content) parts
      | OtherWriter \<Rightarrow> Inl (ErrText ''unknown writer type''))"

definition createAttachment ::
  "mail_lib \<Rightarrow> header_op list \<Rightarrow> Attachment \<Rightarrow> message_part list \<Rightarrow> goerror + message_part list" where
  "createAttachment lib hdr att parts =
     (case base64_DecodeString (at_Content att) of
        Inl err \<Rightarrow> Inl (wrapErr ''invalid base64 content: '' err)
      | Inr content \<Rightarrow> addPart lib hdr (AttachmentPart (at_ContentType att) (at_Filename att) content) parts)"

fun createAttachments ::
  "mail_lib \<Rightarrow> header_op list \<Rightarrow> Attachment list \<Rightarrow> message_part list \<Rightarrow> goerror + message_part list" where
  "createAttachments lib hdr [] parts = Inr parts"
| "createAttachments lib hdr (att # atts) parts =
     (case createAttachment lib hdr att parts of
        Inl err \<Rightarrow> Inl (wrapErr (''failed to create attachment '' @ at_Filename att @ '': '') err)
      | Inr parts' \<Rightarrow> createAttachments lib hdr atts parts')"

fun applyHeaders :: "(string \<times> string) list \<Rightarrow> header_op list \<Rightarrow> goerror + header_op list" where
  "applyHeaders [] hdr = Inr hdr"
| "applyHeaders ((key, val) # kvs) hdr =
     (if ContainsAny key [CR, LF] \<or> ContainsAny val [CR, LF]
      then Inl (ErrText (''invalid custom header '' @ key @ '': contains prohibited CRLF characters''))
      else applyHeaders kvs (hdr @ [SetField key val]))"

fun writeFields :: "(goerror + string) list \<Rightarrow> string \<Rightarrow> goerror + string" where
  "writeFields [] buf = Inr buf"
| "writeFields (Inl err # fs) buf = Inl err"
| "writeFields (Inr raw # fs) buf = writeFields fs (buf @ raw)"

definition bodyParts :: "mail_lib \<Rightarrow> header_op list \<Rightarrow> MessageRequest \<Rightarrow> goerror + message_part list" where
  "bodyParts lib hdr req =
     (if mr_HTML req \<noteq> [] \<and> mr_Text req \<noteq> [] then
        (case createInline lib hdr of
           Some err \<Rightarrow> Inl err
         | None \<Rightarrow>
             (case createPart lib hdr InlineWriter ''text/plain'' (mr_Text req) [] of
                Inl err \<Rightarrow> Inl (wrapErr ''failed to create text part: '' err)
              | Inr parts \<Rightarrow>
                  (case createPart lib hdr InlineWriter ''text/html'' (mr_HTML req) parts of
                     Inl err \<Rightarrow> Inl (wrapErr ''failed to create HTML part: '' err)
                   | Inr parts' \<Rightarrow> Inr parts')))
      else if mr_HTML req \<noteq> [] then
        (case createPart lib hdr MailWriter ''text/html'' (mr_HTML req) [] of
           Inl err \<Rightarrow> Inl (wrapErr ''failed to create HTML part: '' err)
         | Inr parts \<Rightarrow> Inr parts)
      else if mr_Text req \<noteq> [] then
        (case createPart lib hdr MailWriter ''text/plain'' (mr_Text req) [] of
           Inl err \<Rightarrow> Inl (wrapErr ''failed to create text part: '' err)
         | Inr parts \<Rightarrow> Inr parts)
      else Inr [])"

definition multipartMessage :: "mail_lib \<Rightarrow> header_op list \<Rightarrow> MessageRequest \<Rightarrow> goerror + string" where
  "multipartMessage lib hdr req =
     (case createWriter lib hdr of
        Some err \<Rightarrow> Inl err
      | None \<Rightarrow>
          (case bodyParts lib hdr req of
             Inl err \<Rightarrow> Inl err
           | Inr parts \<Rightarrow>
               (case createAttachments lib hdr (mr_Attachments req) parts of
                  Inl err \<Rightarrow> Inl err
                | Inr parts' \<Rightarrow> Inr (renderMultipart lib hdr parts'))))"

definition singlePartMessage :: "mail_lib \<Rightarrow> header_op list \<Rightarrow> MessageRequest \<Rightarrow> goerror + string" where
  "singlePartMessage lib hdr req =
     (let contentType = (if mr_HTML req \<noteq> [] then ''text/html; charset=utf-8'' else ''text/plain; charset=utf-8'');
          hdr' = hdr @ [SetField ''Content-Type'' contentType, SetField ''Content-Transfer-Encoding'' ''quoted-printable'']
      in case writeFields (rawFields lib hdr') [] of
           Inl err \<Rightarrow> Inl err
         | Inr headerText \<Rightarrow>
             Inr (headerText @ [CR, LF] @ quotedPrintable (if mr_HTML req \<noteq> [] then mr_HTML req else mr_Text req)))"

definition baseHeader :: "MessageRequest \<Rightarrow> header_op list" where
  "baseHeader req =
     [SetDate, SetAddressList ''From'' (mr_From req), SetAddressList ''To'' (mr_To req), SetSubject (mr_Subject req)]"

definition messageIDHeader :: "mail_lib \<Rightarrow> MessageRequest \<Rightarrow> goerror + header_op list" where
  "messageIDHeader lib req =
     (if mr_MessageID req \<noteq> [] then Inr (baseHeader req @ [SetMessageID (mr_MessageID req)])
      else case generateMessageID lib (baseHeader req) of
             Some err \<Rightarrow> Inl (wrapErr ''failed to generate Message-ID: '' err)
           | None \<Rightarrow> Inr (baseHeader req @ [GenerateMessageID]))"

definition buildRawMessage :: "mail_lib \<Rightarrow> MessageRequest \<Rightarrow> goerror + string" where
  "buildRawMessage lib req =
     (case messageIDHeader lib req of
        Inl err \<Rightarrow> Inl err
      | Inr hdr0 \<Rightarrow>
          (case applyHeaders (mr_Headers req) hdr0 of
             Inl err \<Rightarrow> Inl err
           | Inr hdr \<Rightarrow>
               if mr_Attachments req \<noteq> [] \<or> mr_HTML req \<noteq> [] \<and> mr_Text req \<noteq> []
               then multipartMessage lib hdr req
               else singlePartMessage lib hdr req))"

section \<open>Delivery requests\<close>

record http_env =
  he_random :: "string option"
  he_unixNano :: nat
  he_decodeJSON :: "string \<Rightarrow> bool \<Rightarrow> MessageRequest option"
  he_mail :: mail_lib
  he_world :: delivery_env

definition traceIDFor :: "http_env \<Rightarrow> http_request \<Rightarrow> string" where
  "traceIDFor env r =
     (let traceID = mimeGet (hr_Header r) ''X-Trace-Id'' in
      if traceID = [] then generateTraceID (he_random env) (he_unixNano env) else traceID)"

definition authorized :: "Handler \<Rightarrow> http_request \<Rightarrow> bool" where
  "authorized h r \<longleftrightarrow>
     (let token = AuthToken (Inbound (h_config h)) in
      token = [] \<or> TrimPrefix (mimeGet (hr_Header r) ''Authorization'') ''Bearer '' = token)"

definition readRequest :: "http_env \<Rightarrow> Handler \<Rightarrow> http_request \<Rightarrow> MessageRequest option" where
  "readRequest env h r =
     (if HasPrefix (mimeGet (hr_Header r) ''Content-Type'') ''message/rfc822''
      then Some (parseHeaderMode (maxBody h) r)
      else case limitedBody (maxBody h) r of (bytes, failed) \<Rightarrow> he_decodeJSON env bytes failed)"

definition isRawMode :: "MessageRequest \<Rightarrow> bool" where
  "isRawMode req \<longleftrightarrow> mr_RawMessage req \<noteq> []"

definition isComposedMode :: "MessageRequest \<Rightarrow> bool" where
  "isComposedMode req \<longleftrightarrow> mr_Subject req \<noteq> [] \<or> mr_Text req \<noteq> [] \<or> mr_HTML req \<noteq> []"

definition singleQuoted :: "string \<Rightarrow> string" where
  "singleQuoted s = CHR 0x27 # s @ [CHR 0x27]"

definition rejection :: "MessageRequest \<Rightarrow> http_response option" where
  "rejection req =
     (if mr_To req = [] then Some (httpError 400 (''Missing '' @ singleQuoted ''to'' @ '' field''))
      else
        (case validateEmailAddress (mr_From req) True of
           Some err \<Rightarrow> Some \<lparr>hs_Code = 400, hs_Body = BadAddress ''from'' err\<rparr>
         | None \<Rightarrow>
             (case validateEmailAddress (mr_To req) False of
                Some err \<Rightarrow> Some \<lparr>hs_Code = 400, hs_Body = BadAddress ''to'' err\<rparr>
              | None \<Rightarrow>
                  if isRawMode req \<and> isComposedMode req
                  then Some (httpError 400 (''Cannot use both '' @ singleQuoted ''raw_message'' @ '' and composed fields (subject/text/html)''))
                  else if \<not> isRawMode req \<and> \<not> isComposedMode req
                  then Some (httpError 400 (''Must provide either '' @ singleQuoted ''raw_message'' @ '' or at least one of ''
                    @ singleQuoted ''subject'' @ ''/'' @ singleQuoted ''text'' @ ''/'' @ singleQuoted ''html''))
                  else None)))"

definition payload :: "mail_lib \<Rightarrow> MessageRequest \<Rightarrow> goerror + string" where
  "payload lib req = (if isRawMode req then Inr (mr_RawMessage req) else buildRawMessage lib req)"

definition dkimParams :: "Handler \<Rightarrow> MessageRequest \<Rightarrow> string \<times> string \<times> string \<times> bool" where
  "dkimParams h req =
     (let c = DKIM (h_config h) in
      if DKIMEnabled c then
        let useConfig = (mr_DKIMPrivateKey req = [] \<and> h_dkimPrivateKey h \<noteq> []) in
        (if useConfig then h_dkimPrivateKey h else mr_DKIMPrivateKey req,
         if useConfig \<and> mr_DKIMSelector req = [] \<and> DKIMConfSelector c \<noteq> [] then DKIMConfSelector c else mr_DKIMSelector req,
         if useConfig \<and> mr_DKIMDomain req = [] \<and> DKIMConfDomain c \<noteq> [] then DKIMConfDomain c else mr_DKIMDomain req,
         if \<not> mr_SkipDKIMValidation req \<and> DKIMSkipValidation c then DKIMSkipValidation c else mr_SkipDKIMValidation req)
      else ([], [], [], False))"

definition arcRequestParams :: "Handler \<Rightarrow> MessageRequest \<Rightarrow> string \<times> string \<times> string" where
  "arcRequestParams h req =
     (let c = ARC (h_config h) in
      if ARCEnabled c then
        (mr_ARCPrivateKey req,
         if mr_ARCSelector req = [] \<and> ARCConfSelector c \<noteq> [] then ARCConfSelector c else mr_ARCSelector req,
         if mr_ARCDomain req = [] \<and> ARCConfDomain c \<noteq> [] then ARCConfDomain c else mr_ARCDomain req)
      else ([], [], []))"

definition signingFor :: "Handler \<Rightarrow> MessageRequest \<Rightarrow> signing" where
  "signingFor h req =
     (case dkimParams h req of (dk, ds, dd, skip) \<Rightarrow>
      case arcRequestParams h req of (ak, as, ad) \<Rightarrow>
        \<lparr>dkimKey = dk, dkimSelector = ds, dkimDomain = dd, skipDKIMValidation = skip, arcKey = ak, arcSelector = as,
         arcDomain = ad\<rparr>)"

definition mapDeliveryStatusToHTTP :: "string \<Rightarrow> int" where
  "mapDeliveryStatusToHTTP status =
     (if status = ''delivered'' then 200
      else if status = ''temp_fail'' then 429
      else if status = ''rate_limit'' then 429
      else if status = ''hard_bounce'' then 554
      else if status = ''timeout'' then 504
      else if status = ''unknown'' then 504
      else 500)"

text \<open>\<^const>\<open>None\<close> stands for a panic of the engine.\<close>

definition handleDeliverWithTransport ::
  "http_env \<Rightarrow> string \<Rightarrow> http_request \<Rightarrow> Handler \<Rightarrow> Deliverer \<Rightarrow> http_response option \<times> Deliverer" where
  "handleDeliverWithTransport env transport r h d =
     (if hr_Method r \<noteq> ''POST'' then (Some (httpError 405 ''Method not allowed''), d)
      else if \<not> authorized h r then (Some (httpError 401 ''Unauthorized''), d)
      else
        (case readRequest env h r of
           None \<Rightarrow> (Some (httpError 400 ''Invalid JSON or request body too large''), d)
         | Some req \<Rightarrow>
             (case rejection req of
                Some resp \<Rightarrow> (Some resp, d)
              | None \<Rightarrow>
                  (case payload (he_mail env) req of
                     Inl _ \<Rightarrow> (Some (httpError 500 ''Failed to build message''), d)
                   | Inr rawMessage \<Rightarrow>
                       (case DeliverMessage (he_world env) (traceIDFor env r) (mr_From req) (mr_To req) rawMessage transport
                               (signingFor h req) (map_option ia_DKIM (mr_InboundAuth req)) d of
                          (None, d') \<Rightarrow> (None, d')
                        | (Some result, d') \<Rightarrow>
                            (Some \<lparr>hs_Code = mapDeliveryStatusToHTTP (Status result), hs_Body = JSONResult result\<rparr>, d'))))))"

definition HandleDeliver :: "http_env \<Rightarrow> http_request \<Rightarrow> Handler \<Rightarrow> Deliverer \<Rightarrow> http_response option \<times> Deliverer" where
  "HandleDeliver env r h d = handleDeliverWithTransport env [] r h d"

definition HandleDeliverSMTP :: "http_env \<Rightarrow> http_request \<Rightarrow> Handler \<Rightarrow> Deliverer \<Rightarrow> http_response option \<times> Deliverer" where
  "HandleDeliverSMTP env r h d = handleDeliverWithTransport env ProtocolSMTP r h d"

definition HandleDeliverLMTP :: "http_env \<Rightarrow> http_request \<Rightarrow> Handler \<Rightarrow> Deliverer \<Rightarrow> http_response option \<times> Deliverer" where
  "HandleDeliverLMTP env r h d =
     (if DefaultLMTPDestination (Outbound (h_config h)) = []
      then (Some \<lparr>hs_Code = 503, hs_Body = JSONError ''LMTP destination not configured''\<rparr>, d)
      else handleDeliverWithTransport env ProtocolLMTP r h d)"

section \<open>Addresses that are accepted\<close>

lemma Contains_char: "Contains s [c] \<longleftrightarrow> c \<in> set s"
  by (auto simp: Contains_def sublist_def dest: split_list)

lemma Split_head: "c \<notin> set p \<Longrightarrow> Split (p @ c # r) [c] = p # Split r [c]"
  using Index_sep [of "[c]" p r] by (subst Split.simps) simp

lemma Split_last: "c \<notin> set p \<Longrightarrow> Split p [c] = [p]"
  by (subst Split.simps) (simp add: Index_None_iff [THEN iffD2] Contains_char)

lemma Split_Join: "ls \<noteq> [] \<Longrightarrow> \<forall>l\<in>set ls. c \<notin> set l \<Longrightarrow> Split (Join ls [c]) [c] = ls"
proof (induction ls rule: induct_list012)
  case (3 x y zs)
  then show ?case by (simp add: Split_head)
qed (simp_all add: Split_last)

lemma Split_two: "c \<in> set s \<longleftrightarrow> length (Split s [c]) \<ge> 2"
proof (cases "c \<in> set s")
  case True
  then obtain p r where "s = p @ c # r" "c \<notin> set p" using split_list_first by fast
  moreover have "Split r [c] \<noteq> []" by (simp add: Split_Nil_free)
  ultimately show ?thesis by (cases "Split r [c]") (simp_all add: Split_head)
qed (simp add: Split_last)

lemma set_Join: "set (Join ls sep) \<subseteq> \<Union> (set ` set ls) \<union> set sep"
  by (induction ls sep rule: Join.induct) auto

lemma checkLabels_None: "checkLabels ls = None \<longleftrightarrow> (\<forall>l\<in>set ls. l \<noteq> [] \<and> length l \<le> 63 \<and> list_all domainChar l)"
  by (induction ls) auto

lemma domainChar_dot: "\<not> domainChar CHR ''.''" and domainChar_at: "\<not> domainChar CHR ''@''"
  by (simp_all add: domainChar_def)

text \<open>
  The grammar: a domain is a sequence of at least two labels of letters, digits, hyphens and bytes beyond
  ASCII, an address a local part and a domain.
\<close>

definition wellformed_label :: "string \<Rightarrow> bool" where
  "wellformed_label l \<longleftrightarrow> l \<noteq> [] \<and> length l \<le> 63 \<and> list_all domainChar l"

definition wellformed_domain :: "string \<Rightarrow> bool" where
  "wellformed_domain dm \<longleftrightarrow>
     (\<exists>labels. dm = Join labels ''.'' \<and> length labels \<ge> 2 \<and> (\<forall>l\<in>set labels. wellformed_label l))
     \<and> hd dm \<noteq> CHR ''-'' \<and> last dm \<noteq> CHR ''-'' \<and> length dm \<le> 255"

definition wellformed_address :: "string \<Rightarrow> bool" where
  "wellformed_address a \<longleftrightarrow>
     (\<exists>localPart dm. a = localPart @ CHR ''@'' # dm \<and> localPart \<noteq> [] \<and> wellformed_domain dm) \<and> length a \<le> 254"

lemma labels_no_dot: "\<forall>l\<in>set labels. wellformed_label l \<Longrightarrow> \<forall>l\<in>set labels. CHR ''.'' \<notin> set l"
  using domainChar_dot by (auto simp: wellformed_label_def list_all_iff)

text \<open>Empty labels show at the ends of a domain or as two dots.\<close>

lemma Join_ends:
  assumes "length labels \<ge> 2" "\<forall>l\<in>set labels. l \<noteq> []"
  shows "Join labels ''.'' \<noteq> [] \<and> hd (Join labels ''.'') = hd (hd labels) \<and> last (Join labels ''.'') = last (last labels)"
  using assms
proof (induction labels rule: induct_list012)
  case (3 x y zs)
  then show ?case by (cases zs) auto
qed simp_all

lemma double_dot_label:
  assumes "Contains dm ''..''"
  shows "[] \<in> set (Split dm ''.'')"
proof -
  from assms obtain p r where "dm = p @ CHR ''.'' # CHR ''.'' # r" by (auto simp: Contains_def sublist_def)
  moreover have "[] \<in> set (Split (q @ CHR ''.'' # CHR ''.'' # r) ''.'')" for q
  proof (induction "length q" arbitrary: q rule: less_induct)
    case less
    show ?case
    proof (cases "CHR ''.'' \<in> set q")
      case True
      then obtain a b where "q = a @ CHR ''.'' # b" "CHR ''.'' \<notin> set a" using split_list_first by fast
      with less [of b] show ?thesis by (simp add: Split_head)
    next
      case False
      then show ?thesis using Split_head [of "CHR ''.''" "[]" r] by (simp add: Split_head)
    qed
  qed
  ultimately show ?thesis by simp
qed

lemma checkDomain_None: "checkDomain dm = None \<longleftrightarrow> wellformed_domain dm"
proof
  assume ok: "checkDomain dm = None"
  then have "CHR ''.'' \<in> set dm" "\<forall>l\<in>set (Split dm ''.''). wellformed_label l"
    and rest: "hd dm \<noteq> CHR ''-''" "last dm \<noteq> CHR ''-''" "length dm \<le> 255"
    by (auto simp: checkDomain_def Contains_char checkLabels_None wellformed_label_def split: if_splits)
  moreover have "dm = Join (Split dm ''.'') ''.''" by (simp add: Join_Split)
  ultimately show "wellformed_domain dm" unfolding wellformed_domain_def using Split_two by blast
next
  assume "wellformed_domain dm"
  then obtain labels where dm: "dm = Join labels ''.''" and two: "length labels \<ge> 2"
    and wf: "\<forall>l\<in>set labels. wellformed_label l"
    and rest: "hd dm \<noteq> CHR ''-''" "last dm \<noteq> CHR ''-''" "length dm \<le> 255" by (auto simp: wellformed_domain_def)
  have split: "Split dm ''.'' = labels" unfolding dm by (rule Split_Join) (use two labels_no_dot [OF wf] in auto)
  have ends: "dm \<noteq> []" "hd dm = hd (hd labels)" "last dm = last (last labels)"
    using Join_ends [OF two] wf by (auto simp: dm wellformed_label_def)
  have "hd labels \<in> set labels" "last labels \<in> set labels" using two by (auto intro: hd_in_set last_in_set)
  with labels_no_dot [OF wf] wf have "hd (hd labels) \<noteq> CHR ''.''" "last (last labels) \<noteq> CHR ''.''"
    unfolding wellformed_label_def by (metis hd_in_set, metis last_in_set)
  moreover have "\<not> Contains dm ''..''" using double_dot_label [of dm] wf by (auto simp: split wellformed_label_def)
  moreover have "CHR ''.'' \<in> set dm" using Split_two two split by metis
  ultimately show "checkDomain dm = None"
    using rest ends wf by (simp add: checkDomain_def Contains_char split checkLabels_None wellformed_label_def)
qed

lemma wellformed_domain_no_at: "wellformed_domain dm \<Longrightarrow> CHR ''@'' \<notin> set dm"
  using set_Join domainChar_at by (fastforce simp: wellformed_domain_def wellformed_label_def list_all_iff)

definition unbracketed :: "string \<Rightarrow> string" where
  "unbracketed a = (if length a \<ge> 2 \<and> hd a = CHR ''<'' \<and> last a = CHR ''>'' then butlast (tl a) else a)"


text \<open>
  The engine takes the text behind the last at sign of the recipient as its domain, without removing the
  brackets that the validation removes; and the validation does not look into the local part.
\<close>

lemma bracketed_recipient_domain:
  "validateEmailAddress ''<u@e.f>'' False = None \<and> snd (splitEmail ''<u@e.f>'') = ''e.f>''"
  by code_simp

lemma line_break_in_local_part:
  "validateEmailAddress (''a>'' @ [CR, LF] @ ''DATA'' @ [CR, LF] @ ''@e.f'') False = None"
  by code_simp

section \<open>Delivery requests\<close>

text \<open>What a request leads to, by its stages.\<close>

lemma handle_cases:
  assumes "handleDeliverWithTransport env transport r h d = (resp, d')"
  obtains (answered) x where "resp = Some x" "d' = d" "hs_Code x \<in> {400, 401, 405, 500}" "\<forall>q. hs_Body x \<noteq> JSONResult q"
  | (delivered) req msg q where "hr_Method r = ''POST''" "authorized h r" "readRequest env h r = Some req" "rejection req = None"
      "payload (he_mail env) req = Inr msg"
      "DeliverMessage (he_world env) (traceIDFor env r) (mr_From req) (mr_To req) msg transport (signingFor h req)
         (map_option ia_DKIM (mr_InboundAuth req)) d = (q, d')"
      "resp = map_option (\<lambda>x. \<lparr>hs_Code = mapDeliveryStatusToHTTP (Status x), hs_Body = JSONResult x\<rparr>) q"
proof -
  have reject: "hs_Code x = 400 \<and> (\<forall>q. hs_Body x \<noteq> JSONResult q)" if "rejection req = Some x" for x req
    using that by (auto simp: rejection_def split: if_splits option.splits)
  consider "hr_Method r \<noteq> ''POST''" | "hr_Method r = ''POST''" "\<not> authorized h r"
    | "hr_Method r = ''POST''" "authorized h r" "readRequest env h r = None"
    | req x where "hr_Method r = ''POST''" "authorized h r" "readRequest env h r = Some req" "rejection req = Some x"
    | req err where "hr_Method r = ''POST''" "authorized h r" "readRequest env h r = Some req" "rejection req = None"
        "payload (he_mail env) req = Inl err"
    | req msg where "hr_Method r = ''POST''" "authorized h r" "readRequest env h r = Some req" "rejection req = None"
        "payload (he_mail env) req = Inr msg"
    by (metis not_Some_eq sum.exhaust)
  then show thesis
  proof cases
    case (4 req x)
    then show thesis using assms reject [OF 4(4)] by (intro answered [of x]) (simp_all add: handleDeliverWithTransport_def)
  next
    case (6 req msg)
    obtain q d1 where "DeliverMessage (he_world env) (traceIDFor env r) (mr_From req) (mr_To req) msg transport
        (signingFor h req) (map_option ia_DKIM (mr_InboundAuth req)) d = (q, d1)" by force
    with 6 assms show thesis
      by (intro delivered [of req msg q]) (cases q; auto simp: handleDeliverWithTransport_def)+
  qed (use assms in \<open>auto simp: handleDeliverWithTransport_def intro!: answered\<close>)
qed

lemma rejection_None:
  "rejection req = None \<Longrightarrow> validateEmailAddress (mr_From req) True = None \<and> validateEmailAddress (mr_To req) False = None
     \<and> isRawMode req \<noteq> isComposedMode req"
  by (auto simp: rejection_def split: if_splits option.splits)

text \<open>
  C8. Only a valid request of an authorized client reaches the delivery engine: if a request changes the state
  of the engine, it is a POST request with the configured token, if there is one, whose sender and
  recipient are valid addresses and which has either a raw message or composed content, not both.
\<close>

theorem engine_behind_validation:
  assumes "handleDeliverWithTransport env transport r h d = (resp, d')" and "d' \<noteq> d"
  shows "hr_Method r = ''POST'' \<and> authorized h r
    \<and> (\<exists>req. readRequest env h r = Some req \<and> validateEmailAddress (mr_From req) True = None
         \<and> validateEmailAddress (mr_To req) False = None \<and> isRawMode req \<noteq> isComposedMode req)"
  using assms(1)
proof (cases rule: handle_cases)
  case answered
  with assms(2) show ?thesis by simp
next
  case delivered
  with rejection_None show ?thesis by blast
qed

lemma http_status_range: "mapDeliveryStatusToHTTP s = 200 \<longleftrightarrow> s = ''delivered''"
  by (auto simp: mapDeliveryStatusToHTTP_def)


subsection \<open>A sample request\<close>

definition sample_handler :: Handler where
  "sample_handler = \<lparr>h_config = zero_config\<lparr>Inbound := (Inbound zero_config)\<lparr>AuthToken := ''s3'', MaxBodySizeBytes := 9\<rparr>\<rparr>, h_dkimPrivateKey = []\<rparr>"

definition sample_post :: http_request where
  "sample_post = \<lparr>hr_Method = ''POST'',
     hr_Header = [(''Authorization'', ''Bearer s3''), (''Content-Type'', ''message/rfc822''), (''X-Trace-Id'', ''t''),
                  (''X-Envelope-From'', ''a@b.c''), (''X-Envelope-To'', ''d@e.f'')],
     hr_Body = ''hi'', hr_BodyBroken = False\<rparr>"

definition sample_mail :: mail_lib where
  "sample_mail = \<lparr>generateMessageID = (\<lambda>_. None), createWriter = (\<lambda>_. None), createInline = (\<lambda>_. None),
     writePart = (\<lambda>_ _ _. None), rawFields = (\<lambda>ops. map (\<lambda>_. Inr (''X: y'' @ [CR, LF])) ops),
     renderMultipart = (\<lambda>_ _. [])\<rparr>"

definition sample_http :: http_env where
  "sample_http = \<lparr>he_random = None, he_unixNano = 0, he_decodeJSON = (\<lambda>_ _. None), he_mail = sample_mail,
     he_world = sample_world\<rparr>"

definition sample_message :: MessageRequest where
  "sample_message = \<lparr>mr_From = ''a@b.c'', mr_To = ''d@e.f'', mr_Subject = [], mr_Text = [], mr_HTML = [], mr_Attachments = [],
     mr_Headers = [], mr_MessageID = [], mr_RawMessage = ''hi'', mr_DKIMPrivateKey = [], mr_DKIMSelector = [],
     mr_DKIMDomain = [], mr_SkipDKIMValidation = False, mr_ARCPrivateKey = [], mr_ARCSelector = [], mr_ARCDomain = [],
     mr_InboundAuth = None\<rparr>"

lemma sample_request: "readRequest sample_http sample_handler sample_post = Some sample_message"
  by (simp add: readRequest_def parseHeaderMode_def mimeGet_def EqualFold_def ToLower_def lower_char_def sample_post_def
      sample_handler_def sample_message_def limitedBody_def maxBody_def decodeBase64Header_def Let_def zero_config_def
      HasPrefix_def)

lemma sample_accepted: "rejection sample_message = None" "authorized sample_handler sample_post"
    "traceIDFor sample_http sample_post = ''t''"
  by code_simp+

lemma sample_response:
  "handleDeliverWithTransport sample_http [] sample_post sample_handler d =
     (case sample_delivery sample_world d of (q, d') \<Rightarrow>
        (map_option (\<lambda>x. \<lparr>hs_Code = mapDeliveryStatusToHTTP (Status x), hs_Body = JSONResult x\<rparr>) q, d'))"
proof -
  have "signingFor sample_handler sample_message = no_signing"
    by (simp add: signingFor_def dkimParams_def arcRequestParams_def sample_handler_def zero_config_def no_signing_def)
  then show ?thesis
    using sample_request sample_accepted
    by (simp add: handleDeliverWithTransport_def sample_delivery_def sample_message_def payload_def isRawMode_def sample_http_def
        sample_post_def split: prod.split option.split)
qed

lemma sample_http_ok:
  obtains x q d' where "handleDeliverWithTransport sample_http [] sample_post sample_handler sample_engine = (Some x, d')"
    "hs_Code x = 200" "sample_delivery sample_world sample_engine = (Some q, d')"
  using sample_delivered sample_response [of sample_engine]
  by (cases "sample_delivery sample_world sample_engine") (auto simp: mapDeliveryStatusToHTTP_def)

theorem engine_behind_validation_witness:
  "\<exists>x d'. handleDeliverWithTransport sample_http [] sample_post sample_handler sample_engine = (Some x, d')
     \<and> d' \<noteq> sample_engine \<and> authorized sample_handler sample_post"
proof -
  obtain x q d' where run: "handleDeliverWithTransport sample_http [] sample_post sample_handler sample_engine = (Some x, d')"
    and "sample_delivery sample_world sample_engine = (Some q, d')" by (rule sample_http_ok)
  with sample_sent have "d' \<noteq> sample_engine" using sample_engine_new by auto
  with engine_behind_validation [OF run] run show ?thesis by blast
qed


section \<open>Composed messages\<close>

definition noLineBreak :: "header_op \<Rightarrow> bool" where
  "noLineBreak op = (case op of SetField key val \<Rightarrow> \<not> ContainsAny (key @ val) [CR, LF] | _ \<Rightarrow> True)"

lemma applyHeaders_safe: "applyHeaders kvs hdr = Inr hdr' \<Longrightarrow> list_all noLineBreak hdr \<Longrightarrow> list_all noLineBreak hdr'"
  by (induction kvs hdr rule: applyHeaders.induct) (auto simp: noLineBreak_def ContainsAny_def split: if_splits)

lemma messageIDHeader_safe: "messageIDHeader lib req = Inr hdr \<Longrightarrow> list_all noLineBreak hdr"
  by (auto simp: messageIDHeader_def baseHeader_def noLineBreak_def split: if_splits option.splits)


definition sample_composed :: MessageRequest where
  "sample_composed = sample_message\<lparr>mr_RawMessage := [], mr_Text := ''a = b'' @ [LF] @ ''c ''\<rparr>"

lemma sample_built: "\<exists>msg. buildRawMessage sample_mail sample_composed = Inr msg"
  by (simp add: buildRawMessage_def sample_composed_def sample_message_def messageIDHeader_def sample_mail_def
      singlePartMessage_def baseHeader_def Let_def)


end
