(* ===== verification/Delivery_Result.thy ===== *)
theory Delivery_Result
  imports Delivery
begin

text \<open>
  The results of a delivery, \<^verbatim>\<open>DeliveryResult\<close> of \<^verbatim>\<open>internal/delivery/delivery.go\<close>: which values its fields take together.
  The lemmas follow the result from the replies of the servers through the retry loops to the caller.
\<close>

section \<open>Well-formed results\<close>

text \<open>
  The documented statuses, and the empty one of a delivery without any attempt; the trace id is the one of the request;
  the status agrees with the reply code, which is 0 without a reply.
\<close>

definition statuses :: "string list" where
  "statuses = ['''', ''delivered'', ''temp_fail'', ''hard_bounce'', ''timeout'', ''unknown'', ''error'', ''rate_limit'']"

lemma listed [simp]:
  "[] \<in> set statuses" "''delivered'' \<in> set statuses" "''temp_fail'' \<in> set statuses" "''hard_bounce'' \<in> set statuses"
  "''timeout'' \<in> set statuses" "''unknown'' \<in> set statuses" "''error'' \<in> set statuses" "''rate_limit'' \<in> set statuses"
  by (simp_all add: statuses_def)

definition well_formed :: "string \<Rightarrow> DeliveryResult \<Rightarrow> bool" where
  "well_formed trace r \<longleftrightarrow>
     Status r \<in> set statuses \<and> (Status r = [] \<or> TraceID r = trace)
     \<and> (Status r = ''delivered'' \<longrightarrow> 200 \<le> SMTPCode r \<and> SMTPCode r < 300)
     \<and> (Status r = ''hard_bounce'' \<longrightarrow> SMTPCode r \<le> 0 \<or> 500 \<le> SMTPCode r)
     \<and> (400 \<le> SMTPCode r \<and> SMTPCode r < 500 \<longrightarrow> Status r = ''temp_fail'')
     \<and> (500 \<le> SMTPCode r \<and> SMTPCode r < 600 \<longrightarrow> Status r = ''hard_bounce'')"

lemma well_formed_mkResult [simp]:
  "well_formed trace (mkResult trace st mx ip e) \<longleftrightarrow> st \<in> set statuses \<and> st \<noteq> ''delivered''"
  "well_formed trace zeroResult"
  "well_formed trace ((mkResult trace ''delivered'' mx ip e)\<lparr>SMTPCode := 250, SMTPMessage := msg\<rparr>)"
  by (auto simp: well_formed_def mkResult_def zeroResult_def statuses_def)

lemma well_formed_duration [simp]: "well_formed trace (r\<lparr>AttemptDurationMs := ms\<rparr>) = well_formed trace r"
  by (simp add: well_formed_def)

section \<open>Replies\<close>

lemma categoryStatus_listed: "categoryStatus c \<in> set statuses" "categoryStatus c \<noteq> ''delivered''"
  by (cases c; simp)+

lemma mapSMTPError_well_formed: "well_formed trace (mapSMTPError trace err mx ip)"
proof -
  obtain code reason where reply: "(case errors_as_smtp err of Some (c, m) \<Rightarrow> (c, normalizeReply m) | None \<Rightarrow> (0, [])) = (code, reason)"
    by force
  have "ClassifyError code reason ip (Some err) = None \<Longrightarrow> 200 \<le> code \<and> code < 300"
    by (cases "code > 0") (auto simp: ClassifyError_def classifySMTPCode_None_iff split: if_splits)
  with categoryStatus_listed show ?thesis
    by (auto simp: mapSMTPError_def reply mkResult_def well_formed_def Let_def split: option.splits)
qed

lemma classifyLMTPResult_well_formed: "well_formed trace (classifyLMTPResult trace mx ip code msg)"
  by (simp add: classifyLMTPResult_def well_formed_def mkResult_def Let_def)

lemma lmtpStatus_listed: "lmtpStatus ctxEnded err \<in> set statuses" "lmtpStatus ctxEnded err \<noteq> ''delivered''"
  using lmtpStatus_values [of ctxEnded err] by (auto)

lemma lmtpExchange_well_formed:
  "lmtpExchange trace mx ip ctxEnded label cmd expected conn = (Inl r, conn') \<Longrightarrow> well_formed trace r"
  by (auto simp: lmtpExchange_def lmtpStatus_listed classifyLMTPResult_well_formed
      split: prod.splits option.splits sum.splits if_splits)

lemma lmtpBody_well_formed: "lmtpBody trace mx ip ctxEnded msg conn = (r, conn') \<Longrightarrow> well_formed trace r"
  by (auto simp: lmtpBody_def lmtpStatus_listed classifyLMTPResult_well_formed
      split: prod.splits option.splits sum.splits)

lemma performLMTP_well_formed:
  "performLMTPTransaction trace ctxEnded conn from to msg mx ip = (r, conn') \<Longrightarrow> well_formed trace r"
  by (auto simp: performLMTPTransaction_def Let_def split: prod.splits sum.splits
      dest: lmtpExchange_well_formed lmtpBody_well_formed)

section \<open>Attempts\<close>

lemma performDelivery_well_formed:
  assumes "performDeliveryTransaction sc cfg trace c from to msg mx ip reused dk tp = (r, tp')"
  shows "well_formed trace r"
  using assms mapSMTPError_well_formed
  by (auto simp: performDeliveryTransaction_def concludeTransaction_def split: if_splits prod.splits sum.splits)

lemma shakeHands_well_formed:
  "shakeHands ds cfg trace mx protocol ip target tp = (dr, r, Some err, tp') \<Longrightarrow> well_formed trace r"
  by (auto simp: shakeHands_def Let_def split: if_splits prod.splits option.splits sum.splits)

lemma dialAndHello_well_formed:
  assumes "dialAndHello ds cfg trace mx mxIPs ip pref protocol tp = (dr, r, Some err, tp')"
  shows "well_formed trace r"
proof (cases "selectTargetIP trace mx mxIPs ip pref")
  case (Inl e)
  with assms show ?thesis by (auto simp: dialAndHello_def selectTargetIP_def Let_def split: if_splits prod.splits)
next
  case (Inr target)
  with assms show ?thesis
    by (auto simp: dialAndHello_def Let_def split: if_splits sum.splits option.splits dest: shakeHands_well_formed)
qed

lemma freshAttempt_well_formed:
  assumes "freshAttempt env cfg trace from to msg mx mxIPs ip pref protocol dk tp = (Some r, tp')"
  shows "well_formed trace r"
  using assms
  by (auto simp: freshAttempt_def lmtpAttempt_def split: prod.splits option.splits
      dest: dialAndHello_well_formed performDelivery_well_formed performLMTP_well_formed)

lemma attemptDelivery_well_formed:
  assumes "attemptDelivery env cfg trace from to msg mx mxIPs ip pref protocol dk tp = (Some r, tp')"
  shows "well_formed trace r"
  using assms
  by (auto simp: attemptDelivery_def Let_def split: if_splits prod.splits option.splits
      dest: performDelivery_well_formed freshAttempt_well_formed)

lemma oneAttempt_well_formed: "oneAttempt env rq mx mxIPs ip v6 d = (Some r, d') \<Longrightarrow> well_formed (rq_trace rq) r"
  by (auto simp: oneAttempt_def split: prod.splits option.splits dest: attemptDelivery_well_formed)

section \<open>The loops\<close>

lemma tryIPs_well_formed:
  "tryIPs env rq mx mxIPs v6 ips lastResult d = (Some r, d') \<Longrightarrow> well_formed (rq_trace rq) lastResult \<Longrightarrow> well_formed (rq_trace rq) r"
proof (induction env rq mx mxIPs v6 ips lastResult d rule: tryIPs.induct)
  case (2 env rq mx mxIPs v6 ip ips lastResult d)
  then show ?case
    by (auto split: if_splits prod.splits option.splits dest: oneAttempt_well_formed)
qed simp

lemma tryVersion_well_formed:
  "tryDeliveryWithIPVersion env rq mx mxIPs v6 d = (Some r, d') \<Longrightarrow> well_formed (rq_trace rq) r"
  by (auto simp: tryDeliveryWithIPVersion_def split: prod.splits dest: tryIPs_well_formed)

lemma tryVersions_well_formed:
  "tryVersions env rq mx mxIPs vs lastResult d = (Some q, d') \<Longrightarrow> well_formed (rq_trace rq) lastResult
     \<Longrightarrow> well_formed (rq_trace rq) (case_sum id id q)"
proof (induction env rq mx mxIPs vs lastResult d rule: tryVersions.induct)
  case (2 env rq mx mxIPs v vs lastResult d)
  then show ?case by (auto split: if_splits prod.splits option.splits dest: tryVersion_well_formed)
qed auto

lemma tryHost_well_formed:
  "tryHost env rq plan mx mxIPs has4 has6 lastResult d = (Some q, d') \<Longrightarrow> well_formed (rq_trace rq) lastResult
     \<Longrightarrow> well_formed (rq_trace rq) (case_sum id id q)"
  by (auto simp: tryHost_def split: if_splits prod.splits option.splits dest: tryVersions_well_formed oneAttempt_well_formed)

lemma tryMX_well_formed:
  "tryMX env rq plan i mxs lastResult d = (Some r, d') \<Longrightarrow> well_formed (rq_trace rq) lastResult \<Longrightarrow> well_formed (rq_trace rq) r"
proof (induction env rq plan i mxs lastResult d rule: tryMX.induct)
  case (2 env rq plan i mx mxs lastResult d)
  show ?case
  proof (cases "ctxAtMX env i")
    case True
    with 2 show ?thesis by auto
  next
    case ctx: False
    show ?thesis
    proof (cases "resolveMXHost (hostQuery env i) (dnsResolver (d_mxLookup d)) (MXHost mx)")
      case (Inl e)
      with 2 ctx show ?thesis by auto
    next
      case (Inr addrs)
      obtain mxIPs has4 has6 where addrs: "addrs = (mxIPs, has4, has6)" by (metis prod_cases3)
      obtain q d1 where host: "tryHost env rq plan (MXHost mx) mxIPs has4 has6 lastResult d = (q, d1)" by force
      then obtain x where q: "q = Some x" using 2(3) ctx Inr addrs by (cases q) auto
      have x: "well_formed (rq_trace rq) (case_sum id id x)" using tryHost_well_formed host q 2(4) by blast
      show ?thesis
      proof (cases x)
        case (Inl r1)
        with x 2(3) ctx Inr addrs host q \<open>resolveMXHost _ _ _ = _\<close> show ?thesis by auto
      next
        case more: (Inr r1)
        with 2(3) ctx Inr addrs host q have "tryMX env rq plan (Suc i) mxs r1 d1 = (Some r, d')" by auto
        with 2(2) [OF ctx Inr addrs [symmetric] refl host [symmetric] q more] x more show ?thesis by auto
      qed
    qed
  qed
qed simp

section \<open>Property\<close>

text \<open>
  C14. Every result of the engine is well formed: its status is one of the documented ones, or empty if no attempt was
  made, it carries the trace id of the request, a delivery is reported only with a success code of the server,
  and a reply of the ranges 400 and 500 is a temporary failure and a bounce.
\<close>

theorem result_well_formed:
  assumes "DeliverMessage env traceID from to message transport sg inboundDKIM d = (Some r, d')"
  shows "well_formed traceID r"
proof -
  have mx: "well_formed t r" if "mxTargets env cfg t protocol domain m = (Inl r, m')" for cfg t protocol domain m r m'
    using that by (auto simp: mxTargets_def Let_def split: if_splits sum.splits prod.splits list.splits)
  have "well_formed (rq_trace rq) r" if "deliverSigned env rq domain d = (Some r, d')" for rq domain d r d'
    using that by (auto simp: deliverSigned_def Let_def split: sum.splits prod.splits option.splits dest: mx tryMX_well_formed)
  from this [of "\<lparr>rq_trace = traceID, rq_from = _, rq_to = _, rq_msg = _, rq_protocol = _, rq_inboundDKIM = _, rq_cfg = _\<rparr>"] assms
  show ?thesis by (auto simp: DeliverMessage_def Let_def split: if_splits prod.splits bool.splits option.splits)
qed

theorem result_well_formed_witness:
  "\<exists>q d'. sample_delivery sample_world sample_engine = (Some q, d') \<and> Status q = ''delivered'' \<and> 200 \<le> SMTPCode q \<and> SMTPCode q < 300"
proof -
  obtain q d' where run: "sample_delivery sample_world sample_engine = (Some q, d')" and st: "Status q = ''delivered''"
    using sample_delivered by (cases "sample_delivery sample_world sample_engine") auto
  from result_well_formed [OF run [unfolded sample_delivery_def]] st run show ?thesis by (auto simp: well_formed_def)
qed

end
