(* ===== verification/HTTP_Server.thy ===== *)
theory HTTP_Server
  imports Handler Rate_Limiter IP_Expansion Logging "HOL-Library.List_Lexorder" "HOL-Library.Char_ord"
begin

text \<open>
  The server around the delivery API: start-up and reload of \<^verbatim>\<open>cmd/strela-server/main.go\<close>, the middleware stack
  of the delivery routes (\<^verbatim>\<open>panic_recovery.go\<close>, \<^verbatim>\<open>security_headers.go\<close>, \<^verbatim>\<open>metrics_middleware.go\<close>, rate
  limit, concurrency limit), and the status endpoints \<^verbatim>\<open>health.go\<close> and \<^verbatim>\<open>reputation.go\<close>. Sockets,
  signals and the Prometheus library are outside.
\<close>

section \<open>Middleware\<close>

text \<open>The response writer of the metrics middleware: only the first status is recorded and passed on.\<close>

record responseWriter =
  rw_statusCode :: int
  rw_written :: bool
  rw_sent :: "int list"

definition newResponseWriter :: responseWriter where
  "newResponseWriter = \<lparr>rw_statusCode = 200, rw_written = False, rw_sent = []\<rparr>"

definition WriteHeader :: "int \<Rightarrow> responseWriter \<Rightarrow> responseWriter" where
  "WriteHeader code rw =
     (if \<not> rw_written rw then rw\<lparr>rw_statusCode := code, rw_written := True, rw_sent := rw_sent rw @ [code]\<rparr> else rw)"

definition rw_Write :: "responseWriter \<Rightarrow> responseWriter" where
  "rw_Write rw = (if \<not> rw_written rw then WriteHeader 200 rw else rw)"

definition securityHeaders :: "(string \<times> string) list" where
  "securityHeaders =
     [(''X-Content-Type-Options'', ''nosniff''), (''X-Frame-Options'', ''DENY''), (''X-XSS-Protection'', ''1; mode=block''),
      (''Cache-Control'', ''no-store, no-cache, must-revalidate, private''), (''Pragma'', ''no-cache''),
      (''Referrer-Policy'', ''no-referrer''),
      (''Content-Security-Policy'', ''default-src '' @ singleQuoted ''none'' @ ''; frame-ancestors '' @ singleQuoted ''none'')]"

record http_reply =
  rp_Headers :: "(string \<times> string) list"
  rp_Response :: http_response

definition internalError :: http_response where
  "internalError = httpError 500 (''{'' @ [CHR 0x22] @ ''error'' @ [CHR 0x22] @ '':'' @ [CHR 0x22] @ ''Internal Server Error''
     @ [CHR 0x22] @ ''}'')"

definition PanicRecoveryMiddleware :: "http_response option \<Rightarrow> http_response" where
  "PanicRecoveryMiddleware answer = (case answer of Some resp \<Rightarrow> resp | None \<Rightarrow> internalError)"

definition SecurityHeadersMiddleware :: "http_response \<Rightarrow> http_reply" where
  "SecurityHeadersMiddleware resp = \<lparr>rp_Headers = securityHeaders, rp_Response = resp\<rparr>"

text \<open>\<open>BasicAuth\<close> of package \<^verbatim>\<open>net/http\<close>: the user and the password of the header, if it has the form.\<close>

definition BasicAuth :: "http_request \<Rightarrow> (string \<times> string) option" where
  "BasicAuth r =
     (let auth = mimeGet (hr_Header r) ''Authorization'' in
      if length auth < 6 \<or> \<not> EqualFold (take 6 auth) ''Basic '' then None
      else case base64_DecodeString (drop 6 auth) of
             Inl _ \<Rightarrow> None
           | Inr cs \<Rightarrow> (case IndexByte cs CHR '':'' of None \<Rightarrow> None | Some i \<Rightarrow> Some (take i cs, drop (i + 1) cs)))"

definition basicAuthMiddleware :: "string \<Rightarrow> string \<Rightarrow> http_request \<Rightarrow> middleware_answer" where
  "basicAuthMiddleware username password r =
     (case BasicAuth r of
        None \<Rightarrow> Respond 401 []
      | Some (user, pass) \<Rightarrow> if user \<noteq> username \<or> pass \<noteq> password then Respond 401 [] else Pass)"

section \<open>The delivery routes\<close>

datatype route = Deliver | DeliverSMTP | DeliverLMTP

definition routeOf :: "string \<Rightarrow> route option" where
  "routeOf path =
     (if path = ''/deliver'' then Some Deliver
      else if path = ''/deliver/smtp'' then Some DeliverSMTP
      else if path = ''/deliver/lmtp'' then Some DeliverLMTP
      else None)"

record http_server =
  sv_handler :: Handler
  sv_limiter :: "RateLimiter option"
  sv_slots :: "route \<Rightarrow> semaphore"
  sv_metrics :: "(string \<times> string \<times> string) list option"
  sv_reload :: "Deliverer ReloadableConfig"
  sv_engine :: Deliverer
  sv_log :: LogWriter
  sv_files :: file_table

definition maxConcurrent :: "http_server \<Rightarrow> int" where
  "maxConcurrent sv = MaxConcurrentRequests (Inbound (h_config (sv_handler sv)))"

definition handleRoute :: "http_env \<Rightarrow> route \<Rightarrow> http_request \<Rightarrow> http_server \<Rightarrow> http_response option \<times> http_server" where
  "handleRoute env rt r sv =
     (case (case rt of
              Deliver \<Rightarrow> HandleDeliver env r (sv_handler sv) (sv_engine sv)
            | DeliverSMTP \<Rightarrow> HandleDeliverSMTP env r (sv_handler sv) (sv_engine sv)
            | DeliverLMTP \<Rightarrow> HandleDeliverLMTP env r (sv_handler sv) (sv_engine sv)) of
        (answer, d) \<Rightarrow> (answer, sv\<lparr>sv_engine := d\<rparr>))"

text \<open>Each route has its own semaphore. The slot of a request is free again when it has been answered.\<close>

definition limitConcurrency :: "http_env \<Rightarrow> route \<Rightarrow> http_request \<Rightarrow> http_server \<Rightarrow> http_response option \<times> http_server" where
  "limitConcurrency env rt r sv =
     (if maxConcurrent sv > 0 then
        (case ConcurrencyLimitMiddleware (maxConcurrent sv) (sv_slots sv rt) of
           Respond code msg \<Rightarrow> (Some (httpError code msg), sv)
         | Pass \<Rightarrow> handleRoute env rt r sv)
      else handleRoute env rt r sv)"

definition peerOf :: "string \<Rightarrow> http_request \<Rightarrow> http_peer" where
  "peerOf remote r = \<lparr>HeaderGet = mimeGet (hr_Header r), RemoteAddr = remote\<rparr>"

definition limitRate ::
  "http_env \<Rightarrow> string \<Rightarrow> gotime \<Rightarrow> route \<Rightarrow> http_request \<Rightarrow> http_server \<Rightarrow> http_response option \<times> http_server" where
  "limitRate env remote now rt r sv =
     (case sv_limiter sv of
        None \<Rightarrow> limitConcurrency env rt r sv
      | Some rl \<Rightarrow>
          (case RateLimit_Middleware (peerOf remote r) now rl of
             (Respond code msg, rl') \<Rightarrow> (Some (httpError code msg), sv\<lparr>sv_limiter := Some rl'\<rparr>)
           | (Pass, rl') \<Rightarrow> limitConcurrency env rt r (sv\<lparr>sv_limiter := Some rl'\<rparr>)))"

text \<open>A request whose handler panics is not recorded.\<close>

definition MetricsMiddleware ::
  "http_request \<Rightarrow> string \<Rightarrow> http_response option \<times> http_server \<Rightarrow> http_response option \<times> http_server" where
  "MetricsMiddleware r path res =
     (case res of
        (Some resp, sv) \<Rightarrow>
          (Some resp,
           sv\<lparr>sv_metrics := map_option (\<lambda>ms. ms @ [(hr_Method r, if path = [] then ''/'' else path, Itoa (hs_Code resp))])
                              (sv_metrics sv)\<rparr>)
      | (None, sv) \<Rightarrow> (None, sv))"

definition serve ::
  "http_env \<Rightarrow> string \<Rightarrow> gotime \<Rightarrow> string \<Rightarrow> http_request \<Rightarrow> http_server \<Rightarrow> http_reply \<times> http_server" where
  "serve env remote now path r sv =
     (case routeOf path of
        None \<Rightarrow> (\<lparr>rp_Headers = [], rp_Response = httpError 404 ''404 page not found''\<rparr>, sv)
      | Some rt \<Rightarrow>
          (case MetricsMiddleware r path (limitRate env remote now rt r sv) of
             (answer, sv') \<Rightarrow> (SecurityHeadersMiddleware (PanicRecoveryMiddleware answer), sv')))"

section \<open>Start and reload\<close>

definition expandSourceIPsFromConfig :: "OutboundConfig \<Rightarrow> goerror + ExpandedSourceIPs" where
  "expandSourceIPsFromConfig cfg =
     (case ExpandSourceIPs (SourceIPsV4 cfg) of
        Inl err \<Rightarrow> Inl (wrapErr ''failed to expand source_ips_v4: '' err)
      | Inr expandedV4 \<Rightarrow>
          (case ExpandSourceIPs (SourceIPsV6 cfg) of
             Inl err \<Rightarrow> Inl (wrapErr ''failed to expand source_ips_v6: '' err)
           | Inr expandedV6 \<Rightarrow> Inr \<lparr>ExpIPv4 = ExpIPv4 expandedV4, ExpIPv6 = ExpIPv6 expandedV6\<rparr>))"

definition defaultConfigPath :: "(string \<Rightarrow> bool) \<Rightarrow> string" where
  "defaultConfigPath exists =
     (case find exists [''/etc/strela/config.toml'', ''/usr/local/etc/strela/config.toml''] of
        Some p \<Rightarrow> p
      | None \<Rightarrow> ''config.toml'')"

text \<open>The reload callback of the server: the resolver and the engine take the new settings.\<close>

definition reloadCallback :: "Deliverer callback" where
  "reloadCallback newCfg d =
     (Deliverer_ReloadConfig (Outbound newCfg) (d\<lparr>d_mxLookup := MX_ReloadConfig (DNS newCfg) (d_mxLookup d)\<rparr>), None)"

record startup =
  su_source :: config_source
  su_hostname :: string
  su_keyFS :: key_fs
  su_openErr :: "string \<Rightarrow> goerror option"

definition withKeyStore :: "key_fs \<Rightarrow> DKIMConfig \<Rightarrow> Deliverer \<Rightarrow> goerror + Deliverer" where
  "withKeyStore fs c d =
     (if DKIMEnabled c \<and> KeyDirectory c \<noteq> [] then
        (case NewKeyStore fs (KeyDirectory c) (SelectorMapPath c) (DKIMConfSelector c) (KeyCacheSize c) of
           Inl err \<Rightarrow> Inl err
         | Inr ks \<Rightarrow> Inr (SetDKIMKeyStore ks d))
      else Inr d)"

definition newEngine :: "startup \<Rightarrow> Config \<Rightarrow> ExpandedSourceIPs \<Rightarrow> goerror + Deliverer" where
  "newEngine su cfg ips =
     (let d = NewDeliverer (ReadFile (su_source su)) (Outbound cfg) (ExpIPv4 ips) (ExpIPv6 ips) (NewMXLookup (DNS cfg))
                (Reputation cfg) (Some (ARC cfg)) (Some (SRS cfg));
          d1 = (if MetricsEnabled (Metrics cfg) then Deliverer_SetMetrics True d else d)
      in withKeyStore (su_keyFS su) (DKIM cfg) d1)"

definition newServer ::
  "startup \<Rightarrow> Deliverer ReloadableConfig \<Rightarrow> Deliverer \<Rightarrow> LogWriter \<Rightarrow> file_table \<Rightarrow> http_server" where
  "newServer su rc d w ft =
     (let cfg = ReloadableConfig_Get rc; inb = Inbound cfg in
      \<lparr>sv_handler = NewHandler (ReadFile (su_source su)) cfg,
       sv_limiter = (if RateLimitEnabled inb
                     then Some (NewRateLimiter (RateLimitRequestsPerIP inb) (RateLimitWindowSeconds inb)) else None),
       sv_slots = (\<lambda>_. newSemaphore (MaxConcurrentRequests inb)),
       sv_metrics = (if MetricsEnabled (Metrics cfg) then Some [] else None),
       sv_reload = RegisterReloadCallback reloadCallback rc,
       sv_engine = d, sv_log = w, sv_files = ft\<rparr>)"

text \<open>The configuration is loaded twice, first for the logger. An error ends the process.\<close>

definition startServer :: "startup \<Rightarrow> string \<Rightarrow> goerror + http_server" where
  "startServer su path =
     (case LoadConfig (su_source su) (su_hostname su) path of
        Inl err \<Rightarrow> Inl err
      | Inr tempCfg \<Rightarrow>
          (case NewLogger (su_openErr su) (Logging tempCfg) no_files of
             (Inl err, _) \<Rightarrow> Inl err
           | (Inr (_, logWriter), ft) \<Rightarrow>
               (case NewReloadableConfig (su_source su) (su_hostname su) path of
                  Inl err \<Rightarrow> Inl err
                | Inr rc \<Rightarrow>
                    let cfg = ReloadableConfig_Get rc in
                    (case expandSourceIPsFromConfig (Outbound cfg) of
                       Inl err \<Rightarrow> Inl err
                     | Inr ips \<Rightarrow>
                         (case newEngine su cfg ips of
                            Inl err \<Rightarrow> Inl err
                          | Inr d \<Rightarrow> Inr (newServer su rc d logWriter ft))))))"

text \<open>The signal handler reopens the log file, then reloads; errors of either are only logged.\<close>

definition reopenLog :: "startup \<Rightarrow> http_server \<Rightarrow> http_server" where
  "reopenLog su sv =
     (case LogWriter_Reopen (su_openErr su) (sv_log sv) (sv_files sv) of
        (_, w, ft) \<Rightarrow> sv\<lparr>sv_log := w, sv_files := ft\<rparr>)"

definition sighup :: "startup \<Rightarrow> http_server \<Rightarrow> http_server" where
  "sighup su sv =
     (let sv1 = reopenLog su sv in
      case Reload (su_source su) (su_hostname su) (sv_reload sv1) (sv_engine sv1) of
        (rc, d, _) \<Rightarrow> sv1\<lparr>sv_reload := rc, sv_engine := d\<rparr>)"

lemma reopenLog_sel [simp]:
  "sv_handler (reopenLog su sv) = sv_handler sv" "sv_reload (reopenLog su sv) = sv_reload sv"
  "sv_engine (reopenLog su sv) = sv_engine sv" "sv_limiter (reopenLog su sv) = sv_limiter sv"
  by (simp_all add: reopenLog_def split: prod.split)

section \<open>Status endpoints\<close>

record DegradedIP =
  di_IP :: string
  di_DegradedAt :: gotime
  di_RetryAfter :: gotime
  di_FailureCount :: int
  di_LastError :: string
  di_LastSMTPCode :: int
  di_LastSMTPResponse :: string

record ReputationResponse =
  rr_Enabled :: bool
  rr_DegradedCount :: int
  rr_DegradedIPs :: "DegradedIP list"

definition degradedEntryOf :: "string \<times> DegradedIPInfo \<Rightarrow> DegradedIP" where
  "degradedEntryOf e =
     (case e of (ip, info) \<Rightarrow>
        \<lparr>di_IP = ip, di_DegradedAt = DegradedAt info, di_RetryAfter = RetryAfter info, di_FailureCount = FailureCount info,
         di_LastError = LastFailureError info, di_LastSMTPCode = LastSMTPCode info, di_LastSMTPResponse = LastSMTPResponse info\<rparr>)"

text \<open>\<open>order\<close> is the order in which the iteration over the map visits the entries; times are not formatted.\<close>

definition ServeReputation ::
  "((string \<times> DegradedIPInfo) list \<Rightarrow> (string \<times> DegradedIPInfo) list) \<Rightarrow> string \<Rightarrow> Deliverer \<Rightarrow> int + ReputationResponse" where
  "ServeReputation order meth d =
     (if meth \<noteq> ''GET'' then Inl 405
      else
        let ips = sort_key di_IP (map degradedEntryOf (order (GetDegradedIPs (d_tracker d))))
        in Inr \<lparr>rr_Enabled = Enabled (d_tracker d), rr_DegradedCount = int (length ips), rr_DegradedIPs = ips\<rparr>)"

record ClusterHealth =
  ch_Enabled :: bool
  ch_NodeCount :: int
  ch_Leader :: string

record SystemHealth =
  sh_GoVersion :: string
  sh_Goroutines :: int
  sh_MemoryMB :: "64 word"
  sh_MemoryAllocMB :: "64 word"

record HealthResponse =
  hc_Status :: string
  hc_Timestamp :: gotime
  hc_Uptime :: duration
  hc_System :: SystemHealth
  hc_Cluster :: "ClusterHealth option"

text \<open>
  What the Go runtime reports of the process: its version, the number of goroutines and the bytes of
  memory obtained from the system and in use.
\<close>

record runtime_stats =
  rt_Version :: string
  rt_NumGoroutine :: int
  rt_Sys :: "64 word"
  rt_Alloc :: "64 word"

definition getSystemHealth :: "runtime_stats \<Rightarrow> SystemHealth" where
  "getSystemHealth rt =
     \<lparr>sh_GoVersion = rt_Version rt, sh_Goroutines = rt_NumGoroutine rt,
      sh_MemoryMB = rt_Sys rt div 1024 div 1024, sh_MemoryAllocMB = rt_Alloc rt div 1024 div 1024\<rparr>"

text \<open>The cluster is known by its number of members and its leader. Times are left unformatted.\<close>

definition getClusterHealth :: "(int \<times> string) option \<Rightarrow> ClusterHealth option" where
  "getClusterHealth cl = map_option (\<lambda>(n, leader). \<lparr>ch_Enabled = True, ch_NodeCount = n, ch_Leader = leader\<rparr>) cl"

definition buildHealthResponse :: "gotime \<Rightarrow> gotime \<Rightarrow> runtime_stats \<Rightarrow> (int \<times> string) option \<Rightarrow> HealthResponse" where
  "buildHealthResponse startTime now rt cl =
     \<lparr>hc_Status = ''healthy'', hc_Timestamp = now, hc_Uptime = now - startTime, hc_System = getSystemHealth rt,
      hc_Cluster = getClusterHealth cl\<rparr>"

definition ServeHealth :: "gotime \<Rightarrow> gotime \<Rightarrow> runtime_stats \<Rightarrow> (int \<times> string) option \<Rightarrow> string \<Rightarrow> int + HealthResponse" where
  "ServeHealth startTime now rt cl meth =
     (if meth \<noteq> ''GET'' then Inl 405 else Inr (buildHealthResponse startTime now rt cl))"

section \<open>Lemmas\<close>

text \<open>The figures in the status are the whole megabytes, none lost to the width of the numbers.\<close>

lemma memory_megabytes:
  "unat (sh_MemoryMB (getSystemHealth rt)) = unat (rt_Sys rt) div 2 ^ 20"
  "unat (sh_MemoryAllocMB (getSystemHealth rt)) = unat (rt_Alloc rt) div 2 ^ 20"
  by (simp_all add: getSystemHealth_def unat_div div_mult2_eq [symmetric])

lemma handle_guard:
  "handleDeliverWithTransport env tr r h d = (resp, d') \<Longrightarrow> d' \<noteq> d \<Longrightarrow> hr_Method r = ''POST'' \<and> authorized h r"
  by (elim handle_cases) auto

lemma handleRoute_guard:
  assumes "handleRoute env rt r sv = (answer, sv')"
  shows "sv_limiter sv' = sv_limiter sv \<and> sv_handler sv' = sv_handler sv \<and> sv_reload sv' = sv_reload sv
    \<and> (sv_engine sv' \<noteq> sv_engine sv \<longrightarrow> hr_Method r = ''POST'' \<and> authorized (sv_handler sv) r)"
  using assms
  by (auto simp: handleRoute_def HandleDeliver_def HandleDeliverSMTP_def HandleDeliverLMTP_def
      split: prod.splits route.splits if_splits dest!: handle_guard)

text \<open>What the engine goes through in a request, in terms of an invariant of its own.\<close>

lemma handle_engine:
  assumes "handleDeliverWithTransport env tr r h d = (resp, d')"
  shows "d_config d' = d_config d \<and> (deliverer_inv d \<longrightarrow> deliverer_inv d')"
  using assms
proof (cases rule: handle_cases)
  case (delivered req msg q)
  with DeliverMessage_config [of "he_world env" "traceIDFor env r" "mr_From req" "mr_To req" msg tr "signingFor h req"
      "map_option ia_DKIM (mr_InboundAuth req)" d]
    DeliverMessage_inv [of d "he_world env" "traceIDFor env r" "mr_From req" "mr_To req" msg tr "signingFor h req"
      "map_option ia_DKIM (mr_InboundAuth req)"]
  show ?thesis by simp
qed simp

lemma handleRoute_engine:
  assumes "handleRoute env rt r sv = (answer, sv')"
  shows "d_config (sv_engine sv') = d_config (sv_engine sv) \<and> (deliverer_inv (sv_engine sv) \<longrightarrow> deliverer_inv (sv_engine sv'))"
  using assms
  by (auto simp: handleRoute_def HandleDeliver_def HandleDeliverSMTP_def HandleDeliverLMTP_def
      split: prod.splits route.splits if_splits dest!: handle_engine)

text \<open>The stages of a request on a route: one of the limits answers, or the handler does.\<close>

lemma serve_cases:
  assumes "serve env remote now path r sv = (reply, sv')"
  obtains (turned_away) "sv_engine sv' = sv_engine sv" "sv_handler sv' = sv_handler sv" "sv_reload sv' = sv_reload sv"
  | (handled) rt answer sv1 sv2 where "routeOf path = Some rt" "sv_engine sv1 = sv_engine sv" "sv_handler sv1 = sv_handler sv"
      "sv_reload sv1 = sv_reload sv"
      "\<forall>rl. sv_limiter sv = Some rl \<longrightarrow> fst (Allow (peerOf remote r) now rl)"
      "maxConcurrent sv > 0 \<longrightarrow> sem_used (sv_slots sv rt) < sem_size (sv_slots sv rt)"
      "handleRoute env rt r sv1 = (answer, sv2)" "sv_engine sv' = sv_engine sv2" "sv_handler sv' = sv_handler sv2"
      "sv_reload sv' = sv_reload sv2" "reply = SecurityHeadersMiddleware (PanicRecoveryMiddleware answer)"
proof (cases "routeOf path")
  case None
  with assms turned_away show thesis by (simp add: serve_def)
next
  case (Some rt)
  obtain answer sv2 where lr: "limitRate env remote now rt r sv = (answer, sv2)" by force
  have fin: "sv_engine sv' = sv_engine sv2" "sv_handler sv' = sv_handler sv2" "sv_reload sv' = sv_reload sv2"
    "reply = SecurityHeadersMiddleware (PanicRecoveryMiddleware answer)"
    using assms Some lr by (cases answer; auto simp: serve_def MetricsMiddleware_def)+
  have stage: thesis
    if lc: "limitConcurrency env rt r sv1 = (answer, sv2)" and same: "sv_engine sv1 = sv_engine sv"
      "sv_handler sv1 = sv_handler sv" "sv_reload sv1 = sv_reload sv" "sv_slots sv1 = sv_slots sv"
      and ok: "\<forall>rl. sv_limiter sv = Some rl \<longrightarrow> fst (Allow (peerOf remote r) now rl)" for sv1
  proof (cases "maxConcurrent sv > 0 \<and> \<not> sem_used (sv_slots sv rt) < sem_size (sv_slots sv rt)")
    case True
    with lc same fin turned_away show thesis
      by (auto simp: limitConcurrency_def ConcurrencyLimitMiddleware_def maxConcurrent_def split: if_splits)
  next
    case False
    with lc same have "handleRoute env rt r sv1 = (answer, sv2)"
      by (auto simp: limitConcurrency_def ConcurrencyLimitMiddleware_def maxConcurrent_def split: if_splits)
    with False Some same ok fin show thesis by (intro handled [of rt sv1 answer sv2]) auto
  qed
  show thesis
  proof (cases "sv_limiter sv")
    case None
    with lr show thesis by (intro stage [of sv]) (auto simp: limitRate_def)
  next
    case (Some rl)
    obtain g rl' where al: "Allow (peerOf remote r) now rl = (g, rl')" by force
    show thesis
    proof (cases g)
      case True
      with Some al lr show thesis
        by (intro stage [of "sv\<lparr>sv_limiter := Some rl'\<rparr>"]) (auto simp: limitRate_def RateLimit_Middleware_def)
    next
      case False
      with Some al lr fin show thesis
        by (intro turned_away) (auto simp: limitRate_def RateLimit_Middleware_def)
    qed
  qed
qed

text \<open>The reputation report lists every degraded address once, in order, and the writer passes on one status.\<close>

lemma reputation_report:
  assumes "tracker_inv (d_tracker d)" and "mset (order (degradedIPs (d_tracker d))) = mset (degradedIPs (d_tracker d))"
  shows "\<exists>rep. ServeReputation order ''GET'' d = Inr rep \<and> sorted (map di_IP (rr_DegradedIPs rep))
    \<and> distinct (map di_IP (rr_DegradedIPs rep)) \<and> rr_DegradedCount rep = int (length (degradedIPs (d_tracker d)))
    \<and> set (map di_IP (rr_DegradedIPs rep)) = fst ` set (degradedIPs (d_tracker d))"
proof -
  let ?es = "order (degradedIPs (d_tracker d))"
  have ips: "map di_IP (map degradedEntryOf es) = map fst es" for es
    by (simp add: degradedEntryOf_def case_prod_beta)
  have es: "set ?es = set (degradedIPs (d_tracker d))" "length ?es = length (degradedIPs (d_tracker d))"
    using assms(2) by (metis set_mset_mset, metis size_mset)
  have "mset (map fst ?es) = mset (map fst (degradedIPs (d_tracker d)))" using assms(2) by (metis mset_map)
  then have "distinct (map fst ?es)" using assms(1) by (metis tracker_inv_def mset_eq_imp_distinct_iff)
  then have "distinct (map di_IP (sort_key di_IP (map degradedEntryOf ?es)))"
    by (metis ips mset_sort mset_map mset_eq_imp_distinct_iff)
  moreover have "di_IP ` degradedEntryOf ` A = fst ` A" for A
    by (force simp: degradedEntryOf_def image_iff)
  ultimately show ?thesis using es
    by (simp add: ServeReputation_def GetDegradedIPs_def Let_def)
qed

lemma first_status_only:
  "rw_sent (fold WriteHeader codes newResponseWriter) = take 1 codes"
proof (cases codes)
  case (Cons c cs)
  have "rw_written rw \<Longrightarrow> fold WriteHeader cs rw = rw" for rw
    by (induction cs arbitrary: rw) (simp_all add: WriteHeader_def)
  with Cons show ?thesis by (simp add: WriteHeader_def newResponseWriter_def)
qed (simp add: newResponseWriter_def)

section \<open>Properties\<close>

text \<open>
  C11. The way to the engine: a request that changes the state of the delivery engine came over one of the three
  delivery routes, was within the rate limit of its client and the concurrency limit of its route, and is
  an authorized POST; its response carries the security headers, even after a panic.
\<close>

theorem front_door:
  assumes "serve env remote now path r sv = (reply, sv')" and "sv_engine sv' \<noteq> sv_engine sv"
  shows "\<exists>rt. routeOf path = Some rt
    \<and> (\<forall>rl. sv_limiter sv = Some rl \<longrightarrow> fst (Allow (peerOf remote r) now rl))
    \<and> (maxConcurrent sv > 0 \<longrightarrow> sem_used (sv_slots sv rt) < sem_size (sv_slots sv rt))
    \<and> hr_Method r = ''POST'' \<and> authorized (sv_handler sv) r \<and> rp_Headers reply = securityHeaders"
  using assms(1)
proof (cases rule: serve_cases)
  case turned_away
  with assms(2) show ?thesis by simp
next
  case (handled rt answer sv1 sv2)
  with handleRoute_guard [OF handled(7)] assms(2) show ?thesis
    by (intro exI [of _ rt]) (auto simp: SecurityHeadersMiddleware_def)
qed

text \<open>The operations of a running server.\<close>

datatype server_op =
    Request http_env string gotime string http_request
  | Sighup startup
  | LimiterTick gotime
  | MXTick gotime
  | TrackerTick cleanup_clock
  | RateTick gotime
  | Shutdown cleanup_clock

fun server_step :: "http_server \<Rightarrow> server_op \<Rightarrow> http_server" where
  "server_step sv (Request env remote now path r) = snd (serve env remote now path r sv)"
| "server_step sv (Sighup su) = sighup su sv"
| "server_step sv (LimiterTick now) = sv\<lparr>sv_engine := limiterTick now (sv_engine sv)\<rparr>"
| "server_step sv (MXTick now) = sv\<lparr>sv_engine := mxTick now (sv_engine sv)\<rparr>"
| "server_step sv (TrackerTick clk) = sv\<lparr>sv_engine := trackerTick clk (sv_engine sv)\<rparr>"
| "server_step sv (RateTick now) = sv\<lparr>sv_limiter := map_option (rl_cleanup now) (sv_limiter sv)\<rparr>"
| "server_step sv (Shutdown clk) = sv\<lparr>sv_engine := Stop clk (sv_engine sv)\<rparr>"

definition loaded :: "Config \<Rightarrow> bool" where
  "loaded cfg \<longleftrightarrow> (\<exists>src host path. LoadConfig src host path = Inr cfg)"

definition server_inv :: "string \<Rightarrow> Handler \<Rightarrow> http_server \<Rightarrow> bool" where
  "server_inv path h sv \<longleftrightarrow>
     deliverer_inv (sv_engine sv) \<and> loaded (rc_config (sv_reload sv)) \<and> rc_onReload (sv_reload sv) = [reloadCallback]
     \<and> rc_configPath (sv_reload sv) = path
     \<and> d_config (sv_engine sv) = Outbound (rc_config (sv_reload sv)) \<and> sv_handler sv = h
     \<and> Listen (Inbound (rc_config (sv_reload sv))) = Listen (Inbound (h_config h))
     \<and> log_ok (sv_log sv) (sv_files sv)"

lemma serve_log:
  assumes "serve env remote now path r sv = (reply, sv')"
  shows "sv_log sv' = sv_log sv \<and> sv_files sv' = sv_files sv"
  using assms
  by (auto simp: serve_def MetricsMiddleware_def limitRate_def limitConcurrency_def handleRoute_def Let_def
      split: prod.splits option.splits if_splits route.splits middleware_answer.splits)

lemma serve_inv:
  assumes "server_inv cp h sv"
  shows "server_inv cp h (snd (serve env remote now path r sv))"
proof -
  obtain reply sv' where run: "serve env remote now path r sv = (reply, sv')" by force
  then show ?thesis
  proof (cases rule: serve_cases)
    case turned_away
    with assms run serve_log [OF run] show ?thesis by (simp add: server_inv_def)
  next
    case (handled rt answer sv1 sv2)
    with handleRoute_guard [OF handled(7)] handleRoute_engine [OF handled(7)] assms run serve_log [OF run] show ?thesis
      by (simp add: server_inv_def)
  qed
qed

lemma reload_engine_inv: "deliverer_inv d \<Longrightarrow> deliverer_inv (fst (reloadCallback cfg d))"
  by (simp add: reloadCallback_def Deliverer_ReloadConfig_def MX_ReloadConfig_def deliverer_inv_def cache_keys_distinct_def)

lemma sighup_cases:
  assumes "rc_onReload (sv_reload sv) = [reloadCallback]"
  obtains (kept) "sighup su sv = reopenLog su sv"
  | (reloaded) cfg where "LoadConfig (su_source su) (su_hostname su) (rc_configPath (sv_reload sv)) = Inr cfg"
      "Listen (Inbound cfg) = Listen (Inbound (rc_config (sv_reload sv)))"
      "sighup su sv = (reopenLog su sv)\<lparr>sv_reload := (sv_reload sv)\<lparr>rc_config := cfg\<rparr>, sv_engine := fst (reloadCallback cfg (sv_engine sv))\<rparr>"
proof -
  obtain rc d e where re: "Reload (su_source su) (su_hostname su) (sv_reload sv) (sv_engine sv) = (rc, d, e)"
    by (metis prod_cases3)
  show thesis
  proof (cases e)
    case None
    from Reload_success [OF re [unfolded None]] assms re reloaded show thesis
      by (auto simp: sighup_def reloadCallback_def)
  next
    case (Some err)
    with re assms have "rc = sv_reload sv \<and> d = sv_engine sv"
      by (auto simp: Reload_def reloadCallback_def split: sum.splits option.splits)
    with re kept show thesis by (simp add: sighup_def)
  qed
qed

lemma reopenLog_inv:
  assumes "server_inv path h sv"
  shows "server_inv path h (reopenLog su sv)"
proof -
  obtain e w ft where re: "LogWriter_Reopen (su_openErr su) (sv_log sv) (sv_files sv) = (e, w, ft)"
    by (metis prod_cases3)
  with Reopen_ok [OF _ re] assms show ?thesis by (simp add: server_inv_def reopenLog_def)
qed

lemma sighup_inv:
  assumes "server_inv path h sv"
  shows "server_inv path h (sighup su sv)"
proof -
  have "rc_onReload (sv_reload sv) = [reloadCallback]" using assms by (simp add: server_inv_def)
  then show ?thesis
  proof (cases rule: sighup_cases [where su = su])
    case kept
    with reopenLog_inv [OF assms] show ?thesis by simp
  next
    case (reloaded cfg)
    then have "loaded cfg" by (auto simp: loaded_def)
    with reloaded reopenLog_inv [OF assms, of su] reload_engine_inv [of "sv_engine sv" cfg] show ?thesis
      by (simp add: server_inv_def reloadCallback_def Deliverer_ReloadConfig_def)
  qed
qed

text \<open>The background work does to the engine what the engine's own steps do.\<close>

lemma background_inv:
  assumes "server_inv path h sv" and "d_config (deliverer_step (sv_engine sv) op) = d_config (sv_engine sv)"
  shows "server_inv path h (sv\<lparr>sv_engine := deliverer_step (sv_engine sv) op\<rparr>)"
  using assms engine.step_inv [of "sv_engine sv" op] by (simp add: server_inv_def)

lemma ticks_config:
  "d_config (limiterTick now d) = d_config d" "d_config (mxTick now d) = d_config d"
  "d_config (trackerTick clk d) = d_config d" "d_config (Stop clk d) = d_config d"
  by (simp_all add: limiterTick_def mxTick_def trackerTick_def Stop_def)

interpretation server: machine server_step "server_inv path h"
proof
  fix sv op
  assume inv: "server_inv path h sv"
  show "server_inv path h (server_step sv op)"
  proof (cases op)
    case (LimiterTick t)
    with background_inv [OF inv, of "OpLimiterTick t"] show ?thesis by (simp add: ticks_config)
  next
    case (MXTick t)
    with background_inv [OF inv, of "OpMXTick t"] show ?thesis by (simp add: ticks_config)
  next
    case (TrackerTick clk)
    with background_inv [OF inv, of "OpTrackerTick clk"] show ?thesis by (simp add: ticks_config)
  next
    case (Shutdown clk)
    with background_inv [OF inv, of "OpStop clk"] show ?thesis by (simp add: ticks_config)
  next
    case (RateTick t)
    with inv show ?thesis by (simp add: server_inv_def)
  qed (simp_all add: serve_inv sighup_inv inv)
qed

lemma newEngine_inv:
  assumes "newEngine su cfg ips = Inr d"
  shows "deliverer_inv d \<and> d_config d = Outbound cfg"
proof -
  have "deliverer_inv (NewDeliverer f ob v4 v6 (NewMXLookup dn) rep arc srs)" for f ob v4 v6 dn rep arc srs
    by (simp add: deliverer_inv_def NewDeliverer_def tracker_inv_def NewIPReputationTracker_def cache_keys_distinct_def
        NewMXLookup_def)
  then show ?thesis
    using assms
    by (auto simp: newEngine_def Let_def withKeyStore_def deliverer_inv_def Deliverer_SetMetrics_def SetDKIMKeyStore_def
        NewDeliverer_def split: if_splits sum.splits)
qed

lemma startServer_inv:
  assumes "startServer su path = Inr sv"
  shows "server_inv path (sv_handler sv) sv"
proof -
  obtain cfg l w ft ips d where cfg: "LoadConfig (su_source su) (su_hostname su) path = Inr cfg"
    and log: "NewLogger (su_openErr su) (Logging cfg) no_files = (Inr (l, w), ft)"
    and d: "newEngine su cfg ips = Inr d"
    and sv: "sv = newServer su \<lparr>rc_config = cfg, rc_configPath = path, rc_onReload = []\<rparr> d w ft"
    using assms by (auto simp: startServer_def NewReloadableConfig_def ReloadableConfig_Get_def Let_def
        split: sum.splits prod.splits)
  then have "loaded cfg" by (auto simp: loaded_def)
  moreover have "log_ok w ft" using NewLogger_ok [OF log] by (simp add: no_files_def)
  ultimately show ?thesis using newEngine_inv [OF d]
    by (simp add: server_inv_def sv newServer_def Let_def ReloadableConfig_Get_def RegisterReloadCallback_def NewHandler_def)
qed

text \<open>
  C12. A running server stays consistent: after any sequence of requests, reloads, background cleanups and a
  shutdown, the engine keeps the invariants of its parts and runs under the outbound settings of the
  active configuration, which is one that loaded and validated; the HTTP handler, with its token, size
  limit and signing settings, is the one of the start; and the log is open, with no other file left open
  by rotations.
\<close>

theorem server_reachable:
  assumes "startServer su path = Inr sv0"
  shows "let sv = foldl server_step sv0 ops in
    deliverer_inv (sv_engine sv) \<and> loaded (rc_config (sv_reload sv))
    \<and> d_config (sv_engine sv) = Outbound (rc_config (sv_reload sv))
    \<and> sv_handler sv = sv_handler sv0
    \<and> Listen (Inbound (rc_config (sv_reload sv))) = Listen (Inbound (h_config (sv_handler sv0)))
    \<and> log_ok (sv_log sv) (sv_files sv)"
  using server.run_inv [OF startServer_inv [OF assms], of ops] by (simp add: server_inv_def Let_def)

text \<open>
  C22. What a reload does to a running server: if the file loads and keeps the listen address, the engine takes the
  new outbound settings and the resolver the new servers and lifetimes, and nothing else changes: pooled
  connections, reputation, rate limits, cached routes and the source addresses stay. Otherwise the server
  is as it was, but for the log file, which is reopened in any case.
\<close>

theorem reload_takes_effect:
  assumes "startServer su0 path = Inr sv0"
  shows "let run = foldl server_step sv0 ops; sv = reopenLog su run in
    sighup su run =
      (case LoadConfig (su_source su) (su_hostname su) path of
         Inl _ \<Rightarrow> sv
       | Inr cfg \<Rightarrow>
           if Listen (Inbound cfg) \<noteq> Listen (Inbound (h_config (sv_handler sv0))) then sv
           else sv\<lparr>sv_reload := (sv_reload sv)\<lparr>rc_config := cfg\<rparr>,
                  sv_engine := (sv_engine sv)\<lparr>d_config := Outbound cfg,
                    d_mxLookup := (d_mxLookup (sv_engine sv))
                      \<lparr>dnsResolver := NewDNSResolver (DNS cfg), cacheTTL := CacheTTLSeconds (DNS cfg) * Second,
                       negativeTTL := CacheNegativeTTLSeconds (DNS cfg) * Second\<rparr>\<rparr>\<rparr>)"
proof -
  define run where "run = foldl server_step sv0 ops"
  have "server_inv path (sv_handler sv0) run" unfolding run_def by (rule server.run_inv [OF startServer_inv [OF assms]])
  then have inv: "rc_onReload (sv_reload run) = [reloadCallback]" "rc_configPath (sv_reload run) = path"
    "Listen (Inbound (rc_config (sv_reload run))) = Listen (Inbound (h_config (sv_handler sv0)))"
    by (simp_all add: server_inv_def)
  show ?thesis
    unfolding run_def [symmetric] Let_def
    by (cases "LoadConfig (su_source su) (su_hostname su) path")
      (simp_all add: sighup_def Reload_def validateReload_def reloadCallback_def Deliverer_ReloadConfig_def MX_ReloadConfig_def inv
        Let_def)
qed

section \<open>A sample server\<close>

definition sample_startup :: startup where
  "sample_startup = \<lparr>su_source = empty_file, su_hostname = ''mx1'', su_keyFS = ke_fs sample_key_env,
     su_openErr = (\<lambda>_. None)\<rparr>"

definition sample_loaded :: Config where
  "sample_loaded = SetDefaults ''mx1'' (zero_config\<lparr>Outbound := preferIPv6Defaults None (Outbound zero_config)\<rparr>)"

lemma sample_started:
  obtains sv where "startServer sample_startup ''strela.toml'' = Inr sv" "h_config (sv_handler sv) = sample_loaded"
proof -
  have off: "SourceIPsV4 (Outbound sample_loaded) = []" "SourceIPsV6 (Outbound sample_loaded) = []"
    "\<not> DKIMEnabled (DKIM sample_loaded)"
    by (simp_all add: sample_loaded_def SetDefaults_def setOutboundDefaults_def preferIPv6Defaults_def zero_config_def)
  then obtain ips where "expandSourceIPsFromConfig (Outbound sample_loaded) = Inr ips"
    by (simp add: expandSourceIPsFromConfig_def ExpandSourceIPs_def)
  moreover obtain d where "newEngine sample_startup sample_loaded ips = Inr d"
    using off by (simp add: newEngine_def withKeyStore_def Let_def)
  moreover have "LoadConfig empty_file ''mx1'' ''strela.toml'' = Inr sample_loaded"
    unfolding sample_loaded_def by (rule empty_file_loads)
  moreover obtain l w ft where "NewLogger (\<lambda>_. None) (Logging sample_loaded) no_files = (Inr (l, w), ft)"
    using NewLogger_default by (auto simp: sample_loaded_def SetDefaults_def zero_config_def)
  ultimately have "startServer sample_startup ''strela.toml'' = Inr (newServer sample_startup
      \<lparr>rc_config = sample_loaded, rc_configPath = ''strela.toml'', rc_onReload = []\<rparr> d w ft)"
    by (simp add: startServer_def sample_startup_def NewReloadableConfig_def ReloadableConfig_Get_def)
  then show thesis by (rule that) (simp add: newServer_def Let_def ReloadableConfig_Get_def NewHandler_def)
qed

theorem server_reachable_witness:
  "\<exists>sv0. startServer sample_startup ''strela.toml'' = Inr sv0
     \<and> deliverer_inv (sv_engine (foldl server_step sv0
          [Request sample_http ''192.0.2.9:1'' 5 ''/deliver'' sample_post, Sighup sample_startup, LimiterTick 9]))"
proof -
  obtain sv0 where "startServer sample_startup ''strela.toml'' = Inr sv0" by (rule sample_started)
  with server_reachable [OF this, of "[Request sample_http ''192.0.2.9:1'' 5 ''/deliver'' sample_post,
      Sighup sample_startup, LimiterTick 9]"] show ?thesis by (auto simp: Let_def)
qed

theorem reload_takes_effect_witness:
  "\<exists>sv0. startServer sample_startup ''strela.toml'' = Inr sv0
     \<and> d_config (sv_engine (sighup sample_startup (server_step sv0 (MXTick 3)))) = Outbound sample_loaded"
proof -
  obtain sv0 where start: "startServer sample_startup ''strela.toml'' = Inr sv0"
    and h: "h_config (sv_handler sv0) = sample_loaded" by (rule sample_started)
  have "LoadConfig (su_source sample_startup) (su_hostname sample_startup) ''strela.toml'' = Inr sample_loaded"
    unfolding sample_loaded_def sample_startup_def using empty_file_loads by simp
  with reload_takes_effect [OF start, of "[MXTick 3]" sample_startup, unfolded Let_def] h
  have "d_config (sv_engine (sighup sample_startup (server_step sv0 (MXTick 3)))) = Outbound sample_loaded" by simp
  with start show ?thesis by blast
qed

definition sample_server :: http_server where
  "sample_server = \<lparr>sv_handler = sample_handler, sv_limiter = Some (NewRateLimiter 5 60), sv_slots = (\<lambda>_. newSemaphore 2),
     sv_metrics = Some [], sv_reload = \<lparr>rc_config = zero_config, rc_configPath = [], rc_onReload = []\<rparr>,
     sv_engine = sample_engine, sv_log = \<lparr>lw_path = [], lw_file = Stderr\<rparr>, sv_files = no_files\<rparr>"

lemma sample_server_limits:
  "RateLimit_Middleware (peerOf ''192.0.2.9:1'' sample_post) 5 (NewRateLimiter 5 60)
     = (Pass, snd (Allow (peerOf ''192.0.2.9:1'' sample_post) 5 (NewRateLimiter 5 60)))"
  by (simp add: RateLimit_Middleware_def Allow_def allowIP_def NewRateLimiter_def split: prod.split)

theorem front_door_witness:
  "\<exists>reply sv'. serve sample_http ''192.0.2.9:1'' 5 ''/deliver'' sample_post sample_server = (reply, sv')
     \<and> sv_engine sv' \<noteq> sample_engine \<and> rp_Headers reply = securityHeaders"
proof -
  obtain x q d' where run: "handleDeliverWithTransport sample_http [] sample_post sample_handler sample_engine = (Some x, d')"
    and dm: "sample_delivery sample_world sample_engine = (Some q, d')" by (rule sample_http_ok)
  with sample_sent have moved: "d' \<noteq> sample_engine" using sample_engine_new by auto
  have "\<not> maxConcurrent sample_server > 0" by (simp add: maxConcurrent_def sample_server_def sample_handler_def zero_config_def)
  then have "sv_engine (snd (serve sample_http ''192.0.2.9:1'' 5 ''/deliver'' sample_post sample_server)) = d'"
    using run sample_server_limits
    by (simp add: serve_def routeOf_def MetricsMiddleware_def limitRate_def sample_server_def limitConcurrency_def maxConcurrent_def
        handleRoute_def HandleDeliver_def split: prod.split)
  moreover obtain reply sv' where s: "serve sample_http ''192.0.2.9:1'' 5 ''/deliver'' sample_post sample_server = (reply, sv')"
    by force
  ultimately have "sv_engine sv' \<noteq> sv_engine sample_server" using moved by (simp add: sample_server_def)
  with front_door [OF s] s show ?thesis by (auto simp: sample_server_def)
qed

end
