(* ===== verification/Cluster.thy ===== *)
theory Cluster
  imports Go_Encoding "HOL-Library.List_Lexorder" "HOL-Library.Char_ord"
begin

text \<open>
  Cluster membership and leader election, \<^verbatim>\<open>internal/cluster/cluster.go\<close>. The gossip library is known by
  the view of the membership that it shows: the local name and the members with their states. Names are
  compared byte by byte, as Go compares strings.
\<close>

section \<open>Model\<close>

datatype member_state = StateAlive | StateSuspect | StateDead | StateLeft

record membership =
  ml_local :: string
  ml_members :: "(string \<times> member_state) list"

record Cluster =
  cl_ml :: "membership option"
  cl_leader :: string
  cl_done :: bool

definition updateLeader :: "Cluster \<Rightarrow> Cluster" where
  "updateLeader c =
     (case cl_ml c of
        None \<Rightarrow> c
      | Some ml \<Rightarrow>
          if ml_members ml = [] then c
          else let newLeader = fst (hd (sort_key fst (ml_members ml)))
               in if cl_leader c \<noteq> newLeader then c\<lparr>cl_leader := newLeader\<rparr> else c)"

definition IsLeader :: "Cluster \<Rightarrow> bool" where
  "IsLeader c = (case cl_ml c of None \<Rightarrow> False | Some ml \<Rightarrow> cl_leader c = ml_local ml)"

definition GetLeader :: "Cluster \<Rightarrow> string" where
  "GetLeader c = cl_leader c"

text \<open>The two queries below need a member list; without one the code panics.\<close>

definition NumMembers :: "Cluster \<Rightarrow> nat option" where
  "NumMembers c = map_option (\<lambda>ml. length (ml_members ml)) (cl_ml c)"

definition LocalNodeName :: "Cluster \<Rightarrow> string option" where
  "LocalNodeName c = map_option ml_local (cl_ml c)"

record health_status =
  hh_node :: string
  hh_total :: nat
  hh_alive :: nat
  hh_suspect :: nat
  hh_dead :: nat
  hh_leader :: string
  hh_isLeader :: bool

definition countState :: "member_state \<Rightarrow> (string \<times> member_state) list \<Rightarrow> nat" where
  "countState st ms = length (filter (\<lambda>m. snd m = st) ms)"

definition HealthStatus :: "Cluster \<Rightarrow> health_status option" where
  "HealthStatus c =
     map_option
       (\<lambda>ml. \<lparr>hh_node = ml_local ml, hh_total = length (ml_members ml), hh_alive = countState StateAlive (ml_members ml),
              hh_suspect = countState StateSuspect (ml_members ml), hh_dead = countState StateDead (ml_members ml),
              hh_leader = GetLeader c, hh_isLeader = IsLeader c\<rparr>)
       (cl_ml c)"

definition DecodeSecretKey :: "string \<Rightarrow> goerror + string" where
  "DecodeSecretKey encoded =
     (case base64_DecodeString encoded of
        Inl err \<Rightarrow> Inl (wrapErr ''failed to decode secret key: '' err)
      | Inr decoded \<Rightarrow>
          if length decoded \<noteq> 32
          then Inl (ErrText (''secret key must be 32 bytes when decoded, got '' @ Itoa (int (length decoded))))
          else Inr decoded)"

record cluster_config =
  cc_NodeName :: string
  cc_BindAddr :: string
  cc_BindPort :: int
  cc_Peers :: "string list"
  cc_SecretKey :: string

record memberlist_config =
  mc_Name :: string
  mc_BindAddr :: string
  mc_BindPort :: int
  mc_AdvertiseAddr :: string
  mc_AdvertisePort :: int
  mc_SecretKey :: string
  mc_GossipVerify :: bool

text \<open>The settings for the library, from its defaults; \<open>GossipVerify\<close> stands for both directions.\<close>

definition memberlistConfig :: "memberlist_config \<Rightarrow> cluster_config \<Rightarrow> goerror + memberlist_config" where
  "memberlistConfig defaults cfg =
     (let m1 = (if cc_NodeName cfg \<noteq> [] then defaults\<lparr>mc_Name := cc_NodeName cfg\<rparr> else defaults);
          m2 = (if cc_BindAddr cfg \<noteq> [] then m1\<lparr>mc_BindAddr := cc_BindAddr cfg, mc_AdvertiseAddr := cc_BindAddr cfg\<rparr> else m1);
          m3 = (if cc_BindPort cfg > 0 then m2\<lparr>mc_BindPort := cc_BindPort cfg, mc_AdvertisePort := cc_BindPort cfg\<rparr> else m2)
      in if cc_SecretKey cfg = [] then Inr m3
         else if length (cc_SecretKey cfg) \<noteq> 32
         then Inl (ErrText (''secret key must be exactly 32 bytes, got '' @ Itoa (int (length (cc_SecretKey cfg)))))
         else Inr (m3\<lparr>mc_SecretKey := cc_SecretKey cfg, mc_GossipVerify := True\<rparr>))"

text \<open>
  \<open>create\<close> makes the member list, \<open>join\<close> gives the view after contacting the peers; a failure to join is
  only logged.
\<close>

definition NewCluster ::
  "memberlist_config \<Rightarrow> (memberlist_config \<Rightarrow> goerror + membership) \<Rightarrow> (string list \<Rightarrow> membership \<Rightarrow> membership)
     \<Rightarrow> cluster_config \<Rightarrow> goerror + Cluster" where
  "NewCluster defaults create join cfg =
     (case memberlistConfig defaults cfg of
        Inl err \<Rightarrow> Inl err
      | Inr mlConfig \<Rightarrow>
          (case create mlConfig of
             Inl err \<Rightarrow> Inl (wrapErr ''failed to create memberlist: '' err)
           | Inr ml \<Rightarrow>
               let ml' = (if cc_Peers cfg \<noteq> [] then join (cc_Peers cfg) ml else ml)
               in Inr (updateLeader \<lparr>cl_ml = Some ml', cl_leader = [], cl_done = False\<rparr>)))"

text \<open>
  The events of a running cluster: the library changes the view; the ticker and the notifications of joins
  and departures recompute the leader, until the shutdown for the ticker.
\<close>

datatype cluster_event = ViewChange "(string \<times> member_state) list" | Tick | NotifyJoin | NotifyLeave | NotifyUpdate | CloseDown

fun cluster_step :: "Cluster \<Rightarrow> cluster_event \<Rightarrow> Cluster" where
  "cluster_step c (ViewChange ms) = c\<lparr>cl_ml := map_option (\<lambda>ml. ml\<lparr>ml_members := ms\<rparr>) (cl_ml c)\<rparr>"
| "cluster_step c Tick = (if cl_done c then c else updateLeader c)"
| "cluster_step c NotifyJoin = updateLeader c"
| "cluster_step c NotifyLeave = updateLeader c"
| "cluster_step c NotifyUpdate = c"
| "cluster_step c CloseDown = c\<lparr>cl_done := True\<rparr>"

text \<open>
  Leaving the cluster, once: \<open>leaveErr\<close> is only logged, \<open>shutdownErr\<close> is returned.
\<close>

definition Cluster_Shutdown :: "goerror option \<Rightarrow> goerror option \<Rightarrow> Cluster \<Rightarrow> goerror option \<times> Cluster" where
  "Cluster_Shutdown leaveErr shutdownErr c =
     (if cl_done c then (None, c)
      else (case cl_ml c of None \<Rightarrow> None | Some _ \<Rightarrow> shutdownErr, cluster_step c CloseDown))"

text \<open>A line of the library's log, without its line feed, and the number of bytes taken.\<close>

definition logWriter_Write :: "string \<Rightarrow> string \<times> nat" where
  "logWriter_Write p = (if p \<noteq> [] \<and> last p = LF then butlast p else p, length p)"

section \<open>Lemmas\<close>

lemma Shutdown_idempotent: "Cluster_Shutdown e' e'' (snd (Cluster_Shutdown e1 e2 c)) = (None, snd (Cluster_Shutdown e1 e2 c))"
  by (simp add: Cluster_Shutdown_def)

lemma updateLeader_ml [simp]: "cl_ml (updateLeader c) = cl_ml c"
  by (simp add: updateLeader_def Let_def split: option.split)

lemma updateLeader_Min:
  assumes "cl_ml c = Some ml" and "ml_members ml \<noteq> []"
  shows "cl_leader (updateLeader c) = Min (fst ` set (ml_members ml))"
proof -
  let ?s = "sort_key fst (ml_members ml)"
  have ne: "?s \<noteq> []" using assms(2) by (metis length_0_conv length_sort)
  have "fst (hd ?s) = Min (fst ` set (ml_members ml))"
  proof (rule Min_eqI [symmetric])
    show "fst (hd ?s) \<in> fst ` set (ml_members ml)" using ne by (metis hd_in_set imageI set_sort)
    show "fst (hd ?s) \<le> y" if y: "y \<in> fst ` set (ml_members ml)" for y
    proof -
      obtain x xs where s: "?s = x # xs" using ne by (cases ?s) auto
      have "sorted (map fst ?s)" by simp
      then have "\<forall>z\<in>set xs. fst x \<le> fst z" by (simp add: s)
      moreover have "y \<in> fst ` set ?s" using y by simp
      ultimately show ?thesis by (auto simp: s)
    qed
  qed simp
  with assms show ?thesis by (auto simp: updateLeader_def Let_def)
qed

lemma event_keeps_name: "map_option ml_local (cl_ml (cluster_step c e)) = map_option ml_local (cl_ml c)"
  by (cases e) (auto simp: option.map_comp comp_def)

text \<open>Nodes with one view: \<open>node n\<close> is the state of the node with name \<open>n\<close>.\<close>

definition same_view :: "string list \<Rightarrow> (string \<Rightarrow> Cluster) \<Rightarrow> bool" where
  "same_view names node \<longleftrightarrow> names \<noteq> [] \<and>
     (\<forall>n\<in>set names. \<exists>ml. cl_ml (node n) = Some ml \<and> ml_local ml = n \<and> fst ` set (ml_members ml) = set names)"

lemma same_view_leader:
  assumes "same_view names node" and n: "n \<in> set names"
  shows "GetLeader (updateLeader (node n)) = Min (set names) \<and> (IsLeader (updateLeader (node n)) \<longleftrightarrow> n = Min (set names))"
proof -
  from assms obtain ml where ml: "cl_ml (node n) = Some ml" "ml_local ml = n" "fst ` set (ml_members ml) = set names"
    by (auto simp: same_view_def)
  then have "ml_members ml \<noteq> []" using n by auto
  from updateLeader_Min [OF ml(1) this] ml show ?thesis by (auto simp: GetLeader_def IsLeader_def)
qed

section \<open>Properties\<close>

text \<open>
  C23. Nodes that see the same members agree on one leader: after the leader has been recomputed on every node of a
  cluster, whatever leaders they had before, each takes the smallest name, and exactly one node considers
  itself the leader.
\<close>

theorem one_leader:
  assumes "same_view names node"
  shows "(\<forall>n\<in>set names. GetLeader (updateLeader (node n)) = Min (set names))
    \<and> (\<exists>!n. n \<in> set names \<and> IsLeader (updateLeader (node n)))"
proof -
  have "Min (set names) \<in> set names" using assms by (simp add: same_view_def)
  with same_view_leader [OF assms] show ?thesis by blast
qed

definition sample_node :: "string \<Rightarrow> Cluster" where
  "sample_node n = \<lparr>cl_ml = Some \<lparr>ml_local = n, ml_members = [(''b'', StateAlive), (''a'', StateAlive)]\<rparr>, cl_leader = ''z'',
     cl_done = False\<rparr>"

theorem one_leader_witness:
  "(\<exists>!n. n \<in> set [''a'', ''b''] \<and> IsLeader (updateLeader (sample_node n))) \<and> IsLeader (updateLeader (sample_node ''a''))"
proof -
  have "same_view [''a'', ''b''] sample_node" by (auto simp: same_view_def sample_node_def)
  from one_leader [OF this]
  have "\<exists>!n. n \<in> set [''a'', ''b''] \<and> IsLeader (updateLeader (sample_node n))" by simp
  moreover have "IsLeader (updateLeader (sample_node ''a''))" by code_simp
  ultimately show ?thesis by blast
qed

end
