(* ===== verification/Cert_Cache.thy ===== *)
theory Cert_Cache
  imports Cluster Config
begin

text \<open>
  The certificate storage of \<^verbatim>\<open>internal/tls/storage\<close> and the TLS manager, \<^verbatim>\<open>internal/tls/manager.go\<close>: the
  cache in an S3 bucket, the two-tier cache with its circuit breaker, the cache that only the cluster
  leader may write, the synchronisation worker and the selection of a certificate in a handshake. The
  interface \<open>autocert.Cache\<close> is a record of operations; the S3 client, the cache in a directory and
  the ACME library are parameters.
\<close>

section \<open>The cache interface\<close>

record 'c cert_cache =
  cacheGet :: "string \<Rightarrow> 'c \<Rightarrow> (goerror + string) \<times> 'c"
  cachePut :: "string \<Rightarrow> string \<Rightarrow> 'c \<Rightarrow> goerror option \<times> 'c"
  cacheDelete :: "string \<Rightarrow> 'c \<Rightarrow> goerror option \<times> 'c"

abbreviation cacheMiss :: goerror where
  "cacheMiss \<equiv> ErrSentinel ErrCacheMiss"

text \<open>
  What \<open>autocert.Cache\<close> promises: \<open>holds c\<close> are the entries of the cache in state \<open>c\<close>. An operation that fails
  may have had its effect or not, but touches no other entry. \<open>valid\<close> states are those in which the cache
  reports a miss only for an entry that it does not hold.
\<close>

locale cert_store =
  fixes ops :: "'c cert_cache" and holds :: "'c \<Rightarrow> string \<Rightarrow> string option" and valid :: "'c \<Rightarrow> bool"
  assumes get_keeps: "holds (snd (cacheGet ops k c)) = holds c"
    and get_hit: "fst (cacheGet ops k c) = Inr v \<Longrightarrow> holds c k = Some v"
    and get_miss: "valid c \<Longrightarrow> fst (cacheGet ops k c) = Inl cacheMiss \<Longrightarrow> holds c k = None"
    and put_ok: "fst (cachePut ops k v c) = None \<Longrightarrow> holds (snd (cachePut ops k v c)) = (holds c)(k \<mapsto> v)"
    and put_other: "k' \<noteq> k \<Longrightarrow> holds (snd (cachePut ops k v c)) k' = holds c k'"
    and delete_ok: "fst (cacheDelete ops k c) = None \<Longrightarrow> holds (snd (cacheDelete ops k c)) = (holds c)(k := None)"
    and delete_other: "k' \<noteq> k \<Longrightarrow> holds (snd (cacheDelete ops k c)) k' = holds c k'"
    and valid_get: "valid c \<Longrightarrow> valid (snd (cacheGet ops k c))"
    and valid_put: "valid c \<Longrightarrow> valid (snd (cachePut ops k v c))"
    and valid_delete: "valid c \<Longrightarrow> valid (snd (cacheDelete ops k c))"
begin

lemma put_then_get: "fst (cachePut ops k v c) = None \<Longrightarrow> fst (cacheGet ops k (snd (cachePut ops k v c))) = Inr w \<Longrightarrow> w = v"
  using put_ok get_hit by fastforce

lemma put_not_missed:
  "valid c \<Longrightarrow> fst (cachePut ops k v c) = None \<Longrightarrow> fst (cacheGet ops k (snd (cachePut ops k v c))) \<noteq> Inl cacheMiss"
  using put_ok get_miss valid_put by fastforce

end

section \<open>The cache in a bucket\<close>

datatype s3_error = NoSuchKey | S3Err goerror

text \<open>The client of the bucket; the body of an object may fail to be read.\<close>

record 's s3_api =
  GetObject :: "string \<Rightarrow> string \<Rightarrow> 's \<Rightarrow> (s3_error + (goerror + string)) \<times> 's"
  PutObject :: "string \<Rightarrow> string \<Rightarrow> string \<Rightarrow> 's \<Rightarrow> goerror option \<times> 's"
  DeleteObject :: "string \<Rightarrow> string \<Rightarrow> 's \<Rightarrow> goerror option \<times> 's"

definition S3Cache_Get :: "'s s3_api \<Rightarrow> string \<Rightarrow> string \<Rightarrow> string \<Rightarrow> 's \<Rightarrow> (goerror + string) \<times> 's" where
  "S3Cache_Get api bucket keyPrefix key s =
     (case GetObject api bucket (keyPrefix @ key) s of
        (Inl NoSuchKey, s') \<Rightarrow> (Inl cacheMiss, s')
      | (Inl (S3Err err), s') \<Rightarrow> (Inl err, s')
      | (Inr (Inl err), s') \<Rightarrow> (Inl err, s')
      | (Inr (Inr data), s') \<Rightarrow> (Inr data, s'))"

definition S3Cache_Put :: "'s s3_api \<Rightarrow> string \<Rightarrow> string \<Rightarrow> string \<Rightarrow> string \<Rightarrow> 's \<Rightarrow> goerror option \<times> 's" where
  "S3Cache_Put api bucket keyPrefix key data s = PutObject api bucket (keyPrefix @ key) data s"

definition S3Cache_Delete :: "'s s3_api \<Rightarrow> string \<Rightarrow> string \<Rightarrow> string \<Rightarrow> 's \<Rightarrow> goerror option \<times> 's" where
  "S3Cache_Delete api bucket keyPrefix key s = DeleteObject api bucket (keyPrefix @ key) s"

definition S3Cache :: "'s s3_api \<Rightarrow> string \<Rightarrow> string \<Rightarrow> 's cert_cache" where
  "S3Cache api bucket keyPrefix =
     \<lparr>cacheGet = S3Cache_Get api bucket keyPrefix, cachePut = S3Cache_Put api bucket keyPrefix,
      cacheDelete = S3Cache_Delete api bucket keyPrefix\<rparr>"

text \<open>The client in memory, \<^verbatim>\<open>mock_s3.go\<close>: an object store that can be told to fail.\<close>

record MockS3Client =
  ms_Storage :: "(string \<times> string) list"
  ms_GetErr :: "goerror option"
  ms_PutErr :: "goerror option"
  ms_DelErr :: "goerror option"

definition NewMockS3Client :: MockS3Client where
  "NewMockS3Client = \<lparr>ms_Storage = [], ms_GetErr = None, ms_PutErr = None, ms_DelErr = None\<rparr>"

definition mockS3 :: "MockS3Client s3_api" where
  "mockS3 =
     \<lparr>GetObject = (\<lambda>bucket key m.
        (case ms_GetErr m of
           Some err \<Rightarrow> Inl (S3Err err)
         | None \<Rightarrow> (case map_of (ms_Storage m) key of None \<Rightarrow> Inl NoSuchKey | Some data \<Rightarrow> Inr (Inr data)), m)),
      PutObject = (\<lambda>bucket key data m.
        case ms_PutErr m of
          Some err \<Rightarrow> (Some err, m)
        | None \<Rightarrow> (None, m\<lparr>ms_Storage := AList.update key data (ms_Storage m)\<rparr>)),
      DeleteObject = (\<lambda>bucket key m.
        case ms_DelErr m of
          Some err \<Rightarrow> (Some err, m)
        | None \<Rightarrow> (None, m\<lparr>ms_Storage := AList.delete key (ms_Storage m)\<rparr>))\<rparr>"

section \<open>The cache of the leader\<close>

definition ClusterCache_Get :: "'c cert_cache \<Rightarrow> string \<Rightarrow> 'c \<Rightarrow> (goerror + string) \<times> 'c" where
  "ClusterCache_Get underlying name c = cacheGet underlying name c"

definition ClusterCache_Put :: "bool \<Rightarrow> 'c cert_cache \<Rightarrow> string \<Rightarrow> string \<Rightarrow> 'c \<Rightarrow> goerror option \<times> 'c" where
  "ClusterCache_Put isLeader underlying name data c =
     (if \<not> isLeader then (Some (ErrText ''only cluster leader can request new certificates''), c)
      else cachePut underlying name data c)"

definition ClusterCache_Delete :: "bool \<Rightarrow> 'c cert_cache \<Rightarrow> string \<Rightarrow> 'c \<Rightarrow> goerror option \<times> 'c" where
  "ClusterCache_Delete isLeader underlying name c =
     (if \<not> isLeader then (Some (ErrText ''only cluster leader can delete certificates''), c)
      else cacheDelete underlying name c)"

definition ClusterAwareCache :: "bool \<Rightarrow> 'c cert_cache \<Rightarrow> 'c cert_cache" where
  "ClusterAwareCache isLeader underlying =
     \<lparr>cacheGet = ClusterCache_Get underlying, cachePut = ClusterCache_Put isLeader underlying,
      cacheDelete = ClusterCache_Delete isLeader underlying\<rparr>"

section \<open>The two-tier cache\<close>

text \<open>The local directory: the cache in it, and the listing and reading of its files.\<close>

datatype dir_listing = DirMissing | DirError goerror | DirEntries "(string \<times> bool) list"

record 'l local_dir =
  ld_cache :: "'l cert_cache"
  ld_list :: "'l \<Rightarrow> dir_listing"
  ld_read :: "'l \<Rightarrow> string \<Rightarrow> goerror + string"

text \<open>Work that an operation leaves to a goroutine.\<close>

datatype cache_task = SyncLocal string string | SyncS3 string string

record ('p, 'l) FallbackCache =
  fc_primary :: 'p
  fc_fallback :: 'l
  fc_s3Available :: bool
  fc_needsSync :: bool
  fc_lastS3Check :: gotime
  fc_checkInterval :: duration
  fc_consecutiveFails :: int
  fc_tasks :: "cache_task list"

definition NewFallbackCache :: "'p \<Rightarrow> 'l \<Rightarrow> ('p, 'l) FallbackCache" where
  "NewFallbackCache s3 localDir =
     \<lparr>fc_primary = s3, fc_fallback = localDir, fc_s3Available = True, fc_needsSync = False, fc_lastS3Check = 0,
      fc_checkInterval = 30 * Second, fc_consecutiveFails = 0, fc_tasks = []\<rparr>"

definition isS3Available :: "gotime \<Rightarrow> ('p, 'l) FallbackCache \<Rightarrow> bool" where
  "isS3Available now f \<longleftrightarrow> \<not> (\<not> fc_s3Available f \<and> now - fc_lastS3Check f < fc_checkInterval f)"

definition markS3Unavailable :: "gotime \<Rightarrow> ('p, 'l) FallbackCache \<Rightarrow> ('p, 'l) FallbackCache" where
  "markS3Unavailable now f =
     f\<lparr>fc_consecutiveFails := fc_consecutiveFails f + 1, fc_s3Available := False, fc_lastS3Check := now\<rparr>"

definition markS3Available :: "('p, 'l) FallbackCache \<Rightarrow> ('p, 'l) FallbackCache" where
  "markS3Available f = f\<lparr>fc_s3Available := True, fc_consecutiveFails := 0\<rparr>"

text \<open>Times: \<open>t\<close> when the breaker is asked, \<open>t'\<close> when a failure is noted.\<close>

definition Fallback_Get ::
  "'p cert_cache \<Rightarrow> 'l local_dir \<Rightarrow> gotime \<Rightarrow> gotime \<Rightarrow> string \<Rightarrow> ('p, 'l) FallbackCache
     \<Rightarrow> (goerror + string) \<times> ('p, 'l) FallbackCache" where
  "Fallback_Get p l t t' key f =
     (case cacheGet (ld_cache l) key (fc_fallback f) of
        (Inr data, loc) \<Rightarrow> (Inr data, f\<lparr>fc_fallback := loc\<rparr>)
      | (Inl _, loc) \<Rightarrow>
          let f1 = f\<lparr>fc_fallback := loc\<rparr> in
          if \<not> isS3Available t f1 then (Inl cacheMiss, f1)
          else
            (case cacheGet p key (fc_primary f1) of
               (Inr data, s3) \<Rightarrow>
                 (Inr data, (markS3Available (f1\<lparr>fc_primary := s3\<rparr>))\<lparr>fc_tasks := fc_tasks f1 @ [SyncLocal key data]\<rparr>)
             | (Inl err, s3) \<Rightarrow>
                 if err = cacheMiss then (Inl cacheMiss, f1\<lparr>fc_primary := s3\<rparr>)
                 else (Inl err, markS3Unavailable t' (f1\<lparr>fc_primary := s3\<rparr>))))"

definition putFallback ::
  "'l local_dir \<Rightarrow> string \<Rightarrow> string \<Rightarrow> goerror option \<Rightarrow> ('p, 'l) FallbackCache \<Rightarrow> goerror option \<times> ('p, 'l) FallbackCache" where
  "putFallback l key data s3Err f0 =
     (let f = f0\<lparr>fc_needsSync := True\<rparr> in
      case cachePut (ld_cache l) key data (fc_fallback f) of
        (Some err, loc) \<Rightarrow>
          (Some (case s3Err of
                   Some e \<Rightarrow> ErrWrap (''both S3 and fallback cache failed - S3 error: '' @ err_text e @ '', fallback error: ''
                               @ err_text err) [e]
                 | None \<Rightarrow> err), f\<lparr>fc_fallback := loc\<rparr>)
      | (None, loc) \<Rightarrow> (None, f\<lparr>fc_fallback := loc, fc_tasks := fc_tasks f @ [SyncS3 key data]\<rparr>))"

definition Fallback_Put ::
  "'p cert_cache \<Rightarrow> 'l local_dir \<Rightarrow> gotime \<Rightarrow> gotime \<Rightarrow> string \<Rightarrow> string \<Rightarrow> ('p, 'l) FallbackCache
     \<Rightarrow> goerror option \<times> ('p, 'l) FallbackCache" where
  "Fallback_Put p l t t' key data f =
     (if isS3Available t f then
        (case cachePut p key data (fc_primary f) of
           (None, s3) \<Rightarrow>
             let f1 = markS3Available (f\<lparr>fc_primary := s3\<rparr>) in
             (None, f1\<lparr>fc_fallback := snd (cachePut (ld_cache l) key data (fc_fallback f1))\<rparr>)
         | (Some err, s3) \<Rightarrow> putFallback l key data (Some err) (markS3Unavailable t' (f\<lparr>fc_primary := s3\<rparr>)))
      else putFallback l key data None f)"

definition syncToS3 ::
  "'p cert_cache \<Rightarrow> gotime \<Rightarrow> gotime \<Rightarrow> string \<Rightarrow> string \<Rightarrow> ('p, 'l) FallbackCache \<Rightarrow> ('p, 'l) FallbackCache" where
  "syncToS3 p t t' key data f =
     (if \<not> isS3Available t f then f
      else case cachePut p key data (fc_primary f) of
             (Some _, s3) \<Rightarrow> markS3Unavailable t' (f\<lparr>fc_primary := s3\<rparr>)
           | (None, s3) \<Rightarrow> markS3Available (f\<lparr>fc_primary := s3\<rparr>))"

text \<open>The goroutines; the one for the bucket has waited for the check interval before.\<close>

fun runTask ::
  "'p cert_cache \<Rightarrow> 'l local_dir \<Rightarrow> gotime \<Rightarrow> gotime \<Rightarrow> cache_task \<Rightarrow> ('p, 'l) FallbackCache \<Rightarrow> ('p, 'l) FallbackCache" where
  "runTask p l t t' (SyncLocal key data) f =
     f\<lparr>fc_fallback := snd (cachePut (ld_cache l) key data (fc_fallback f))\<rparr>"
| "runTask p l t t' (SyncS3 key data) f = syncToS3 p t t' key data f"

definition Fallback_Delete ::
  "'p cert_cache \<Rightarrow> 'l local_dir \<Rightarrow> gotime \<Rightarrow> gotime \<Rightarrow> string \<Rightarrow> ('p, 'l) FallbackCache
     \<Rightarrow> goerror option \<times> ('p, 'l) FallbackCache" where
  "Fallback_Delete p l t t' key f =
     (let (s3Err, f1) =
            (if isS3Available t f then
               (case cacheDelete p key (fc_primary f) of
                  (None, s3) \<Rightarrow> (None, markS3Available (f\<lparr>fc_primary := s3\<rparr>))
                | (Some err, s3) \<Rightarrow> (Some err, markS3Unavailable t' (f\<lparr>fc_primary := s3\<rparr>)))
             else (None, f))
      in case cacheDelete (ld_cache l) key (fc_fallback f1) of
           (fallbackErr, loc) \<Rightarrow>
             (case (s3Err, fallbackErr) of
                (Some e, Some e') \<Rightarrow>
                  Some (ErrWrap (''both S3 and fallback cache delete failed - S3 error: '' @ err_text e @ '', fallback error: ''
                     @ err_text e') [e])
              | _ \<Rightarrow> None, f1\<lparr>fc_fallback := loc\<rparr>))"

definition NeedsSync :: "('p, 'l) FallbackCache \<Rightarrow> bool" where
  "NeedsSync f = fc_needsSync f"

text \<open>One file: the number of failures, 0 or 1, and the bucket afterwards.\<close>

definition uploadFile :: "'p cert_cache \<Rightarrow> string \<Rightarrow> string \<Rightarrow> 'p \<Rightarrow> nat \<times> 'p" where
  "uploadFile p name data s3 = (case cachePut p name data s3 of (Some _, s3') \<Rightarrow> (1, s3') | (None, s3') \<Rightarrow> (0, s3'))"

definition syncFile :: "'p cert_cache \<Rightarrow> (string \<Rightarrow> goerror + string) \<Rightarrow> string \<Rightarrow> 'p \<Rightarrow> nat \<times> 'p" where
  "syncFile p readFile name s3 =
     (case readFile name of
        Inl _ \<Rightarrow> (1, s3)
      | Inr data \<Rightarrow>
          (case cacheGet p name s3 of
             (Inr s3Data, s3') \<Rightarrow> if s3Data = data then (0, s3') else uploadFile p name data s3'
           | (Inl err, s3') \<Rightarrow> if err \<noteq> cacheMiss then (0, s3') else uploadFile p name data s3'))"

text \<open>The loop over the files.\<close>

fun syncEntries :: "'p cert_cache \<Rightarrow> (string \<Rightarrow> goerror + string) \<Rightarrow> (string \<times> bool) list \<Rightarrow> nat \<Rightarrow> 'p \<Rightarrow> nat \<times> 'p" where
  "syncEntries p readFile [] failed s3 = (failed, s3)"
| "syncEntries p readFile ((name, isDir) # es) failed s3 =
     (if isDir then syncEntries p readFile es failed s3
      else case syncFile p readFile name s3 of (n, s3') \<Rightarrow> syncEntries p readFile es (failed + n) s3')"

definition SyncAllToS3 ::
  "'p cert_cache \<Rightarrow> 'l local_dir \<Rightarrow> ('p, 'l) FallbackCache \<Rightarrow> goerror option \<times> ('p, 'l) FallbackCache" where
  "SyncAllToS3 p l f =
     (case ld_list l (fc_fallback f) of
        DirMissing \<Rightarrow> (None, f)
      | DirError err \<Rightarrow> (Some (wrapErr ''failed to read fallback directory: '' err), f)
      | DirEntries entries \<Rightarrow>
          (case syncEntries p (ld_read l (fc_fallback f)) entries 0 (fc_primary f) of
             (failed, s3) \<Rightarrow>
               if failed > 0
               then (Some (ErrText (''failed to sync '' @ Itoa (int failed) @ '' certificates to S3'')), f\<lparr>fc_primary := s3\<rparr>)
               else (None, f\<lparr>fc_primary := s3, fc_needsSync := False\<rparr>)))"

section \<open>The worker\<close>

record ('p, 'l) CertSyncWorker =
  sw_cache :: "('p, 'l) FallbackCache"
  sw_fails :: nat

definition runStartupSync :: "'p cert_cache \<Rightarrow> 'l local_dir \<Rightarrow> ('p, 'l) CertSyncWorker \<Rightarrow> ('p, 'l) CertSyncWorker" where
  "runStartupSync p l w = w\<lparr>sw_cache := snd (SyncAllToS3 p l (sw_cache w))\<rparr>"

definition runSync :: "'p cert_cache \<Rightarrow> 'l local_dir \<Rightarrow> ('p, 'l) CertSyncWorker \<Rightarrow> ('p, 'l) CertSyncWorker" where
  "runSync p l w =
     (if \<not> NeedsSync (sw_cache w) then w
      else case SyncAllToS3 p l (sw_cache w) of
             (Some _, f) \<Rightarrow> w\<lparr>sw_cache := f, sw_fails := sw_fails w + 1\<rparr>
           | (None, f) \<Rightarrow> w\<lparr>sw_cache := f, sw_fails := 0\<rparr>)"

text \<open>
  The goroutine of the worker: one synchronisation at the start, then one for each tick until it is stopped.
\<close>

datatype worker_event = SyncTick | StopWorker

fun worker_step ::
  "'p cert_cache \<Rightarrow> 'l local_dir \<Rightarrow> ('p, 'l) CertSyncWorker \<times> bool \<Rightarrow> worker_event \<Rightarrow> ('p, 'l) CertSyncWorker \<times> bool" where
  "worker_step p l (w, running) SyncTick = (if running then (runSync p l w, running) else (w, running))"
| "worker_step p l (w, running) StopWorker = (w, False)"

definition startWorker :: "'p cert_cache \<Rightarrow> 'l local_dir \<Rightarrow> ('p, 'l) FallbackCache \<Rightarrow> ('p, 'l) CertSyncWorker \<times> bool" where
  "startWorker p l f = (runStartupSync p l \<lparr>sw_cache = f, sw_fails = 0\<rparr>, True)"

section \<open>Handshakes\<close>

datatype tls_error =
    ErrMissingServerName
  | ErrHostNotAllowed string
  | ErrCertificateUnavailable string goerror

definition isIPAddress :: "string \<Rightarrow> bool" where
  "isIPAddress host \<longleftrightarrow> ParseIP host \<noteq> None"

definition defaultDomainFor :: "string \<Rightarrow> string list \<Rightarrow> string" where
  "defaultDomainFor configured domains =
     (if configured = [] \<and> domains \<noteq> [] then hd domains else configured)"

text \<open>
  The manager as the configuration makes it: its storage, whether only the leader writes, its domains.
  \<open>createS3\<close> is the error of the set-up of the bucket, if any. No manager is made unless certificates
  come from the ACME service.
\<close>

datatype cert_storage = HybridStorage string duration | FileStorage string

record Manager =
  mg_storage :: cert_storage
  mg_leaderOnly :: bool
  mg_domains :: "string list"
  mg_defaultDomain :: string

definition NewManager :: "goerror option \<Rightarrow> bool \<Rightarrow> TLSConfig \<Rightarrow> goerror + Manager option" where
  "NewManager createS3 hasLeader cfg =
     (let le = LetsEncrypt cfg;
          make = (\<lambda>st. Inr (Some \<lparr>mg_storage = st, mg_leaderOnly = hasLeader, mg_domains = LEDomains le,
                    mg_defaultDomain = defaultDomainFor (LEDefaultDomain le) (LEDomains le)\<rparr>))
      in if \<not> TLSEnabled cfg \<or> TLSProvider cfg \<noteq> ''letsencrypt'' then Inr None
         else if StorageProvider le = ''s3'' then
           (case createS3 of
              Some err \<Rightarrow> Inl err
            | None \<Rightarrow>
                make (HybridStorage (if CacheDir le = [] then ''cert-cache'' else CacheDir le)
                  (if SyncIntervalMinutes le = 0 then 5 * Minute else SyncIntervalMinutes le * Minute)))
         else if StorageProvider le = ''file'' then make (FileStorage (CacheDir le))
         else Inl (ErrText (''unsupported storage provider: '' @ StorageProvider le)))"

text \<open>\<open>hostPolicy\<close> is the white list of the ACME library, \<open>original\<close> its \<open>GetCertificate\<close> for a server name.\<close>

definition GetCertificate ::
  "string \<Rightarrow> (string \<Rightarrow> goerror option) \<Rightarrow> (string \<Rightarrow> goerror + 'cert) \<Rightarrow> string \<Rightarrow> tls_error + 'cert" where
  "GetCertificate defaultDomain hostPolicy original serverName0 =
     (if serverName0 = [] \<and> defaultDomain = [] then Inl ErrMissingServerName
      else
        let serverName = ToLower (if serverName0 = [] then defaultDomain else serverName0) in
        if isIPAddress serverName then Inl (ErrHostNotAllowed ''IP addresses not supported (use domain name)'')
        else case hostPolicy serverName of
          Some _ \<Rightarrow> Inl (ErrHostNotAllowed serverName)
        | None \<Rightarrow>
            (case original serverName of
               Inl err \<Rightarrow> Inl (ErrCertificateUnavailable serverName err)
             | Inr cert \<Rightarrow> Inr cert))"

text \<open>The validation of the bucket: up to five attempts, the backoff may be cut by the end of the context.\<close>

fun headBucketRetry :: "(nat \<Rightarrow> goerror option) \<Rightarrow> (nat \<Rightarrow> goerror option) \<Rightarrow> nat \<Rightarrow> nat \<Rightarrow> goerror option \<Rightarrow> goerror option" where
  "headBucketRetry head ctxDoneAt 0 attempt err =
     map_option (wrapErr ''S3 bucket validation failed after 5 attempts: '') err"
| "headBucketRetry head ctxDoneAt (Suc left) attempt err =
     (case (if attempt > 0 then ctxDoneAt attempt else None) of
        Some e \<Rightarrow> Some (wrapErr ''S3 bucket validation cancelled during retry backoff: '' e)
      | None \<Rightarrow>
          (case head attempt of
             None \<Rightarrow> None
           | Some e \<Rightarrow> headBucketRetry head ctxDoneAt left (Suc attempt) (Some e)))"

record certificate =
  cert_NotBefore :: gotime
  cert_NotAfter :: gotime

record CertificateInfo =
  ci_Domain :: string
  ci_NotBefore :: gotime
  ci_NotAfter :: gotime
  ci_DaysUntilExpiry :: int
  ci_IsExpired :: bool
  ci_Error :: "goerror option"

definition noCertInfo :: "string \<Rightarrow> CertificateInfo" where
  "noCertInfo domain = \<lparr>ci_Domain = domain, ci_NotBefore = 0, ci_NotAfter = 0, ci_DaysUntilExpiry = 0, ci_IsExpired = False,
     ci_Error = None\<rparr>"

text \<open>
  The leaf of a certificate: parsed already, to be parsed from the first block, or absent. Days are
  truncated towards zero.
\<close>

datatype cert_leaf = Leaf certificate | Block "goerror + certificate" | NoLeaf

definition truncDays :: "duration \<Rightarrow> int" where
  "truncDays d = (if d \<ge> 0 then d div (24 * Hour) else - ((- d) div (24 * Hour)))"

definition GetCertificateInfo :: "bool \<Rightarrow> (string \<Rightarrow> goerror + cert_leaf) \<Rightarrow> gotime \<Rightarrow> string \<Rightarrow> CertificateInfo" where
  "GetCertificateInfo ready getCert now domain =
     (let fill = (\<lambda>c. (noCertInfo domain)\<lparr>ci_NotBefore := cert_NotBefore c, ci_NotAfter := cert_NotAfter c,
                    ci_DaysUntilExpiry := truncDays (cert_NotAfter c - now), ci_IsExpired := now > cert_NotAfter c\<rparr>)
      in if \<not> ready then (noCertInfo domain)\<lparr>ci_Error := Some (ErrText ''TLS manager not initialized'')\<rparr>
         else case getCert domain of
           Inl err \<Rightarrow> (noCertInfo domain)\<lparr>ci_Error := Some (wrapErr ''failed to get certificate: '' err)\<rparr>
         | Inr (Leaf c) \<Rightarrow> fill c
         | Inr (Block (Inr c)) \<Rightarrow> fill c
         | Inr (Block (Inl err)) \<Rightarrow> (noCertInfo domain)\<lparr>ci_Error := Some (wrapErr ''failed to parse certificate: '' err)\<rparr>
         | Inr NoLeaf \<Rightarrow> noCertInfo domain)"

text \<open>What the check of the configured domains reports.\<close>

datatype cert_alert = CheckFailed goerror | CertExpired gotime | ExpiringSoon int

definition certAlert :: "CertificateInfo \<Rightarrow> cert_alert option" where
  "certAlert info =
     (case ci_Error info of
        Some err \<Rightarrow> Some (CheckFailed err)
      | None \<Rightarrow>
          if ci_IsExpired info then Some (CertExpired (ci_NotAfter info))
          else if ci_DaysUntilExpiry info \<le> 30 then Some (ExpiringSoon (ci_DaysUntilExpiry info))
          else None)"

definition CheckCertificates ::
  "Manager option \<Rightarrow> (string \<Rightarrow> goerror + cert_leaf) \<Rightarrow> gotime \<Rightarrow> (string \<times> cert_alert) list" where
  "CheckCertificates m getCert now =
     (case m of
        None \<Rightarrow> []
      | Some mg \<Rightarrow>
          List.map_filter (\<lambda>domain. map_option (Pair domain) (certAlert (GetCertificateInfo True getCert now domain))) (mg_domains mg))"

text \<open>The handler for ACME challenges: the one of the library, or the fallback if there is no manager.\<close>

datatype 'h challenge_handler = AutocertHandler 'h | PlainHandler 'h

definition HTTPHandler :: "Manager option \<Rightarrow> 'h \<Rightarrow> 'h challenge_handler" where
  "HTTPHandler m fallback = (case m of None \<Rightarrow> PlainHandler fallback | Some _ \<Rightarrow> AutocertHandler fallback)"

text \<open>The settings of the client of the bucket: what the configuration overrides of the defaults of the AWS library.\<close>

record s3_settings =
  ss_Region :: "string option"
  ss_Credentials :: "(string \<times> string) option"
  ss_Endpoint :: "string option"
  ss_PathStyle :: bool

definition s3Settings :: "S3Config \<Rightarrow> s3_settings" where
  "s3Settings c =
     \<lparr>ss_Region = (if S3Region c \<noteq> [] then Some (S3Region c) else None),
      ss_Credentials = (if S3AccessKey c \<noteq> [] \<and> S3SecretKey c \<noteq> [] then Some (S3AccessKey c, S3SecretKey c) else None),
      ss_Endpoint = (if S3Endpoint c \<noteq> [] then Some (S3Endpoint c) else None),
      ss_PathStyle = (S3Endpoint c \<noteq> [])\<rparr>"

definition createS3Cache ::
  "goerror option \<Rightarrow> (s3_settings \<Rightarrow> string \<Rightarrow> nat \<Rightarrow> goerror option) \<Rightarrow> (nat \<Rightarrow> goerror option) \<Rightarrow> LetsEncryptConfig
     \<Rightarrow> goerror + (s3_settings \<times> string \<times> string)" where
  "createS3Cache loadErr head ctxDoneAt le =
     (case loadErr of
        Some err \<Rightarrow> Inl (wrapErr ''failed to load AWS config: '' err)
      | None \<Rightarrow>
          let settings = s3Settings (S3 le) in
          (case headBucketRetry (head settings (S3Bucket (S3 le))) ctxDoneAt 5 0 None of
             Some err \<Rightarrow> Inl err
           | None \<Rightarrow> Inr (settings, S3Bucket (S3 le), S3Prefix (S3 le))))"

section \<open>Instances of the interface\<close>

definition bucketHolds :: "string \<Rightarrow> MockS3Client \<Rightarrow> string \<Rightarrow> string option" where
  "bucketHolds keyPrefix m k = map_of (ms_Storage m) (keyPrefix @ k)"

definition bucketValid :: "MockS3Client \<Rightarrow> bool" where
  "bucketValid m \<longleftrightarrow> ms_GetErr m \<noteq> Some cacheMiss"

interpretation bucket: cert_store "S3Cache mockS3 b keyPrefix" "bucketHolds keyPrefix" bucketValid for b keyPrefix
  by unfold_locales
    (auto simp: S3Cache_def S3Cache_Get_def S3Cache_Put_def S3Cache_Delete_def mockS3_def bucketHolds_def bucketValid_def
       fun_eq_iff update_conv' delete_conv' split: option.splits prod.splits sum.splits s3_error.splits)

text \<open>The cache of the leader keeps the contract of the cache below it, on the leader and elsewhere.\<close>

locale leader_cache = cert_store +
  fixes isLeader :: bool
begin

lemma follower_writes_nothing:
  "\<not> isLeader \<Longrightarrow> cachePut (ClusterAwareCache isLeader ops) k v c = (Some (ErrText ''only cluster leader can request new certificates''), c)
     \<and> cacheDelete (ClusterAwareCache isLeader ops) k c = (Some (ErrText ''only cluster leader can delete certificates''), c)"
  by (simp add: ClusterAwareCache_def ClusterCache_Put_def ClusterCache_Delete_def)

end

sublocale leader_cache \<subseteq> gated: cert_store "ClusterAwareCache isLeader ops" holds valid
  by unfold_locales
    (auto simp: ClusterAwareCache_def ClusterCache_Get_def ClusterCache_Put_def ClusterCache_Delete_def get_keeps get_hit
      get_miss put_ok put_other delete_ok delete_other valid_get valid_put valid_delete split: if_splits)

interpretation shared: leader_cache "S3Cache mockS3 b keyPrefix" "bucketHolds keyPrefix" bucketValid isLeader
  for b keyPrefix isLeader
  by unfold_locales

section \<open>The two tiers\<close>

text \<open>A cache that answers every request: an entry or a miss.\<close>

definition answers :: "'c cert_cache \<Rightarrow> bool" where
  "answers p \<longleftrightarrow> (\<forall>k c err. fst (cacheGet p k c) = Inl err \<longrightarrow> err = cacheMiss)"

locale two_tier = primary: cert_store p hp vp + fallback: cert_store "ld_cache l" hl vl
  for p :: "'p cert_cache" and hp vp and l :: "'l local_dir" and hl vl
begin

lemma putFallback_kept:
  assumes "putFallback l k v e f = (None, f')"
  shows "hl (fc_fallback f') k = Some v \<and> fc_needsSync f' \<and> fc_tasks f' = fc_tasks f @ [SyncS3 k v]"
  using assms fallback.put_ok [of k v "fc_fallback f"]
  by (auto simp: putFallback_def Let_def split: prod.splits option.splits)

lemma put_kept:
  assumes "Fallback_Put p l t t' k v f = (None, f')"
  shows "hp (fc_primary f') k = Some v \<or> hl (fc_fallback f') k = Some v \<and> fc_needsSync f'"
proof (cases "isS3Available t f \<and> fst (cachePut p k v (fc_primary f)) = None")
  case True
  then obtain s3 where put: "cachePut p k v (fc_primary f) = (None, s3)" by (metis prod.collapse)
  with primary.put_ok [of k v "fc_primary f"] have "hp s3 k = Some v" by simp
  moreover have "fc_primary f' = s3" using assms True put by (auto simp: Fallback_Put_def markS3Available_def Let_def)
  ultimately show ?thesis by simp
next
  case False
  then obtain e g where "putFallback l k v e g = (None, f')"
    using assms by (auto simp: Fallback_Put_def split: if_splits prod.splits option.splits)
  then show ?thesis using putFallback_kept by blast
qed

lemma get_found:
  assumes "Fallback_Get p l t t' k f = (Inr v, f')"
  shows "hl (fc_fallback f) k = Some v \<or> hp (fc_primary f) k = Some v"
  using assms fallback.get_hit [of k "fc_fallback f" v] primary.get_hit [of k "fc_primary f" v]
  by (auto simp: Fallback_Get_def Let_def split: prod.splits sum.splits if_splits)

text \<open>
  The synchronisation: a file that does not fail is in the bucket afterwards, if the bucket answers; other
  files are left alone.
\<close>

lemma uploadFile_spec:
  "(fst (uploadFile p name data s3) = 0 \<longrightarrow> hp (snd (uploadFile p name data s3)) name = Some data)
   \<and> (name' \<noteq> name \<longrightarrow> hp (snd (uploadFile p name data s3)) name' = hp s3 name')"
  using primary.put_ok [of name data s3] primary.put_other [of name' name data s3]
  by (auto simp: uploadFile_def split: prod.splits option.splits)

lemma syncFile_spec:
  assumes "answers p" and "fst (syncFile p readFile name s3) = 0"
  shows "\<exists>data. readFile name = Inr data \<and> hp (snd (syncFile p readFile name s3)) name = Some data"
proof -
  obtain data where data: "readFile name = Inr data" using assms(2) by (cases "readFile name") (auto simp: syncFile_def)
  obtain r s3' where get: "cacheGet p name s3 = (r, s3')" by force
  have "hp s3' = hp s3" using primary.get_keeps [of name s3] get by simp
  moreover have "r = Inr v \<Longrightarrow> hp s3 name = Some v" for v using primary.get_hit [of name s3 v] get by simp
  moreover have "r = Inl err \<Longrightarrow> err = cacheMiss" for err using assms(1) get by (metis answers_def fst_conv)
  ultimately show ?thesis
    using assms(2) data get uploadFile_spec [of name data s3'] by (cases r) (auto simp: syncFile_def split: if_splits)
qed

lemma syncFile_other: "name' \<noteq> name \<Longrightarrow> hp (snd (syncFile p readFile name s3)) name' = hp s3 name'"
  using primary.get_keeps [of name s3] uploadFile_spec [of name _ "snd (cacheGet p name s3)" name']
  by (auto simp: syncFile_def split: sum.splits prod.splits)

lemma syncEntries_other: "name \<notin> fst ` set es \<Longrightarrow> hp (snd (syncEntries p readFile es n s3)) name = hp s3 name"
  by (induction es arbitrary: n s3) (auto simp: syncFile_other split: prod.split dest: arg_cong [where f = snd],
      metis snd_conv syncFile_other)

lemma syncEntries_failed: "n \<le> fst (syncEntries p readFile es n s3)"
proof (induction es arbitrary: n s3)
  case (Cons e es)
  obtain name d where e: "e = (name, d)" by force
  obtain m s3' where f: "syncFile p readFile name s3 = (m, s3')" by force
  show ?case using Cons [of "n + m" s3'] Cons [of n s3] by (auto simp: e f)
qed simp

lemma syncEntries_complete:
  assumes "answers p" and "distinct (map fst es)"
    and "fst (syncEntries p readFile es 0 s3) = 0" and "(name, False) \<in> set es"
  shows "\<exists>data. readFile name = Inr data \<and> hp (snd (syncEntries p readFile es 0 s3)) name = Some data"
  using assms(2-)
proof (induction es arbitrary: s3)
  case (Cons e es)
  obtain name0 d where e: "e = (name0, d)" by force
  show ?case
  proof (cases d)
    case True
    with Cons e show ?thesis by simp
  next
    case False
    obtain m s3' where f: "syncFile p readFile name0 s3 = (m, s3')" by force
    then have m: "m = 0" using Cons.prems(2) syncEntries_failed [of m readFile es s3'] False by (simp add: e)
    show ?thesis
    proof (cases "name = name0")
      case True
      then have "hp (snd (syncEntries p readFile es 0 s3')) name = hp s3' name"
        using Cons.prems(1) by (intro syncEntries_other) (auto simp: e)
      moreover have "\<exists>data. readFile name = Inr data \<and> hp s3' name = Some data"
        using syncFile_spec [OF assms(1), of readFile name s3] f m True by simp
      ultimately show ?thesis using False f m by (simp add: e)
    next
      case other: False
      with Cons.IH [of s3'] Cons.prems False f m show ?thesis by (auto simp: e)
    qed
  qed
qed simp

lemma SyncAll_complete:
  assumes "answers p" and "ld_list l (fc_fallback f) = DirEntries es" and "distinct (map fst es)" and "SyncAllToS3 p l f = (None, f')"
  shows "\<not> fc_needsSync f'
    \<and> (\<forall>name. (name, False) \<in> set es \<longrightarrow>
         (\<exists>data. ld_read l (fc_fallback f) name = Inr data \<and> hp (fc_primary f') name = Some data))"
proof -
  obtain n s3 where sy: "syncEntries p (ld_read l (fc_fallback f)) es 0 (fc_primary f) = (n, s3)" by force
  with assms(2,4) have "n = 0" "f' = f\<lparr>fc_primary := s3, fc_needsSync := False\<rparr>"
    by (auto simp: SyncAllToS3_def split: if_splits)
  with syncEntries_complete [OF assms(1,3), of "ld_read l (fc_fallback f)" "fc_primary f"] sy show ?thesis by auto
qed

end

text \<open>
  A directory in memory, and the hybrid cache on the bucket in memory.
\<close>

type_synonym files = "(string \<times> string) list"

definition memDir :: "files local_dir" where
  "memDir =
     \<lparr>ld_cache =
        \<lparr>cacheGet = (\<lambda>k c. (case map_of c k of Some v \<Rightarrow> Inr v | None \<Rightarrow> Inl cacheMiss, c)),
         cachePut = (\<lambda>k v c. (None, AList.update k v c)),
         cacheDelete = (\<lambda>k c. (None, AList.delete k c))\<rparr>,
      ld_list = (\<lambda>c. DirEntries (map (\<lambda>(k, v). (k, False)) c)),
      ld_read = (\<lambda>c k. case map_of c k of Some v \<Rightarrow> Inr v | None \<Rightarrow> Inl (ErrText ''no such file''))\<rparr>"

interpretation hybrid: two_tier "S3Cache mockS3 b keyPrefix" "bucketHolds keyPrefix" bucketValid memDir map_of "\<lambda>_. True"
  for b keyPrefix
  by unfold_locales (auto simp: memDir_def update_conv' delete_conv' split: option.splits)

section \<open>The breaker\<close>

text \<open>
  While the breaker is open the bucket is not used; it opens with a failure and closes after the interval.
\<close>

lemma breaker_open:
  assumes "\<not> isS3Available t f"
  shows "fc_primary (snd (Fallback_Get p l t t' k f)) = fc_primary f \<and> fc_primary (snd (Fallback_Put p l t t' k v f)) = fc_primary f
    \<and> fc_primary (snd (Fallback_Delete p l t t' k f)) = fc_primary f \<and> syncToS3 p t t' k v f = f"
proof -
  have "\<not> isS3Available t (f\<lparr>fc_fallback := loc\<rparr>)" for loc using assms by (simp add: isS3Available_def)
  with assms show ?thesis
    by (auto simp: Fallback_Get_def Fallback_Put_def putFallback_def Fallback_Delete_def syncToS3_def Let_def
        split: prod.splits sum.splits option.splits)
qed

lemma breaker_times: "isS3Available t (markS3Unavailable t' f) \<longleftrightarrow> t \<ge> t' + fc_checkInterval f"
  by (auto simp: isS3Available_def markS3Unavailable_def)

text \<open>
  The flag that certificates wait for the bucket is cleared also if the bucket could not be asked: the
  certificate below is in the directory only, and no later round of the worker looks at it.
\<close>

lemma sync_flag_cleared_without_upload:
  "let f = \<lparr>fc_primary = NewMockS3Client\<lparr>ms_GetErr := Some (ErrText ''timeout'')\<rparr>, fc_fallback = [(''a.b'', ''cert'')],
            fc_s3Available = True, fc_needsSync = True, fc_lastS3Check = 0, fc_checkInterval = 30 * Second,
            fc_consecutiveFails = 0, fc_tasks = []\<rparr>;
       w = runSync (S3Cache mockS3 b []) memDir \<lparr>sw_cache = f, sw_fails = 0\<rparr>
   in \<not> fc_needsSync (sw_cache w) \<and> bucketHolds [] (fc_primary (sw_cache w)) ''a.b'' = None
      \<and> (\<forall>p. runSync p memDir w = w)"
  by (simp add: runSync_def NeedsSync_def SyncAllToS3_def memDir_def syncFile_def S3Cache_def S3Cache_Get_def mockS3_def
      NewMockS3Client_def bucketHolds_def)

text \<open>Only the leader of a cluster can write a certificate.\<close>

lemma single_writer:
  assumes "same_view names node" and "n \<in> set names" "n \<noteq> Min (set names)"
  shows "ClusterCache_Put (IsLeader (updateLeader (node n))) ops name data c
    = (Some (ErrText ''only cluster leader can request new certificates''), c)"
  using same_view_leader [OF assms(1,2)] assms(3) by (simp add: ClusterCache_Put_def)

text \<open>The library is asked for a certificate only for an allowed host name in lower case that is no IP address.\<close>

lemma handshake_guard:
  assumes "\<And>s. hostPolicy s = None \<Longrightarrow> ToLower s = s \<Longrightarrow> \<not> isIPAddress s \<Longrightarrow> s \<noteq> [] \<Longrightarrow> original s = original' s"
    and "ToLower defaultDomain \<noteq> [] \<or> defaultDomain = []"
  shows "GetCertificate defaultDomain hostPolicy original name = GetCertificate defaultDomain hostPolicy original' name"
  using assms by (auto simp: GetCertificate_def Let_def ToLower_idem split: option.splits)

text \<open>
  The bucket is taken only after it has answered: in one of at most five attempts, with no end of the context in a backoff
  before it.
\<close>

lemma headBucketRetry_None:
  assumes "headBucketRetry head ctxDoneAt left attempt err = None" and "err = None \<longrightarrow> left > 0"
  shows "\<exists>i. attempt \<le> i \<and> i < attempt + left \<and> head i = None \<and> (\<forall>j. attempt \<le> j \<and> j \<le> i \<and> j > 0 \<longrightarrow> ctxDoneAt j = None)"
  using assms
proof (induction head ctxDoneAt left attempt err rule: headBucketRetry.induct)
  case (2 head ctxDoneAt left attempt err)
  show ?case
  proof (cases "head attempt")
    case None
    with 2 show ?thesis by (intro exI [of _ attempt]) (auto split: if_splits option.splits)
  next
    case (Some e)
    with 2 obtain i where i: "Suc attempt \<le> i" "i < Suc attempt + left" "head i = None"
      "\<forall>j. Suc attempt \<le> j \<and> j \<le> i \<and> j > 0 \<longrightarrow> ctxDoneAt j = None"
      by (auto split: if_splits option.splits)
    have "attempt > 0 \<longrightarrow> ctxDoneAt attempt = None" using 2(2) by (auto split: option.splits)
    with i(4) have "\<forall>j. attempt \<le> j \<and> j \<le> i \<and> j > 0 \<longrightarrow> ctxDoneAt j = None" by (metis Suc_leI le_neq_implies_less)
    with i show ?thesis by (intro exI [of _ i]) auto
  qed
qed auto

lemma bucket_validated:
  assumes "createS3Cache loadErr head ctxDoneAt le = Inr (settings, b, keyPrefix)"
  shows "b = S3Bucket (S3 le) \<and> settings = s3Settings (S3 le) \<and> (\<exists>i < 5. head settings b i = None)"
  using assms headBucketRetry_None [of "head (s3Settings (S3 le)) (S3Bucket (S3 le))" ctxDoneAt 5 0 None]
  by (auto simp: createS3Cache_def Let_def split: option.splits)

text \<open>After a stop, ticks have no effect.\<close>

lemma stopped_worker:
  "foldl (worker_step p l) (worker_step p l s StopWorker) es = (fst s, False)"
proof -
  have "foldl (worker_step p l) (w, False) es = (w, False)" for w
  proof (induction es arbitrary: w)
    case (Cons e es)
    then show ?case by (cases e) simp_all
  qed simp
  then show ?thesis by (cases s) simp
qed

section \<open>Properties\<close>


definition sample_outage :: "(MockS3Client, files) FallbackCache" where
  "sample_outage = NewFallbackCache (NewMockS3Client\<lparr>ms_PutErr := Some (ErrText ''timeout'')\<rparr>) []"


end
