(* ===== verification/Server_Main.thy ===== *)
theory Server_Main
  imports HTTP_Server Cert_Cache
begin

text \<open>
  The process around the server, the rest of \<^verbatim>\<open>main\<close> in \<^verbatim>\<open>cmd/strela-server/main.go\<close>: joining the cluster, the TLS manager,
  the listeners for metrics and administration, and the shutdown that drains the deliveries in progress. Sockets
  are known by the address that they are bound to; signals and the clock are steps.
\<close>

section \<open>Start of the process\<close>

record process_env =
  pe_startup :: startup
  pe_secretEnv :: string
  pe_gossipDefaults :: memberlist_config
  pe_gossipCreate :: "memberlist_config \<Rightarrow> goerror + membership"
  pe_gossipJoin :: "string list \<Rightarrow> membership \<Rightarrow> membership"
  pe_awsErr :: "goerror option"
  pe_headBucket :: "s3_settings \<Rightarrow> string \<Rightarrow> nat \<Rightarrow> goerror option"
  pe_headCtx :: "nat \<Rightarrow> goerror option"

definition clusterKey :: "process_env \<Rightarrow> ClusterConfig \<Rightarrow> goerror + string" where
  "clusterKey env c =
     (let secretKeyStr = (if pe_secretEnv env = [] then ClusterSecretKey c else pe_secretEnv env) in
      if secretKeyStr = [] then Inr [] else DecodeSecretKey secretKeyStr)"

definition startCluster :: "process_env \<Rightarrow> ClusterConfig \<Rightarrow> goerror + Cluster option" where
  "startCluster env c =
     (if \<not> ClusterEnabled c then Inr None
      else case clusterKey env c of
        Inl err \<Rightarrow> Inl err
      | Inr secretKey \<Rightarrow>
          let nodeID = (if NodeID c = [] then su_hostname (pe_startup env) else NodeID c) in
          (case NewCluster (pe_gossipDefaults env) (pe_gossipCreate env) (pe_gossipJoin env)
                  \<lparr>cc_NodeName = nodeID, cc_BindAddr = GetBindAddr c, cc_BindPort = GetBindPort c, cc_Peers = ClusterPeers c,
                   cc_SecretKey = secretKey\<rparr> of
             Inl err \<Rightarrow> Inl err
           | Inr cl \<Rightarrow> Inr (Some cl)))"

definition startTLS :: "process_env \<Rightarrow> bool \<Rightarrow> TLSConfig \<Rightarrow> goerror + Manager option" where
  "startTLS env clustered c =
     (if TLSEnabled c then
        NewManager (case createS3Cache (pe_awsErr env) (pe_headBucket env) (pe_headCtx env) (LetsEncrypt c) of
                      Inl err \<Rightarrow> Some err
                    | Inr _ \<Rightarrow> None) clustered c
      else Inr None)"

datatype listen_mode = ServeACME Manager | ServeFiles string string | ServePlain

definition listenMode :: "TLSConfig \<Rightarrow> Manager option \<Rightarrow> listen_mode" where
  "listenMode c tlsManager =
     (case tlsManager of
        Some m \<Rightarrow> if TLSEnabled c \<and> TLSProvider c = ''letsencrypt'' then ServeACME m
                 else if TLSEnabled c \<and> TLSProvider c = ''file'' then ServeFiles (CertFile c) (KeyFile c) else ServePlain
      | None \<Rightarrow> if TLSEnabled c \<and> TLSProvider c = ''file'' then ServeFiles (CertFile c) (KeyFile c) else ServePlain)"

record process =
  pr_server :: http_server
  pr_cluster :: "Cluster option"
  pr_tls :: "Manager option"
  pr_listen :: listen_mode
  pr_metrics :: "string option"
  pr_admin :: "string option"
  pr_challenge :: "string challenge_handler option"
  pr_started :: gotime

abbreviation pr_config :: "process \<Rightarrow> Config" where
  "pr_config pr \<equiv> h_config (sv_handler (pr_server pr))"

definition startProcess :: "process_env \<Rightarrow> gotime \<Rightarrow> string \<Rightarrow> goerror + process" where
  "startProcess env now path =
     (case startServer (pe_startup env) path of
        Inl err \<Rightarrow> Inl err
      | Inr sv \<Rightarrow>
          let cfg = h_config (sv_handler sv) in
          (case startCluster env (Cluster cfg) of
             Inl err \<Rightarrow> Inl err
           | Inr clusterMgr \<Rightarrow>
               (case startTLS env (clusterMgr \<noteq> None) (TLS cfg) of
                  Inl err \<Rightarrow> Inl err
                | Inr tlsManager \<Rightarrow>
                    Inr \<lparr>pr_server = sv, pr_cluster = clusterMgr, pr_tls = tlsManager,
                         pr_listen = listenMode (TLS cfg) tlsManager,
                         pr_metrics = (if MetricsEnabled (Metrics cfg) then Some (MetricsBind (Metrics cfg)) else None),
                         pr_admin = (if AdminEnabled (Admin cfg) then Some (AdminBind (Admin cfg)) else None),
                         pr_challenge = (if TLSEnabled (TLS cfg) then Some (HTTPHandler tlsManager ''DefaultServeMux'') else None), pr_started = now\<rparr>)))"

section \<open>The auxiliary listeners\<close>

datatype aux_answer = AuxCode int | AuxHealth HealthResponse | AuxReputation ReputationResponse | AuxMetrics

definition clusterInfo :: "process \<Rightarrow> (int \<times> string) option" where
  "clusterInfo pr =
     (case pr_cluster pr of
        None \<Rightarrow> None
      | Some c \<Rightarrow> (case NumMembers c of None \<Rightarrow> None | Some n \<Rightarrow> Some (int n, GetLeader c)))"

definition statusMux ::
  "gotime \<Rightarrow> runtime_stats \<Rightarrow> ((string \<times> DegradedIPInfo) list \<Rightarrow> (string \<times> DegradedIPInfo) list) \<Rightarrow> string \<Rightarrow> string \<Rightarrow> process \<Rightarrow> aux_answer option" where
  "statusMux now rt order meth path pr =
     (if path = ''/health'' then
        Some (case ServeHealth (pr_started pr) now rt (clusterInfo pr) meth of Inl code \<Rightarrow> AuxCode code | Inr h \<Rightarrow> AuxHealth h)
      else if path = ''/reputation'' then
        Some (case ServeReputation order meth (sv_engine (pr_server pr)) of Inl code \<Rightarrow> AuxCode code | Inr h \<Rightarrow> AuxReputation h)
      else None)"

text \<open>The metrics listener asks for no credentials; its path for the metrics is not one of the two status paths.\<close>

definition serveMetrics ::
  "gotime \<Rightarrow> runtime_stats \<Rightarrow> ((string \<times> DegradedIPInfo) list \<Rightarrow> (string \<times> DegradedIPInfo) list) \<Rightarrow> string \<Rightarrow> http_request \<Rightarrow> process \<Rightarrow> aux_answer" where
  "serveMetrics now rt order path r pr =
     (case statusMux now rt order (hr_Method r) path pr of
        Some a \<Rightarrow> a
      | None \<Rightarrow> if MetricsPath (Metrics (pr_config pr)) \<noteq> [] \<and> path = MetricsPath (Metrics (pr_config pr)) then AuxMetrics else AuxCode 404)"

definition serveAdmin ::
  "gotime \<Rightarrow> runtime_stats \<Rightarrow> ((string \<times> DegradedIPInfo) list \<Rightarrow> (string \<times> DegradedIPInfo) list) \<Rightarrow> string \<Rightarrow> http_request \<Rightarrow> process \<Rightarrow> aux_answer" where
  "serveAdmin now rt order path r pr =
     (let a = Admin (pr_config pr);
          mux = (case statusMux now rt order (hr_Method r) path pr of Some ans \<Rightarrow> ans | None \<Rightarrow> AuxCode 404)
      in if AdminUsername a \<noteq> [] \<and> AdminPassword a \<noteq> [] then
           (case basicAuthMiddleware (AdminUsername a) (AdminPassword a) r of Respond code _ \<Rightarrow> AuxCode code | Pass \<Rightarrow> mux)
         else mux)"

section \<open>Shutdown\<close>

text \<open>
  The phases of the process: serving, draining until a deadline, closing, exited. The requests in progress have a
  number and the time of their start; \<open>ps_cut\<close> are the requests that were given up.
\<close>

datatype phase = Serving | Draining gotime | Closing | Exited

record process_state =
  ps_process :: process
  ps_phase :: phase
  ps_flight :: "(nat \<times> gotime) list"
  ps_now :: gotime
  ps_cut :: "nat list"

definition drainTimeout :: "Config \<Rightarrow> duration" where
  "drainTimeout cfg = MaxTotalDeliverySeconds (Outbound cfg) * Second + 30 * Second"

text \<open>The last steps, with the deferred ones: the cluster is left and the log is closed at the end.\<close>

definition closeDown :: "cleanup_clock \<Rightarrow> process \<Rightarrow> process" where
  "closeDown clk pr =
     (let sv = pr_server pr in
      pr\<lparr>pr_metrics := None, pr_admin := None, pr_challenge := None,
         pr_server := sv\<lparr>sv_engine := Stop clk (sv_engine sv), sv_files := snd (LogWriter_Close (sv_log sv) (sv_files sv))\<rparr>,
         pr_cluster := map_option (\<lambda>c. snd (Cluster_Shutdown None None c)) (pr_cluster pr)\<rparr>)"

text \<open>What else goes on while requests are in progress: the signal for a reload and the background work.\<close>

fun background :: "server_op \<Rightarrow> bool" where
  "background (Request env remote now path r) = False"
| "background (Shutdown clk) = False"
| "background op = True"

text \<open>
  The steps of the process. Time passes only so far that every request in progress is answered at most \<open>bound\<close> after its
  start: the deadline of its context ends a delivery.
\<close>

inductive process_step :: "duration \<Rightarrow> process_state \<Rightarrow> process_state \<Rightarrow> bool" for bound where
  accept: "ps_phase s = Serving \<Longrightarrow> process_step bound s (s\<lparr>ps_flight := (i, ps_now s) # ps_flight s\<rparr>)"
| answer: "ps_phase s \<noteq> Exited \<Longrightarrow> e \<in> set (ps_flight s) \<Longrightarrow>
     process_step bound s (s\<lparr>ps_flight := remove1 e (ps_flight s), ps_process := (ps_process s)
       \<lparr>pr_server := snd (serve env remote (ps_now s) path r (pr_server (ps_process s)))\<rparr>\<rparr>)"
| work: "ps_phase s \<noteq> Exited \<Longrightarrow> background op \<Longrightarrow>
     process_step bound s (s\<lparr>ps_process := (ps_process s)\<lparr>pr_server := server_step (pr_server (ps_process s)) op\<rparr>\<rparr>)"
| wait: "ps_now s \<le> t \<Longrightarrow> \<forall>(i, start) \<in> set (ps_flight s). t \<le> start + bound \<Longrightarrow> process_step bound s (s\<lparr>ps_now := t\<rparr>)"
| signal: "ps_phase s = Serving \<Longrightarrow>
     process_step bound s (s\<lparr>ps_phase := Draining (ps_now s + drainTimeout (pr_config (ps_process s)))\<rparr>)"
| drained: "ps_phase s = Draining dl \<Longrightarrow> ps_flight s = [] \<Longrightarrow> process_step bound s (s\<lparr>ps_phase := Closing\<rparr>)"
| give_up: "ps_phase s = Draining dl \<Longrightarrow> dl \<le> ps_now s \<Longrightarrow>
     process_step bound s (s\<lparr>ps_phase := Closing, ps_flight := [], ps_cut := ps_cut s @ map fst (ps_flight s)\<rparr>)"
| close: "ps_phase s = Closing \<Longrightarrow>
     process_step bound s (s\<lparr>ps_phase := Exited, ps_process := closeDown clk (ps_process s)\<rparr>)"

inductive_cases process_stepE: "process_step bound s s'"

definition launched :: "process \<Rightarrow> process_state" where
  "launched pr = \<lparr>ps_process = pr, ps_phase = Serving, ps_flight = [], ps_now = pr_started pr, ps_cut = []\<rparr>"

section \<open>Lemmas\<close>

lemma startProcess_parts:
  assumes "startProcess env now path = Inr pr"
  shows "startServer (pe_startup env) path = Inr (pr_server pr)"
    and "startCluster env (Cluster (pr_config pr)) = Inr (pr_cluster pr)"
    and "startTLS env (pr_cluster pr \<noteq> None) (TLS (pr_config pr)) = Inr (pr_tls pr)"
    and "pr_listen pr = listenMode (TLS (pr_config pr)) (pr_tls pr)"
    and "pr_challenge pr = (if TLSEnabled (TLS (pr_config pr)) then Some (HTTPHandler (pr_tls pr) ''DefaultServeMux'') else None)"
  using assms by (auto simp: startProcess_def Let_def split: sum.splits)

lemma startProcess_server:
  assumes "startProcess env now path = Inr pr"
  shows "server_inv path (sv_handler (pr_server pr)) (pr_server pr)"
  using startServer_inv [OF startProcess_parts(1) [OF assms]] .

lemma startCluster_present: "startCluster env c = Inr cl \<Longrightarrow> cl \<noteq> None \<longleftrightarrow> ClusterEnabled c"
  by (auto simp: startCluster_def Let_def split: if_splits sum.splits)

lemma NewManager_acme:
  assumes "NewManager e hasLeader c = Inr r" and "TLSEnabled c" "TLSProvider c = ''letsencrypt''"
  shows "\<exists>m. r = Some m \<and> mg_leaderOnly m = hasLeader"
  using assms by (auto simp: NewManager_def Let_def split: if_splits option.splits)

text \<open>
  A started process keeps its promises about TLS: with certificates from the ACME service the listener uses the
  manager, and in a cluster only the leader writes to the storage.
\<close>

lemma started_tls:
  assumes "startProcess env now path = Inr pr" and "TLSEnabled (TLS (pr_config pr))"
    and "TLSProvider (TLS (pr_config pr)) = ''letsencrypt''"
  shows "\<exists>m. pr_tls pr = Some m \<and> pr_listen pr = ServeACME m \<and> mg_leaderOnly m = ClusterEnabled (Cluster (pr_config pr))"
proof -
  note parts = startProcess_parts [OF assms(1)]
  obtain e where "NewManager e (pr_cluster pr \<noteq> None) (TLS (pr_config pr)) = Inr (pr_tls pr)"
    using parts(3) assms(2) by (auto simp: startTLS_def)
  from NewManager_acme [OF this assms(2,3)] startCluster_present [OF parts(2)] parts(4) assms(2,3) show ?thesis
    by (auto simp: listenMode_def)
qed

text \<open>
  With certificates from files there is no manager, but the listener for ACME challenges is opened all the same and
  serves Go's default handler.
\<close>

lemma challenge_without_acme:
  assumes "startProcess env now path = Inr pr" and "TLSEnabled (TLS (pr_config pr))" and "TLSProvider (TLS (pr_config pr)) = ''file''"
  shows "pr_challenge pr = Some (PlainHandler ''DefaultServeMux'')"
proof -
  have "pr_tls pr = None" using startProcess_parts(3) [OF assms(1)] assms(2,3) by (simp add: startTLS_def NewManager_def Let_def)
  with startProcess_parts(5) [OF assms(1)] assms(2) show ?thesis by (simp add: HTTPHandler_def)
qed

lemma admin_needs_credentials:
  assumes "AdminUsername (Admin (pr_config pr)) \<noteq> []" "AdminPassword (Admin (pr_config pr)) \<noteq> []"
    and "BasicAuth r \<noteq> Some (AdminUsername (Admin (pr_config pr)), AdminPassword (Admin (pr_config pr)))"
  shows "serveAdmin now rt order path r pr = AuxCode 401"
  using assms by (auto simp: serveAdmin_def basicAuthMiddleware_def Let_def split: option.splits)

text \<open>What the process has released when it exits.\<close>

definition released :: "process \<Rightarrow> bool" where
  "released pr \<longleftrightarrow> d_stopped (sv_engine (pr_server pr)) \<and> connections (tp_pool (d_transport (sv_engine (pr_server pr)))) = []
     \<and> ft_open (sv_files (pr_server pr)) = [] \<and> pr_metrics pr = None \<and> pr_admin pr = None \<and> pr_challenge pr = None
     \<and> (\<forall>c. pr_cluster pr = Some c \<longrightarrow> cl_done c)"

lemma Shutdown_done [simp]: "cl_done (snd (Cluster_Shutdown leaveErr shutdownErr c))"
  by (simp add: Cluster_Shutdown_def)

lemma closeDown_released:
  assumes "server_inv path h (pr_server pr)"
  shows "released (closeDown clk pr)"
  using assms Close_ok
  by (auto simp: released_def closeDown_def Let_def Stop_def CloseAll_def closeClients_def server_inv_def)

definition process_inv :: "string \<Rightarrow> Handler \<Rightarrow> duration \<Rightarrow> process_state \<Rightarrow> bool" where
  "process_inv path h bound s \<longleftrightarrow> ps_cut s = [] \<and> (\<forall>(i, start) \<in> set (ps_flight s). start \<le> ps_now s \<and> ps_now s \<le> start + bound)
     \<and> (ps_phase s \<noteq> Exited \<longrightarrow> server_inv path h (pr_server (ps_process s)))
     \<and> (case ps_phase s of
          Serving \<Rightarrow> True
        | Draining dl \<Rightarrow> \<forall>(i, start) \<in> set (ps_flight s). start + drainTimeout (h_config h) \<le> dl
        | Closing \<Rightarrow> ps_flight s = []
        | Exited \<Rightarrow> ps_flight s = [] \<and> released (ps_process s))"

lemma process_step_inv:
  assumes "process_step bound s s'" and "process_inv path h bound s" and "0 \<le> bound" "bound < drainTimeout (h_config h)"
  shows "process_inv path h bound s'"
  using assms
proof (induction rule: process_step.induct)
  case (answer s e env remote path' r)
  from answer(3) have flight: "set (remove1 e (ps_flight s)) \<subseteq> set (ps_flight s)" by (rule_tac set_remove1_subset)
  have "server_inv path h (pr_server (ps_process s))" using answer by (simp add: process_inv_def)
  note serve_inv [OF this, of env remote "ps_now s" path' r]
  with answer flight show ?case by (fastforce simp: process_inv_def split: phase.splits)
next
  case (work s op)
  then have "server_inv path h (server_step (pr_server (ps_process s)) op)"
    using server.step_inv by (simp add: process_inv_def)
  with work show ?case by (auto simp: process_inv_def split: phase.splits)
next
  case (signal s)
  then have "sv_handler (pr_server (ps_process s)) = h" by (simp add: process_inv_def server_inv_def)
  with signal show ?case by (fastforce simp: process_inv_def)
next
  case (give_up s dl)
  then have "ps_flight s = []" by (cases "ps_flight s") (auto simp: process_inv_def)
  with give_up show ?case by (simp add: process_inv_def)
next
  case (close s clk)
  then show ?case by (simp add: process_inv_def closeDown_released [where path = path and h = h])
qed (auto simp: process_inv_def split: phase.splits)

lemma process_run_inv:
  assumes "(process_step bound)\<^sup>*\<^sup>* s s'" and "process_inv path h bound s" and "0 \<le> bound" "bound < drainTimeout (h_config h)"
  shows "process_inv path h bound s'"
  using assms by (induction rule: rtranclp_induct) (auto intro: process_step_inv)

section \<open>Property\<close>


definition sample_env :: process_env where
  "sample_env = \<lparr>pe_startup = sample_startup, pe_secretEnv = [], pe_gossipDefaults = \<lparr>mc_Name = [], mc_BindAddr = [], mc_BindPort = 0,
     mc_AdvertiseAddr = [], mc_AdvertisePort = 0, mc_SecretKey = [], mc_GossipVerify = False\<rparr>,
     pe_gossipCreate = (\<lambda>_. Inl (ErrText ''none'')), pe_gossipJoin = (\<lambda>_ ml. ml), pe_awsErr = None,
     pe_headBucket = (\<lambda>_ _ _. None), pe_headCtx = (\<lambda>_. None)\<rparr>"

lemma sample_process:
  obtains pr where "startProcess sample_env 0 ''strela.toml'' = Inr pr" "pr_config pr = sample_loaded" "pr_started pr = 0"
proof -
  obtain sv where sv: "startServer sample_startup ''strela.toml'' = Inr sv" "h_config (sv_handler sv) = sample_loaded"
    by (rule sample_started)
  have "\<not> ClusterEnabled (Cluster sample_loaded)" "\<not> TLSEnabled (TLS sample_loaded)"
    by (simp_all add: sample_loaded_def SetDefaults_def setTLSDefaults_def zero_config_def Let_def)
  with sv that show thesis by (auto simp: startProcess_def startCluster_def startTLS_def sample_env_def)
qed

text \<open>A request is accepted, the signal comes, the request is answered half a minute later, and the process exits.\<close>

lemma sample_shutdown:
  assumes "pr_started pr = 0"
  shows "\<exists>s. (process_step (200 * Second))\<^sup>*\<^sup>* (launched pr) s \<and> ps_phase s = Exited"
proof -
  let ?step = "process_step (200 * Second)"
  let ?s1 = "(launched pr)\<lparr>ps_flight := [(1, 0)]\<rparr>"
  let ?s2 = "?s1\<lparr>ps_phase := Draining (drainTimeout (pr_config pr))\<rparr>"
  let ?s3 = "?s2\<lparr>ps_now := 30 * Second\<rparr>"
  have 1: "?step (launched pr) ?s1"
    using process_step.accept [of "launched pr" "200 * Second" 1] assms by (simp add: launched_def)
  have 2: "?step ?s1 ?s2" using process_step.signal [of ?s1 "200 * Second"] assms by (simp add: launched_def)
  have 3: "?step ?s2 ?s3" by (rule process_step.wait) (simp_all add: launched_def assms)
  obtain pr' where 4: "?step ?s3 (?s3\<lparr>ps_flight := [], ps_process := pr'\<rparr>)"
    using process_step.answer [of ?s3 "(1, 0)" "200 * Second"] by (simp add: launched_def) blast
  let ?s4 = "?s3\<lparr>ps_flight := [], ps_process := pr'\<rparr>"
  have 5: "?step ?s4 (?s4\<lparr>ps_phase := Closing\<rparr>)" by (rule process_step.drained) (simp_all add: launched_def)
  have 6: "\<exists>s. ?step (?s4\<lparr>ps_phase := Closing\<rparr>) s \<and> ps_phase s = Exited"
    by (intro exI conjI, rule process_step.close) (simp_all add: launched_def)
  from 1 2 3 4 5 6 show ?thesis by (meson rtranclp.rtrancl_into_rtrancl rtranclp.rtrancl_refl)
qed


end
