(* ===== verification/Admin_CLI.thy ===== *)
theory Admin_CLI
  imports Cert_Cache
begin

text \<open>
  The administration tool, \<^verbatim>\<open>cmd/strela-admin/main.go\<close>: the commands that list, delete, clean and synchronise stored
  certificates and the choice of the server to ask. What a command prints is the record that it returns; a fatal
  error is an error. The certificate and PEM libraries are parameters.
\<close>

section \<open>Certificates\<close>

record pem_block =
  pb_Type :: string
  pb_Bytes :: string

datatype key_algorithm = AlgRSA | AlgDSA | AlgECDSA | AlgEd25519 | AlgUnknown

text \<open>\<^const>\<open>None\<close> is Go's zero time.\<close>

record x509_cert =
  x_NotBefore :: "gotime option"
  x_NotAfter :: "gotime option"
  x_Subject :: string
  x_Issuer :: string
  x_Algorithm :: key_algorithm

text \<open>
  \<open>xl_blocks\<close> are the blocks that repeated decoding of a text yields, \<open>xl_encode\<close> the text of a block, if it has one.
\<close>

record cert_lib =
  xl_blocks :: "string \<Rightarrow> pem_block list"
  xl_encode :: "pem_block \<Rightarrow> string option"
  xl_parse :: "string \<Rightarrow> goerror + x509_cert"

record AdminCertInfo =
  ac_CacheKey :: string
  ac_Domain :: string
  ac_CertType :: string
  ac_Size :: nat
  ac_Expiry :: "gotime option"
  ac_NotBefore :: "gotime option"
  ac_Subject :: string
  ac_Issuer :: string

definition newCertInfo :: "string \<Rightarrow> string \<Rightarrow> nat \<Rightarrow> AdminCertInfo" where
  "newCertInfo key domain bytes =
     \<lparr>ac_CacheKey = key, ac_Domain = domain, ac_CertType = [], ac_Size = bytes, ac_Expiry = None, ac_NotBefore = None,
      ac_Subject = [], ac_Issuer = []\<rparr>"

fun algorithmName :: "key_algorithm \<Rightarrow> string" where
  "algorithmName AlgECDSA = ''ECDSA''"
| "algorithmName AlgRSA = ''RSA''"
| "algorithmName AlgDSA = ''DSA''"
| "algorithmName AlgEd25519 = ''Ed25519''"
| "algorithmName AlgUnknown = ''0''"

definition parseCertificateData :: "cert_lib \<Rightarrow> string \<Rightarrow> AdminCertInfo \<Rightarrow> AdminCertInfo" where
  "parseCertificateData lib data info =
     (case Option.bind (find (\<lambda>b. pb_Type b = ''CERTIFICATE'') (xl_blocks lib data)) (xl_encode lib) of
        None \<Rightarrow> info\<lparr>ac_CertType := ''Invalid''\<rparr>
      | Some certPEM \<Rightarrow>
          (case xl_blocks lib certPEM of
             [] \<Rightarrow> info\<lparr>ac_CertType := ''Invalid''\<rparr>
           | block # _ \<Rightarrow>
               (case xl_parse lib (pb_Bytes block) of
                  Inl _ \<Rightarrow> info\<lparr>ac_CertType := ''Parse Error''\<rparr>
                | Inr cert \<Rightarrow>
                    info\<lparr>ac_Expiry := x_NotAfter cert, ac_NotBefore := x_NotBefore cert, ac_Subject := x_Subject cert,
                         ac_Issuer := x_Issuer cert, ac_CertType := algorithmName (x_Algorithm cert)\<rparr>)))"

section \<open>The storage\<close>

datatype cache_choice = UseS3 string string | UseDir string

record 'c admin_env =
  ae_source :: config_source
  ae_hostname :: string
  ae_config :: string
  ae_s3Err :: "goerror option"
  ae_open :: "cache_choice \<Rightarrow> 'c cert_cache"
  ae_lib :: cert_lib
  ae_clock :: "nat \<Rightarrow> gotime"

definition admin_createS3Cache :: "'c admin_env \<Rightarrow> LetsEncryptConfig \<Rightarrow> goerror + cache_choice" where
  "admin_createS3Cache env le =
     (case ae_s3Err env of
        Some err \<Rightarrow> Inl (wrapErr ''failed to load AWS config: '' err)
      | None \<Rightarrow> Inr (UseS3 (S3Bucket (S3 le)) (S3Prefix (S3 le))))"

definition initTLSCache :: "'c admin_env \<Rightarrow> goerror + (Config \<times> 'c cert_cache)" where
  "initTLSCache env =
     (case LoadConfig (ae_source env) (ae_hostname env) (ae_config env) of
        Inl err \<Rightarrow> Inl (wrapErr ''Failed to load config: '' err)
      | Inr cfg \<Rightarrow>
          let le = LetsEncrypt (TLS cfg) in
          if \<not> TLSEnabled (TLS cfg) then Inl (ErrText ''TLS is not enabled in config'')
          else if TLSProvider (TLS cfg) \<noteq> ''letsencrypt'' then
            Inl (ErrText (''TLS provider must be 'letsencrypt' (current: '' @ TLSProvider (TLS cfg) @ '')''))
          else if StorageProvider le = ''s3'' then
            (case admin_createS3Cache env le of
               Inl err \<Rightarrow> Inl (wrapErr ''Failed to initialize S3 cache: '' err)
             | Inr choice \<Rightarrow> Inr (cfg, ae_open env choice))
          else if StorageProvider le = ''file'' then
            (if CacheDir le = [] then Inl (ErrText ''cache_dir not configured for file storage'')
             else Inr (cfg, ae_open env (UseDir (CacheDir le))))
          else Inl (ErrText (''Unsupported storage provider: '' @ StorageProvider le)))"

text \<open>The keys of the configured domains, an ECDSA and an RSA one each, with the name to display.\<close>

definition certKeys :: "string list \<Rightarrow> (string \<times> string) list" where
  "certKeys domains = concat (map (\<lambda>d. [(d, d), (d @ ''+rsa'', d @ '' (RSA)'')]) domains)"

section \<open>List\<close>

fun listScan ::
  "cert_lib \<Rightarrow> 'c cert_cache \<Rightarrow> (string \<times> string) list \<Rightarrow> 'c \<Rightarrow> (AdminCertInfo list \<times> (string \<times> goerror) list) \<times> 'c" where
  "listScan lib cache [] c = (([], []), c)"
| "listScan lib cache ((key, display) # keys) c =
     (case cacheGet cache key c of
        (Inl err, c1) \<Rightarrow>
          (case listScan lib cache keys c1 of ((certs, warnings), c2) \<Rightarrow>
             ((certs, if err = cacheMiss then warnings else (key, err) # warnings), c2))
      | (Inr data, c1) \<Rightarrow>
          (case listScan lib cache keys c1 of ((certs, warnings), c2) \<Rightarrow>
             ((parseCertificateData lib data (newCertInfo key display (length data)) # certs, warnings), c2)))"

text \<open>Status and expiry as they are shown; the warning sign at less than seven days is left out.\<close>

definition listRow :: "gotime \<Rightarrow> AdminCertInfo \<Rightarrow> string \<times> string \<times> string \<times> string \<times> nat" where
  "listRow now cert =
     (let shown =
        (case ac_Expiry cert of
           None \<Rightarrow> (''Valid'', ''-'')
         | Some t \<Rightarrow>
             let days = truncDays (t - now) in
             if days < 0 then (''Expired'', ''EXPIRED'')
             else if days < 30 then (''Expiring'', Itoa days @ ''d'')
             else (''Valid'', Itoa days @ ''d''));
          status = (if ac_CertType cert = ''Invalid'' \<or> ac_CertType cert = ''Parse Error'' then ''Invalid'' else fst shown)
      in (ac_Domain cert, ac_CertType cert, status, snd shown, ac_Size cert))"

definition handleTLSList ::
  "'c admin_env \<Rightarrow> 'c \<Rightarrow> (goerror + (string \<times> string \<times> string \<times> string \<times> nat) list \<times> (string \<times> goerror) list) \<times> 'c" where
  "handleTLSList env c =
     (case initTLSCache env of
        Inl err \<Rightarrow> (Inl err, c)
      | Inr (cfg, cache) \<Rightarrow>
          if LEDomains (LetsEncrypt (TLS cfg)) = [] then (Inr ([], []), c)
          else case listScan (ae_lib env) cache (certKeys (LEDomains (LetsEncrypt (TLS cfg)))) c of
            ((certs, warnings), c') \<Rightarrow>
              (Inr (map (\<lambda>(i, cert). listRow (ae_clock env i) cert) (enumerate 0 certs), warnings), c'))"

section \<open>Delete\<close>

text \<open>The numbers of deleted and of missing certificates, and the errors.\<close>

fun deleteVariants :: "'c cert_cache \<Rightarrow> (string \<times> string) list \<Rightarrow> 'c \<Rightarrow> (nat \<times> nat \<times> string list) \<times> 'c" where
  "deleteVariants cache [] c = ((0, 0, []), c)"
| "deleteVariants cache ((key, keyType) # keys) c =
     (case cacheDelete cache key c of (res, c1) \<Rightarrow>
        (case deleteVariants cache keys c1 of ((deleted, notFound, errors), c2) \<Rightarrow>
           ((case res of
               None \<Rightarrow> (Suc deleted, notFound, errors)
             | Some err \<Rightarrow>
                 if err = cacheMiss then (deleted, Suc notFound, errors)
                 else (deleted, notFound, (keyType @ '' certificate: '' @ err_text err) # errors)), c2)))"

text \<open>The result and whether the command exits with a failure.\<close>

definition handleTLSDelete ::
  "'c admin_env \<Rightarrow> string \<Rightarrow> 'c \<Rightarrow> (goerror + (nat \<times> nat \<times> string list) \<times> bool) \<times> 'c" where
  "handleTLSDelete env domain c =
     (case initTLSCache env of
        Inl err \<Rightarrow> (Inl err, c)
      | Inr (_, cache) \<Rightarrow>
          (case deleteVariants cache [(domain, ''ECDSA''), (domain @ ''+rsa'', ''RSA'')] c of
             ((deleted, notFound, errors), c') \<Rightarrow>
               (Inr ((deleted, notFound, errors), errors \<noteq> [] \<or> deleted = 0 \<and> notFound = 0), c')))"

section \<open>Clean\<close>

definition expiredAt :: "gotime \<Rightarrow> AdminCertInfo \<Rightarrow> bool" where
  "expiredAt now info \<longleftrightarrow> (case ac_Expiry info of None \<Rightarrow> False | Some t \<Rightarrow> now > t)"

definition invalidCert :: "AdminCertInfo \<Rightarrow> bool" where
  "invalidCert info \<longleftrightarrow> ac_CertType info = ''Invalid'' \<or> ac_CertType info = ''Parse Error''"

definition cleanReasons :: "cert_lib \<Rightarrow> gotime \<Rightarrow> string \<Rightarrow> string \<Rightarrow> string \<Rightarrow> (string \<times> string \<times> string) list" where
  "cleanReasons lib now key display data =
     (let info = parseCertificateData lib data (newCertInfo key display 0) in
      (if expiredAt now info then [(key, display, ''expired'')] else [])
      @ (if invalidCert info then [(key, display, ''invalid'')] else []))"

text \<open>What to delete and which keys could not be read; \<open>clk i\<close> is the clock at the \<open>i\<close>-th key.\<close>

fun cleanScan ::
  "cert_lib \<Rightarrow> 'c cert_cache \<Rightarrow> (nat \<Rightarrow> gotime) \<Rightarrow> nat \<Rightarrow> (string \<times> string) list \<Rightarrow> 'c
     \<Rightarrow> ((string \<times> string \<times> string) list \<times> (string \<times> goerror) list) \<times> 'c" where
  "cleanScan lib cache clk i [] c = (([], []), c)"
| "cleanScan lib cache clk i ((key, display) # keys) c =
     (case cacheGet cache key c of
        (Inl err, c1) \<Rightarrow>
          (case cleanScan lib cache clk (Suc i) keys c1 of ((toDelete, warnings), c2) \<Rightarrow>
             ((toDelete, if err = cacheMiss then warnings else (display, err) # warnings), c2))
      | (Inr data, c1) \<Rightarrow>
          (case cleanScan lib cache clk (Suc i) keys c1 of ((toDelete, warnings), c2) \<Rightarrow>
             ((cleanReasons lib (clk i) key display data @ toDelete, warnings), c2)))"

fun deleteItems :: "'c cert_cache \<Rightarrow> (string \<times> string \<times> string) list \<Rightarrow> 'c \<Rightarrow> (nat \<times> nat) \<times> 'c" where
  "deleteItems cache [] c = ((0, 0), c)"
| "deleteItems cache ((key, _, _) # items) c =
     (case cacheDelete cache key c of (res, c1) \<Rightarrow>
        (case deleteItems cache items c1 of ((deleted, failed), c2) \<Rightarrow>
           (if res = None then (Suc deleted, failed) else (deleted, Suc failed), c2)))"

record clean_report =
  cr_found :: "(string \<times> string \<times> string) list"
  cr_warnings :: "(string \<times> goerror) list"
  cr_deleted :: nat
  cr_failed :: nat

definition handleTLSClean :: "'c admin_env \<Rightarrow> 'c \<Rightarrow> (goerror + clean_report) \<times> 'c" where
  "handleTLSClean env c =
     (case initTLSCache env of
        Inl err \<Rightarrow> (Inl err, c)
      | Inr (cfg, cache) \<Rightarrow>
          (case cleanScan (ae_lib env) cache (ae_clock env) 0 (certKeys (LEDomains (LetsEncrypt (TLS cfg)))) c of
             ((toDelete, warnings), c1) \<Rightarrow>
               (case deleteItems cache toDelete c1 of ((deleted, failed), c2) \<Rightarrow>
                  (Inr \<lparr>cr_found = toDelete, cr_warnings = warnings, cr_deleted = deleted, cr_failed = failed\<rparr>, c2))))"

section \<open>Synchronise\<close>

text \<open>The local files by the components of their path; reading and writing may fail.\<close>

type_synonym file_map = "string list \<rightharpoonup> string"

record file_errors =
  fe_mkdir :: "string \<Rightarrow> goerror option"
  fe_read :: "string list \<Rightarrow> bool"
  fe_write :: "string list \<Rightarrow> goerror option"

text \<open>One certificate: whether it was synchronised, skipped or failed.\<close>

datatype sync_outcome = Synced | Skipped | SyncFailed

definition syncOne ::
  "file_errors \<Rightarrow> 'c cert_cache \<Rightarrow> string \<Rightarrow> string \<Rightarrow> 'c \<times> file_map \<Rightarrow> sync_outcome \<times> 'c \<times> file_map" where
  "syncOne fe s3Cache dir key s =
     (case cacheGet s3Cache key (fst s) of
        (Inl err, c) \<Rightarrow> (if err = cacheMiss then Skipped else SyncFailed, c, snd s)
      | (Inr data, c) \<Rightarrow>
          let localPath = [dir, key] in
          if \<not> fe_read fe localPath \<and> snd s localPath = Some data then (Skipped, c, snd s)
          else case fe_write fe localPath of
            Some _ \<Rightarrow> (SyncFailed, c, snd s)
          | None \<Rightarrow> (Synced, c, (snd s)(localPath \<mapsto> data)))"

fun syncKeys ::
  "file_errors \<Rightarrow> 'c cert_cache \<Rightarrow> string \<Rightarrow> (string \<times> string) list \<Rightarrow> 'c \<times> file_map
     \<Rightarrow> sync_outcome list \<times> 'c \<times> file_map" where
  "syncKeys fe s3Cache dir [] s = ([], s)"
| "syncKeys fe s3Cache dir ((key, _) # keys) s =
     (case syncOne fe s3Cache dir key s of (outcome, s1) \<Rightarrow>
        (case syncKeys fe s3Cache dir keys s1 of (outcomes, s2) \<Rightarrow> (outcome # outcomes, s2)))"

definition handleTLSSync ::
  "'c admin_env \<Rightarrow> file_errors \<Rightarrow> 'c \<times> file_map \<Rightarrow> (goerror + sync_outcome list) \<times> 'c \<times> file_map" where
  "handleTLSSync env fe s =
     (case initTLSCache env of
        Inl err \<Rightarrow> (Inl err, s)
      | Inr (cfg, _) \<Rightarrow>
          let le = LetsEncrypt (TLS cfg) in
          if StorageProvider le \<noteq> ''s3'' then (Inl (ErrText ''Sync command only applies to S3 storage backend''), s)
          else if CacheDir le = [] then (Inl (ErrText ''Local cache directory not configured in config.toml''), s)
          else case admin_createS3Cache env le of
            Inl err \<Rightarrow> (Inl (wrapErr ''Failed to initialize S3 cache: '' err), s)
          | Inr choice \<Rightarrow>
              (case fe_mkdir fe (CacheDir le) of
                 Some err \<Rightarrow> (Inl (wrapErr ''Failed to create cache directory: '' err), s)
               | None \<Rightarrow>
                   (case syncKeys fe (ae_open env choice) (CacheDir le) (certKeys (LEDomains le)) s of
                      (outcomes, s') \<Rightarrow> (Inr outcomes, s'))))"

section \<open>The server to ask\<close>

definition baseURL :: "string \<Rightarrow> string" where
  "baseURL listen = (if HasPrefix listen '':'' then ''http://localhost'' @ listen else ''http://'' @ listen)"

definition resolveAdminURL :: "string \<Rightarrow> Config option \<Rightarrow> string" where
  "resolveAdminURL serverURL cfg =
     (if serverURL \<noteq> [] then serverURL
      else case cfg of
        Some c \<Rightarrow> if AdminBind (Admin c) \<noteq> [] then baseURL (AdminBind (Admin c)) else ''http://localhost:8080''
      | None \<Rightarrow> ''http://localhost:8080'')"

definition metricsURL :: "string \<Rightarrow> Config option \<Rightarrow> string" where
  "metricsURL serverURL cfg =
     (if serverURL \<noteq> [] then serverURL
      else case cfg of
        Some c \<Rightarrow> if MetricsBind (Metrics c) \<noteq> [] then baseURL (MetricsBind (Metrics c)) else ''http://localhost:8083''
      | None \<Rightarrow> ''http://localhost:8083'')
     @ (case cfg of Some c \<Rightarrow> if MetricsPath (Metrics c) \<noteq> [] then MetricsPath (Metrics c) else ''/metrics'' | None \<Rightarrow> ''/metrics'')"

text \<open>
  A request with the given credentials, if any; \<open>http\<close> is the exchange with the server. Healthy and unhealthy
  answers are both accepted.
\<close>

definition httpGetWithAuth ::
  "(string \<Rightarrow> (string \<times> string) option \<Rightarrow> goerror + int \<times> string) \<Rightarrow> string \<Rightarrow> string \<Rightarrow> string \<Rightarrow> goerror + string" where
  "httpGetWithAuth http url username password =
     (case http url (if username \<noteq> [] then Some (username, password) else None) of
        Inl err \<Rightarrow> Inl err
      | Inr (code, body) \<Rightarrow>
          if code \<noteq> 200 \<and> code \<noteq> 503 then Inl (ErrText (''HTTP '' @ Itoa code @ '': '' @ body)) else Inr body)"

definition loadConfigSilent :: "config_source \<Rightarrow> string \<Rightarrow> string \<Rightarrow> Config option" where
  "loadConfigSilent src hostname path = (case LoadConfig src hostname path of Inl _ \<Rightarrow> None | Inr cfg \<Rightarrow> Some cfg)"

definition defaultStrelaConfigPath :: "(string \<Rightarrow> bool) \<Rightarrow> string" where
  "defaultStrelaConfigPath exists =
     (case find exists [''/etc/strela/config.toml'', ''/usr/local/etc/strela/config.toml''] of
        Some p \<Rightarrow> p
      | None \<Rightarrow> ''config.toml'')"

text \<open>The answer of the status endpoint as the tool decodes it.\<close>

record remote_system =
  rs_GoVersion :: string
  rs_Goroutines :: int
  rs_MemoryMB :: "64 word"
  rs_MemoryAllocMB :: "64 word"

record remote_health =
  rh_Status :: string
  rh_Timestamp :: string
  rh_Uptime :: string
  rh_System :: remote_system
  rh_Cluster :: "(bool \<times> int \<times> string) option"

text \<open>
  What is shown: whether the server is healthy, its status in capitals, the times, the figures of the
  Go runtime, and the cluster if it is enabled.
\<close>

definition cmdHealth ::
  "(string \<Rightarrow> (string \<times> string) option \<Rightarrow> goerror + int \<times> string) \<Rightarrow> (string \<Rightarrow> goerror + remote_health) \<Rightarrow> string \<Rightarrow> Config option
     \<Rightarrow> goerror + (bool \<times> string \<times> (string \<times> string) \<times> remote_system \<times> (int \<times> string) option)" where
  "cmdHealth http decode serverURL cfg =
     (let (username, password) = (case cfg of Some c \<Rightarrow> (AdminUsername (Admin c), AdminPassword (Admin c)) | None \<Rightarrow> ([], []))
      in case httpGetWithAuth http (resolveAdminURL serverURL cfg @ ''/health'') username password of
           Inl err \<Rightarrow> Inl (wrapErr ''Failed to get health status: '' err)
         | Inr body \<Rightarrow>
             (case decode body of
                Inl err \<Rightarrow> Inl (wrapErr ''Failed to parse health response: '' err)
              | Inr h \<Rightarrow>
                  Inr (rh_Status h = ''healthy'', ToUpper (rh_Status h), (rh_Timestamp h, rh_Uptime h), rh_System h,
                       case rh_Cluster h of Some (True, nodes, leader) \<Rightarrow> Some (nodes, leader) | _ \<Rightarrow> None)))"

section \<open>Commands\<close>

datatype admin_command = CmdHealth | CmdStats | CmdTLSList | CmdTLSDelete string | CmdTLSClean | CmdTLSSync
  | CmdVersion | CmdTLSUsage | BadUsage

definition cmdTLS :: "string list \<Rightarrow> admin_command" where
  "cmdTLS args =
     (case args of
        [] \<Rightarrow> BadUsage
      | sub # rest \<Rightarrow>
          if sub \<in> {''list'', ''ls''} then CmdTLSList
          else if sub \<in> {''delete'', ''del'', ''rm''} then (case rest of [] \<Rightarrow> BadUsage | domain # _ \<Rightarrow> CmdTLSDelete domain)
          else if sub = ''clean'' then CmdTLSClean
          else if sub = ''sync'' then CmdTLSSync
          else if sub \<in> {''help'', ''--help'', ''-h''} then CmdTLSUsage
          else BadUsage)"

definition admin_main :: "bool \<Rightarrow> string list \<Rightarrow> admin_command" where
  "admin_main showVersion args =
     (if showVersion then CmdVersion
      else case args of
        [] \<Rightarrow> BadUsage
      | command # rest \<Rightarrow>
          if command = ''health'' then CmdHealth
          else if command = ''stats'' then CmdStats
          else if command = ''tls'' then cmdTLS rest
          else if command \<in> {''version'', ''-version'', ''--version''} then CmdVersion
          else BadUsage)"

section \<open>What the commands do to the storage\<close>

text \<open>
  The certificate in stored data: the first block of its type, decoded, encoded and parsed. Data are usable if they
  have one that has not expired.
\<close>

definition certIn :: "cert_lib \<Rightarrow> string \<Rightarrow> x509_cert option" where
  "certIn lib data =
     (case Option.bind (find (\<lambda>b. pb_Type b = ''CERTIFICATE'') (xl_blocks lib data)) (xl_encode lib) of
        None \<Rightarrow> None
      | Some text \<Rightarrow>
          (case xl_blocks lib text of [] \<Rightarrow> None | b # _ \<Rightarrow> (case xl_parse lib (pb_Bytes b) of Inl _ \<Rightarrow> None | Inr cert \<Rightarrow> Some cert)))"

definition usable :: "cert_lib \<Rightarrow> gotime \<Rightarrow> string \<Rightarrow> bool" where
  "usable lib now data \<longleftrightarrow>
     (case certIn lib data of None \<Rightarrow> False | Some cert \<Rightarrow> (case x_NotAfter cert of None \<Rightarrow> True | Some t \<Rightarrow> now \<le> t))"

lemma algorithmName_valid: "algorithmName a \<noteq> ''Invalid'' \<and> algorithmName a \<noteq> ''Parse Error''"
  by (cases a) simp_all

lemma cleanReasons_usable:
  "fst ` set (cleanReasons lib now key display data) = (if usable lib now data then {} else {key})"
  by (auto simp: cleanReasons_def usable_def certIn_def parseCertificateData_def newCertInfo_def expiredAt_def invalidCert_def
      algorithmName_valid Let_def split: option.splits list.splits sum.splits)

text \<open>The client of a certificate storage: the contract of the cache is enough for all commands.\<close>

context cert_store
begin

lemma cleanScan_spec:
  assumes "cleanScan lib ops clk i keys c = ((del, warn), c')"
  shows "holds c' = holds c \<and> (valid c \<longrightarrow> valid c')
    \<and> (\<forall>k \<in> fst ` set del. k \<in> fst ` set keys \<and> (\<exists>j v. holds c k = Some v \<and> \<not> usable lib (clk j) v))
    \<and> (valid c \<and> warn = [] \<longrightarrow>
        (\<forall>k \<in> fst ` set keys. \<forall>v. holds c k = Some v \<longrightarrow> (\<exists>j. usable lib (clk j) v) \<or> k \<in> fst ` set del))"
  using assms
proof (induction keys arbitrary: i c del warn c')
  case Nil
  then show ?case by simp
next
  case (Cons kd keys)
  obtain key display where kd: "kd = (key, display)" by force
  obtain res c1 where get: "cacheGet ops key c = (res, c1)" by force
  obtain del1 warn1 where rest: "cleanScan lib ops clk (Suc i) keys c1 = ((del1, warn1), c')"
    using Cons.prems by (auto simp: kd get split: sum.splits prod.splits)
  have keep: "holds c1 = holds c" "valid c \<Longrightarrow> valid c1"
    using get_keeps [of key c] valid_get [of c key] by (simp_all add: get)
  note IH = Cons.IH [OF rest, unfolded keep(1)]
  show ?case
  proof (cases res)
    case (Inl err)
    then have eq: "del = del1" "warn = (if err = cacheMiss then warn1 else (display, err) # warn1)"
      using Cons.prems by (simp_all add: kd get rest)
    have "valid c \<Longrightarrow> err = cacheMiss \<Longrightarrow> holds c key = None" using get_miss [of c key] by (simp add: get Inl)
    with IH keep(2) show ?thesis by (auto simp: kd eq split: if_splits)
  next
    case (Inr data)
    then have eq: "del = cleanReasons lib (clk i) key display data @ del1" "warn = warn1"
      using Cons.prems by (simp_all add: kd get rest)
    have "holds c key = Some data" using get_hit [of key c data] by (simp add: get Inr)
    with IH keep(2) show ?thesis by (auto simp: kd eq image_Un cleanReasons_usable split: if_splits)
  qed
qed

lemma deleteItems_spec:
  assumes "deleteItems ops items c = ((deleted, failed), c')"
  shows "(valid c \<longrightarrow> valid c') \<and> (\<forall>k. k \<notin> fst ` set items \<longrightarrow> holds c' k = holds c k)
    \<and> (failed = 0 \<longrightarrow> deleted = length items \<and> holds c' = (\<lambda>k. if k \<in> fst ` set items then None else holds c k))
    \<and> deleted + failed = length items"
  using assms
proof (induction items arbitrary: c deleted failed)
  case Nil
  then show ?case by simp
next
  case (Cons it items)
  obtain key d w where it: "it = (key, d, w)" by (metis prod_cases3)
  obtain res c1 where del: "cacheDelete ops key c = (res, c1)" by force
  obtain n m where rest: "deleteItems ops items c1 = ((n, m), c')"
    and counts: "(deleted, failed) = (if res = None then (Suc n, m) else (n, Suc m))"
    using Cons.prems by (auto simp: it del split: prod.splits)
  have "holds c1 k = holds c k" if "k \<noteq> key" for k using delete_other [OF that, of c] by (simp add: del)
  moreover have "res = None \<Longrightarrow> holds c1 = (holds c)(key := None)" using delete_ok [of key c] by (simp add: del)
  moreover have "valid c \<Longrightarrow> valid c1" using valid_delete [of c key] by (simp add: del)
  ultimately show ?case using Cons.IH [OF rest] counts by (auto simp: it fun_eq_iff split: if_splits)
qed

lemma clean_spec:
  assumes "cleanScan lib ops clk 0 keys c = ((del, warn), c1)" and "deleteItems ops del c1 = ((deleted, failed), c')"
  shows "(holds c' k \<noteq> holds c k \<longrightarrow> k \<in> fst ` set keys \<and> (\<exists>j v. holds c k = Some v \<and> \<not> usable lib (clk j) v))
    \<and> (valid c \<and> warn = [] \<and> failed = 0 \<longrightarrow>
        (k \<in> fst ` set keys \<and> holds c' k = Some v \<longrightarrow> (\<exists>j. usable lib (clk j) v)))"
  using cleanScan_spec [OF assms(1)] deleteItems_spec [OF assms(2)] by (auto split: if_splits)

lemma syncOne_spec:
  assumes "syncOne fe ops dir key (c, fs) = (out, c', fs')"
  shows "holds c' = holds c \<and> (valid c \<longrightarrow> valid c') \<and> (\<forall>p. fs' p \<noteq> fs p \<longrightarrow> p = [dir, key] \<and> fs' p = holds c key)
    \<and> (valid c \<and> out \<noteq> SyncFailed \<longrightarrow> (\<forall>v. holds c key = Some v \<longrightarrow> fs' [dir, key] = Some v))"
proof -
  obtain res c1 where get: "cacheGet ops key c = (res, c1)" by force
  have "holds c1 = holds c" "valid c \<Longrightarrow> valid c1" "\<And>v. res = Inr v \<Longrightarrow> holds c key = Some v"
    "valid c \<Longrightarrow> res = Inl cacheMiss \<Longrightarrow> holds c key = None"
    using get_keeps [of key c] valid_get [of c key] get_hit [of key c] get_miss [of c key] by (simp_all add: get)
  then show ?thesis
    using assms by (auto simp: syncOne_def get Let_def split: sum.splits option.splits if_splits)
qed

lemma syncKeys_spec:
  assumes "syncKeys fe ops dir keys (c, fs) = (outs, c', fs')"
  shows "holds c' = holds c \<and> (\<forall>p. fs' p \<noteq> fs p \<longrightarrow> (\<exists>k \<in> fst ` set keys. p = [dir, k] \<and> fs' p = holds c k))
    \<and> (valid c \<and> SyncFailed \<notin> set outs \<longrightarrow>
        (\<forall>k \<in> fst ` set keys. \<forall>v. holds c k = Some v \<longrightarrow> fs' [dir, k] = Some v))"
  using assms
proof (induction keys arbitrary: c fs outs)
  case Nil
  then show ?case by simp
next
  case (Cons kd keys)
  obtain key d where kd: "kd = (key, d)" by force
  obtain out c1 fs1 where one: "syncOne fe ops dir key (c, fs) = (out, c1, fs1)" by (metis prod_cases3)
  obtain outs1 where rest: "syncKeys fe ops dir keys (c1, fs1) = (outs1, c', fs')" and outs: "outs = out # outs1"
    using Cons.prems by (auto simp: kd one split: prod.splits)
  note first = syncOne_spec [OF one]
  note IH = Cons.IH [OF rest]
  have changed: "\<exists>k \<in> fst ` set (kd # keys). p = [dir, k] \<and> fs' p = holds c k" if "fs' p \<noteq> fs p" for p
    using that IH first by (cases "fs' p = fs1 p") (auto simp: kd)
  have "fs' [dir, key] = Some v" if "valid c" "SyncFailed \<noteq> out" "holds c key = Some v" for v
  proof (rule ccontr)
    assume "fs' [dir, key] \<noteq> Some v"
    moreover from this that first have "fs' [dir, key] \<noteq> fs1 [dir, key]" by auto
    with IH obtain k where "[dir, key] = [dir, k]" "fs' [dir, key] = holds c1 k" by blast
    ultimately show False using that first by simp
  qed
  with changed IH first show ?case by (simp add: kd outs)
qed

end

text \<open>
  Synchronisation never changes the bucket and writes only certificates of the bucket to local files; if nothing
  failed, every certificate of a configured domain that the bucket holds is in the directory.
\<close>

lemma sync_copies:
  assumes "initTLSCache env = Inr (cfg, cache)" and "cert_store cache holds valid"
    and "handleTLSSync env fe (c, fs) = (Inr outs, c', fs')"
  shows "holds c' = holds c
    \<and> (fs' p \<noteq> fs p \<longrightarrow> (\<exists>k. p = [CacheDir (LetsEncrypt (TLS cfg)), k] \<and> fs' p = holds c k))
    \<and> (valid c \<and> SyncFailed \<notin> set outs \<and> k \<in> fst ` set (certKeys (LEDomains (LetsEncrypt (TLS cfg)))) \<and> holds c k = Some v
         \<longrightarrow> fs' [CacheDir (LetsEncrypt (TLS cfg)), k] = Some v)"
proof -
  let ?le = "LetsEncrypt (TLS cfg)"
  have s3: "StorageProvider ?le = ''s3''" using assms(1,3) by (auto simp: handleTLSSync_def Let_def split: if_splits)
  then obtain choice where choice: "admin_createS3Cache env ?le = Inr choice" "cache = ae_open env choice"
    using assms(1) by (auto simp: initTLSCache_def Let_def split: sum.splits if_splits)
  have "syncKeys fe cache (CacheDir ?le) (certKeys (LEDomains ?le)) (c, fs) = (outs, c', fs')"
    using assms(1,3) s3 choice by (auto simp: handleTLSSync_def Let_def split: if_splits option.splits prod.splits)
  from cert_store.syncKeys_spec [OF assms(2) this] show ?thesis by blast
qed

text \<open>
  Deletion counts a certificate as missing only if the storage reports a miss; the bucket reports none, so that
  a certificate that does not exist is reported as deleted.
\<close>

lemma absent_reported_deleted:
  "fst (deleteVariants (S3Cache mockS3 b keyPrefix) [(domain, ''ECDSA''), (domain @ ''+rsa'', ''RSA'')] NewMockS3Client)
     = (2, 0, [])"
  by (simp add: S3Cache_def S3Cache_Delete_def mockS3_def NewMockS3Client_def)

section \<open>Property\<close>

text \<open>
  C40. The cleaning command removes exactly the certificates that are of no use. Whatever fails on the way, an entry
  that changed belonged to a configured domain and was expired or unreadable as a certificate; and if every
  entry could be read and every deletion succeeded, what is left of the configured domains is usable. This
  holds for every storage that keeps the contract of the cache interface.
\<close>

theorem clean_removes_useless:
  assumes "initTLSCache env = Inr (cfg, cache)" and "cert_store cache holds valid"
    and "handleTLSClean env c = (Inr rep, c')"
  shows "(holds c' k \<noteq> holds c k \<longrightarrow>
      k \<in> fst ` set (certKeys (LEDomains (LetsEncrypt (TLS cfg))))
      \<and> (\<exists>j v. holds c k = Some v \<and> \<not> usable (ae_lib env) (ae_clock env j) v))
    \<and> (valid c \<and> cr_warnings rep = [] \<and> cr_failed rep = 0 \<and> k \<in> fst ` set (certKeys (LEDomains (LetsEncrypt (TLS cfg))))
         \<and> holds c' k = Some v \<longrightarrow> (\<exists>j. usable (ae_lib env) (ae_clock env j) v))"
proof -
  obtain c1 del where "cleanScan (ae_lib env) cache (ae_clock env) 0 (certKeys (LEDomains (LetsEncrypt (TLS cfg)))) c
      = ((del, cr_warnings rep), c1)"
    and "deleteItems cache del c1 = ((cr_deleted rep, cr_failed rep), c')"
    using assms(1,3) by (auto simp: handleTLSClean_def split: prod.splits)
  from cert_store.clean_spec [OF assms(2) this] show ?thesis by blast
qed

definition sample_tls_config :: Config where
  "sample_tls_config = zero_config\<lparr>TLS := (TLS zero_config)\<lparr>TLSEnabled := True, TLSProvider := ''letsencrypt'',
     LetsEncrypt := (LetsEncrypt (TLS zero_config))\<lparr>LEDomains := [''a.b''], StorageProvider := ''s3''\<rparr>\<rparr>\<rparr>"

text \<open>A library for which a text is one block, a certificate expires at 7 and everything else is no certificate.\<close>

definition sample_cert_lib :: cert_lib where
  "sample_cert_lib =
     \<lparr>xl_blocks = (\<lambda>s. [\<lparr>pb_Type = ''CERTIFICATE'', pb_Bytes = s\<rparr>]), xl_encode = (\<lambda>b. Some (pb_Bytes b)),
      xl_parse = (\<lambda>s. if s = ''cert'' then Inr \<lparr>x_NotBefore = Some 1, x_NotAfter = Some 7, x_Subject = [], x_Issuer = [],
                         x_Algorithm = AlgRSA\<rparr> else Inl (ErrText ''malformed''))\<rparr>"

definition sample_admin :: "gotime \<Rightarrow> MockS3Client admin_env" where
  "sample_admin now = \<lparr>ae_source = empty_file\<lparr>UnmarshalConfig := (\<lambda>_. Inr sample_tls_config)\<rparr>, ae_hostname = ''mx1'',
     ae_config = ''strela.toml'', ae_s3Err = None,
     ae_open = (\<lambda>ch. case ch of UseS3 b keyPrefix \<Rightarrow> S3Cache mockS3 b keyPrefix | UseDir d \<Rightarrow> S3Cache mockS3 d []),
     ae_lib = sample_cert_lib, ae_clock = (\<lambda>_. now)\<rparr>"

lemma sample_admin_init:
  obtains cfg where "initTLSCache (sample_admin now) = Inr (cfg, S3Cache mockS3 [] [])"
    "LEDomains (LetsEncrypt (TLS cfg)) = [''a.b'']"
  by (simp add: initTLSCache_def admin_createS3Cache_def sample_admin_def LoadConfig_def empty_file_def sample_tls_config_def
      Let_def Validate_def validIPMode_def validateHostPort_def setOutboundDefaults_def default_str_def preferIPv6Defaults_def
      zero_config_def SetDefaults_def setTLSDefaults_def normalizeS3Prefix_def)

definition sample_bucket :: MockS3Client where
  "sample_bucket = NewMockS3Client\<lparr>ms_Storage := [(''a.b'', ''cert''), (''a.b+rsa'', ''junk''), (''acme_account+key'', ''key'')]\<rparr>"

lemma sample_clean:
  "handleTLSClean (sample_admin 5) sample_bucket =
     (Inr \<lparr>cr_found = [(''a.b+rsa'', ''a.b (RSA)'', ''invalid'')], cr_warnings = [], cr_deleted = 1, cr_failed = 0\<rparr>,
      sample_bucket\<lparr>ms_Storage := [(''a.b'', ''cert''), (''acme_account+key'', ''key'')]\<rparr>)"
proof -
  obtain cfg where init: "initTLSCache (sample_admin 5) = Inr (cfg, S3Cache mockS3 [] [])"
    and domains: "LEDomains (LetsEncrypt (TLS cfg)) = [''a.b'']" by (rule sample_admin_init)
  have "ae_lib (sample_admin 5) = sample_cert_lib" "ae_clock (sample_admin 5) = (\<lambda>_. 5)" by (simp_all add: sample_admin_def)
  with init domains show ?thesis
    by (simp add: handleTLSClean_def certKeys_def S3Cache_def S3Cache_Get_def S3Cache_Delete_def mockS3_def sample_bucket_def
        NewMockS3Client_def cleanReasons_def parseCertificateData_def newCertInfo_def sample_cert_lib_def expiredAt_def
        invalidCert_def Let_def)
qed

theorem clean_removes_useless_witness:
  "\<exists>rep c'. handleTLSClean (sample_admin 5) sample_bucket = (Inr rep, c') \<and> bucketHolds [] c' ''a.b'' = Some ''cert''
     \<and> usable sample_cert_lib 5 ''cert'' \<and> \<not> usable sample_cert_lib 5 ''junk'' \<and> bucketHolds [] c' ''a.b+rsa'' = None"
proof -
  obtain cfg where init: "initTLSCache (sample_admin 5) = Inr (cfg, S3Cache mockS3 [] [])"
    and domains: "LEDomains (LetsEncrypt (TLS cfg)) = [''a.b'']" by (rule sample_admin_init)
  note clean = clean_removes_useless [OF init bucket.cert_store_axioms sample_clean]
  have "ae_lib (sample_admin 5) = sample_cert_lib" "ae_clock (sample_admin 5) = (\<lambda>_. 5)" by (simp_all add: sample_admin_def)
  with clean [of "''a.b+rsa''"] clean [of "''a.b''" "''cert''"] domains sample_clean show ?thesis
    by (simp add: bucketHolds_def sample_bucket_def NewMockS3Client_def bucketValid_def certKeys_def)
qed

end
