(* ===== verification/Prometheus_Metrics.thy ===== *)
theory Prometheus_Metrics
  imports Go_Prelude Complex_Main
begin

text \<open>
  The metrics of the service, \<^verbatim>\<open>internal/metrics/metrics.go\<close>. Of the Prometheus library the calls are recorded: the metrics
  registered with their label names, and the updates with their label values. Values are exact numbers where the code
  has floating-point ones.
\<close>

section \<open>Model\<close>

datatype prom_call =
    Inc string "string list"
  | Observe string "string list" rat
  | SetGauge string "string list" rat

record app_metrics =
  am_includeRecipientDomain :: bool
  am_registered :: "(string \<times> string list) list"
  am_calls :: "prom_call list"

definition deliveryLabels :: "bool \<Rightarrow> string list" where
  "deliveryLabels includeRecipientDomain = ''outcome'' # (if includeRecipientDomain then [''recipient_domain''] else [])"

definition NewMetrics :: "bool \<Rightarrow> app_metrics" where
  "NewMetrics includeRecipientDomain =
     \<lparr>am_includeRecipientDomain = includeRecipientDomain,
      am_registered =
        [(''strela_delivery_attempts_total'', deliveryLabels includeRecipientDomain),
         (''strela_delivery_duration_seconds'', deliveryLabels includeRecipientDomain),
         (''strela_active_deliveries'', []),
         (''strela_http_requests_total'', [''method'', ''path'', ''status'']),
         (''strela_http_request_duration_seconds'', [''method'', ''path'']),
         (''strela_http_requests_rejected_capacity_total'', []),
         (''strela_ip_reputation_degraded'', [''source_ip'']),
         (''strela_ip_reputation_events_total'', [''event_type'', ''source_ip''])],
      am_calls = []\<rparr>"

definition addCalls :: "prom_call list \<Rightarrow> app_metrics \<Rightarrow> app_metrics" where
  "addCalls cs m = m\<lparr>am_calls := am_calls m @ cs\<rparr>"

definition recordAttempt :: "string \<Rightarrow> string \<Rightarrow> rat \<Rightarrow> app_metrics \<Rightarrow> app_metrics" where
  "recordAttempt outcome recipientDomain duration m =
     (let labels = (if am_includeRecipientDomain m then [outcome, recipientDomain] else [outcome]) in
      addCalls [Inc ''strela_delivery_attempts_total'' labels, Observe ''strela_delivery_duration_seconds'' labels duration] m)"

definition RecordHTTPRequest :: "string \<Rightarrow> string \<Rightarrow> string \<Rightarrow> rat \<Rightarrow> app_metrics \<Rightarrow> app_metrics" where
  "RecordHTTPRequest meth path status duration m =
     addCalls [Inc ''strela_http_requests_total'' [meth, path, status],
               Observe ''strela_http_request_duration_seconds'' [meth, path] duration] m"

definition RecordRejectedCapacity :: "app_metrics \<Rightarrow> app_metrics" where
  "RecordRejectedCapacity m = addCalls [Inc ''strela_http_requests_rejected_capacity_total'' []] m"

definition setDegradedGauge :: "string \<Rightarrow> bool \<Rightarrow> app_metrics \<Rightarrow> app_metrics" where
  "setDegradedGauge sourceIP degraded m = addCalls [SetGauge ''strela_ip_reputation_degraded'' [sourceIP] (if degraded then 1 else 0)] m"

definition recordReputationEvent :: "string \<Rightarrow> string \<Rightarrow> app_metrics \<Rightarrow> app_metrics" where
  "recordReputationEvent eventType sourceIP m = addCalls [Inc ''strela_ip_reputation_events_total'' [eventType, sourceIP]] m"

section \<open>Label values\<close>

text \<open>
  The library panics on an update of a metric that is not registered or that has another number of labels. No update
  of the service does.
\<close>

fun call_ok :: "(string \<times> string list) list \<Rightarrow> prom_call \<Rightarrow> bool" where
  "call_ok reg (Inc name vs) = (map_option length (map_of reg name) = Some (length vs))"
| "call_ok reg (Observe name vs x) = (map_option length (map_of reg name) = Some (length vs))"
| "call_ok reg (SetGauge name vs x) = (map_option length (map_of reg name) = Some (length vs))"

definition metrics_ok :: "app_metrics \<Rightarrow> bool" where
  "metrics_ok m \<longleftrightarrow> am_registered m = am_registered (NewMetrics (am_includeRecipientDomain m))
     \<and> list_all (call_ok (am_registered m)) (am_calls m)"

datatype metrics_op =
    OpAttempt string string rat
  | OpHTTP string string string rat
  | OpRejected
  | OpDegraded string bool
  | OpEvent string string

fun metrics_step :: "app_metrics \<Rightarrow> metrics_op \<Rightarrow> app_metrics" where
  "metrics_step m (OpAttempt outcome domain t) = recordAttempt outcome domain t m"
| "metrics_step m (OpHTTP meth path status t) = RecordHTTPRequest meth path status t m"
| "metrics_step m OpRejected = RecordRejectedCapacity m"
| "metrics_step m (OpDegraded ip b) = setDegradedGauge ip b m"
| "metrics_step m (OpEvent e ip) = recordReputationEvent e ip m"

interpretation metrics: machine metrics_step metrics_ok
proof
  fix m op
  assume "metrics_ok m"
  then show "metrics_ok (metrics_step m op)"
    by (cases op)
      (auto simp: metrics_ok_def addCalls_def recordAttempt_def RecordHTTPRequest_def RecordRejectedCapacity_def setDegradedGauge_def
        recordReputationEvent_def NewMetrics_def deliveryLabels_def Let_def)
qed

lemma NewMetrics_ok: "metrics_ok (NewMetrics b)"
  by (simp add: metrics_ok_def NewMetrics_def)

lemma NewMetrics_sel [simp]: "am_includeRecipientDomain (NewMetrics b) = b" "am_calls (NewMetrics b) = []"
  by (simp_all add: NewMetrics_def)

lemma labels_never_panic: "list_all (call_ok (am_registered (NewMetrics b))) (am_calls (foldl metrics_step (NewMetrics b) ops))"
proof -
  have "am_includeRecipientDomain (foldl metrics_step m ops) = am_includeRecipientDomain m" for m
  proof (induction ops arbitrary: m)
    case (Cons op ops)
    then show ?case
      by (cases op) (simp_all add: addCalls_def recordAttempt_def RecordHTTPRequest_def RecordRejectedCapacity_def setDegradedGauge_def
          recordReputationEvent_def Let_def)
  qed simp
  then show ?thesis using metrics.run_inv [OF NewMetrics_ok, of b ops] by (auto simp: metrics_ok_def)
qed

end
