(* ===== verification/Statistics.thy ===== *)
theory Statistics
  imports Delivery Prometheus_Metrics Admin_CLI "HOL-Library.List_Lexorder" "HOL-Library.Char_ord" "HOL-Library.Product_Lexorder"
begin

text \<open>
  The statistics of the administration tool, \<^verbatim>\<open>cmdStats\<close> of \<^verbatim>\<open>cmd/strela-admin/main.go\<close>: the figures of its tables, computed from
  the metrics that the service exposes. The layout of the tables and the rounding of the figures are left out.
\<close>

section \<open>The figures\<close>

text \<open>A sample of a metric: its labels and its value, an exact number where the code has a floating-point one.\<close>

record metric =
  me_labels :: "(string \<times> string) list"
  me_value :: rat

definition getLabelValue :: "metric \<Rightarrow> string \<Rightarrow> string" where
  "getLabelValue m name = (case map_of (me_labels m) name of Some v \<Rightarrow> v | None \<Rightarrow> [])"

text \<open>
  Rows sorted by count, highest first. Where the library leaves the order of equal rows open, the model keeps
  the order of the samples.
\<close>

definition outcomeRows :: "metric list \<Rightarrow> (string \<times> rat \<times> rat) list \<times> rat" where
  "outcomeRows ms =
     (let entries = map (\<lambda>m. (getLabelValue m ''outcome'', me_value m)) ms; total = sum_list (map snd entries) in
      (map (\<lambda>(outcome, n). (outcome, n, if total > 0 then n / total * 100 else 0))
         (sort_key (\<lambda>e. - snd e) entries), total))"

record domainStats =
  ds_domain :: string
  ds_total :: rat
  ds_delivered :: rat
  ds_tempFail :: rat
  ds_hardBounce :: rat
  ds_other :: rat

definition countOutcome :: "string \<Rightarrow> rat \<Rightarrow> domainStats \<Rightarrow> domainStats" where
  "countOutcome outcome n ds =
     (let ds1 = ds\<lparr>ds_total := ds_total ds + n\<rparr> in
      if outcome = ''delivered'' then ds1\<lparr>ds_delivered := ds_delivered ds + n\<rparr>
      else if outcome = ''temp_fail'' then ds1\<lparr>ds_tempFail := ds_tempFail ds + n\<rparr>
      else if outcome = ''hard_bounce'' then ds1\<lparr>ds_hardBounce := ds_hardBounce ds + n\<rparr>
      else ds1\<lparr>ds_other := ds_other ds + n\<rparr>)"

definition addSample :: "metric \<Rightarrow> (string \<times> domainStats) list \<Rightarrow> (string \<times> domainStats) list" where
  "addSample m domainMap =
     (let domain = getLabelValue m ''recipient_domain'' in
      if domain = [] then domainMap
      else
        let ds = (case map_of domainMap domain of
                    Some ds \<Rightarrow> ds
                  | None \<Rightarrow> \<lparr>ds_domain = domain, ds_total = 0, ds_delivered = 0, ds_tempFail = 0, ds_hardBounce = 0, ds_other = 0\<rparr>)
        in AList.update domain (countOutcome (getLabelValue m ''outcome'') (me_value m) ds) domainMap)"

text \<open>The first twenty domains, and how many more there are.\<close>

definition domainRows :: "metric list \<Rightarrow> domainStats list \<times> nat" where
  "domainRows ms =
     (let entries = sort_key (\<lambda>ds. - ds_total ds) (map snd (fold addSample ms [])) in
      (take 20 entries, length entries - 20))"

definition ipStatusRows :: "metric list \<Rightarrow> (string \<times> bool) list" where
  "ipStatusRows ms =
     sort_key (\<lambda>(ip, degraded). (\<not> degraded, ip)) (map (\<lambda>m. (getLabelValue m ''source_ip'', me_value m > 0)) ms)"

text \<open>The samples of histograms: how many observations and their sum.\<close>

record histogram =
  hg_labels :: "(string \<times> string) list"
  hg_count :: nat
  hg_sum :: rat

definition histLabel :: "histogram \<Rightarrow> string \<Rightarrow> string" where
  "histLabel h name = (case map_of (hg_labels h) name of Some v \<Rightarrow> v | None \<Rightarrow> [])"

definition averages :: "string list \<Rightarrow> histogram list \<Rightarrow> (string list \<times> nat \<times> rat) list" where
  "averages names hs =
     map (\<lambda>h. (map (histLabel h) names, hg_count h, hg_sum h / of_nat (hg_count h))) (filter (\<lambda>h. hg_count h > 0) hs)"

definition requestRows :: "metric list \<Rightarrow> (string \<times> string \<times> string \<times> rat) list \<times> rat" where
  "requestRows ms =
     (let entries = map (\<lambda>m. (getLabelValue m ''method'', getLabelValue m ''path'', getLabelValue m ''status'', me_value m)) ms in
      (sort_key (\<lambda>(_, _, _, n). - n) entries, sum_list (map (\<lambda>(_, _, _, n). n) entries)))"

definition rejectedRows :: "metric list \<Rightarrow> rat list" where
  "rejectedRows ms = filter (\<lambda>n. n > 0) (map me_value ms)"

definition eventRows :: "metric list \<Rightarrow> (string \<times> string \<times> rat) list" where
  "eventRows ms =
     sort_key (\<lambda>(ip, eventType, _). (ip, eventType))
       (map (\<lambda>m. (getLabelValue m ''source_ip'', getLabelValue m ''event_type'', me_value m)) ms)"

text \<open>What \<open>cmdStats\<close> shows of the families of the scraped metrics; a missing family has no part in it.\<close>

record families =
  fm_metrics :: "string \<Rightarrow> metric list option"
  fm_histograms :: "string \<Rightarrow> histogram list option"

record stats_report =
  sr_active :: "rat list"
  sr_outcomes :: "((string \<times> rat \<times> rat) list \<times> rat) option"
  sr_durations :: "(string list \<times> nat \<times> rat) list"
  sr_domains :: "domainStats list \<times> nat"
  sr_requests :: "((string \<times> string \<times> string \<times> rat) list \<times> rat) option"
  sr_rejected :: "rat list"
  sr_requestDurations :: "(string list \<times> nat \<times> rat) list"
  sr_ips :: "(string \<times> bool) list"
  sr_events :: "(string \<times> string \<times> rat) list"

definition samples :: "families \<Rightarrow> string \<Rightarrow> metric list" where
  "samples f name = (case fm_metrics f name of Some ms \<Rightarrow> ms | None \<Rightarrow> [])"

definition histograms :: "families \<Rightarrow> string \<Rightarrow> histogram list" where
  "histograms f name = (case fm_histograms f name of Some hs \<Rightarrow> hs | None \<Rightarrow> [])"

definition printStats :: "families \<Rightarrow> stats_report" where
  "printStats f =
     (let attempts = samples f ''strela_delivery_attempts_total''; requests = samples f ''strela_http_requests_total'' in
      \<lparr>sr_active = map me_value (samples f ''strela_active_deliveries''),
       sr_outcomes = (if attempts = [] then None else Some (outcomeRows attempts)),
       sr_durations = averages [''outcome''] (histograms f ''strela_delivery_duration_seconds''),
       sr_domains = domainRows attempts,
       sr_requests = (if requests = [] then None else Some (requestRows requests)),
       sr_rejected = rejectedRows (samples f ''strela_http_requests_rejected_capacity_total''),
       sr_requestDurations = averages [''method'', ''path''] (histograms f ''strela_http_request_duration_seconds''),
       sr_ips = ipStatusRows (samples f ''strela_ip_reputation_degraded''),
       sr_events = eventRows (samples f ''strela_ip_reputation_events_total'')\<rparr>)"

text \<open>\<open>decode\<close> is the decoder of the exposition format. The metrics are fetched without credentials.\<close>

definition cmdStats ::
  "(string \<Rightarrow> (string \<times> string) option \<Rightarrow> goerror + int \<times> string) \<Rightarrow> (string \<Rightarrow> goerror + families) \<Rightarrow> string \<Rightarrow> Config option
     \<Rightarrow> goerror + stats_report" where
  "cmdStats http decode serverURL cfg =
     (case httpGetWithAuth http (metricsURL serverURL cfg) [] [] of
        Inl err \<Rightarrow> Inl (wrapErr ''Failed to get metrics: '' err)
      | Inr body \<Rightarrow>
          (case decode body of
             Inl err \<Rightarrow> Inl (wrapErr ''Failed to parse metrics: '' err)
           | Inr fams \<Rightarrow> Inr (printStats fams)))"

section \<open>Rows per domain\<close>

text \<open>The sum of the samples of a domain, and of those with one outcome.\<close>

definition sampleSum :: "(metric \<Rightarrow> bool) \<Rightarrow> metric list \<Rightarrow> rat" where
  "sampleSum P ms = sum_list (map me_value (filter P ms))"

lemma sampleSum_simps [simp]:
  "sampleSum P [] = 0" "sampleSum P (ms @ [m]) = sampleSum P ms + (if P m then me_value m else 0)"
  by (simp_all add: sampleSum_def)

abbreviation of_domain :: "string \<Rightarrow> metric \<Rightarrow> bool" where
  "of_domain domain m \<equiv> getLabelValue m ''recipient_domain'' = domain"

abbreviation with_outcome :: "string \<Rightarrow> string \<Rightarrow> metric \<Rightarrow> bool" where
  "with_outcome domain outcome m \<equiv> of_domain domain m \<and> getLabelValue m ''outcome'' = outcome"

definition row_of :: "string \<Rightarrow> metric list \<Rightarrow> domainStats" where
  "row_of domain ms =
     (let total = sampleSum (of_domain domain) ms; delivered = sampleSum (with_outcome domain ''delivered'') ms;
          tempFail = sampleSum (with_outcome domain ''temp_fail'') ms; hardBounce = sampleSum (with_outcome domain ''hard_bounce'') ms
      in \<lparr>ds_domain = domain, ds_total = total, ds_delivered = delivered, ds_tempFail = tempFail, ds_hardBounce = hardBounce,
          ds_other = total - delivered - tempFail - hardBounce\<rparr>)"

lemma countOutcome_row:
  "of_domain domain m \<Longrightarrow> countOutcome (getLabelValue m ''outcome'') (me_value m) (row_of domain ms) = row_of domain (ms @ [m])"
  by (auto simp: countOutcome_def row_of_def Let_def)

lemma row_of_other: "\<not> of_domain domain m \<Longrightarrow> row_of domain (ms @ [m]) = row_of domain ms"
  by (simp add: row_of_def Let_def)

lemma row_of_none: "\<forall>m \<in> set ms. \<not> of_domain domain m \<Longrightarrow> row_of domain ms = \<lparr>ds_domain = domain, ds_total = 0, ds_delivered = 0,
    ds_tempFail = 0, ds_hardBounce = 0, ds_other = 0\<rparr>"
  by (simp add: row_of_def sampleSum_def filter_False Let_def)

lemma aggregated:
  "map_of (fold addSample ms []) domain =
     (if domain \<noteq> [] \<and> (\<exists>m \<in> set ms. of_domain domain m) then Some (row_of domain ms) else None)"
proof (induction ms rule: rev_induct)
  case (snoc m ms)
  show ?case
  proof (cases "of_domain domain m \<and> domain \<noteq> []")
    case True
    then have "(case map_of (fold addSample ms []) domain of Some ds \<Rightarrow> ds | None \<Rightarrow> \<lparr>ds_domain = domain, ds_total = 0, ds_delivered = 0,
        ds_tempFail = 0, ds_hardBounce = 0, ds_other = 0\<rparr>) = row_of domain ms"
      using snoc row_of_none by (cases "\<exists>m \<in> set ms. of_domain domain m") auto
    with True countOutcome_row [of m domain ms] show ?thesis by (simp add: addSample_def [of m] Let_def update_conv')
  next
    case False
    then show ?thesis using snoc row_of_other [of m domain ms]
      by (auto simp: addSample_def [of m] Let_def update_conv')
  qed
qed simp

text \<open>
  The table of outcomes has a row for every sample. With the recipient domain among the labels an outcome has several
  rows, one for each domain.
\<close>

lemma outcome_listed_per_domain:
  "map fst (fst (outcomeRows [\<lparr>me_labels = [(''outcome'', ''delivered''), (''recipient_domain'', ''a.b'')], me_value = 1\<rparr>,
                              \<lparr>me_labels = [(''outcome'', ''delivered''), (''recipient_domain'', ''c.d'')], me_value = 1\<rparr>]))
     = [''delivered'', ''delivered'']"
  by (simp add: outcomeRows_def getLabelValue_def Let_def)

section \<open>From the engine to the tables\<close>

text \<open>
  The engine records a result, its domain and its duration in milliseconds; \<open>engineCalls\<close> are the updates of the
  Prometheus library that this makes.
\<close>

definition engineCalls :: "bool \<Rightarrow> (string \<times> string \<times> int) list \<Rightarrow> prom_call list" where
  "engineCalls includeDomain entries =
     am_calls (fold (\<lambda>(status, domain, ms). recordAttempt status domain (of_int ms / 1000)) entries (NewMetrics includeDomain))"

text \<open>
  What the library promises of a counter with labels: a sample for every combination of label values that was
  counted, in some order, with the number of its increments.
\<close>

definition increments :: "string \<Rightarrow> prom_call list \<Rightarrow> string list list" where
  "increments name calls = concat (map (\<lambda>c. case c of Inc nm vs \<Rightarrow> if nm = name then [vs] else [] | _ \<Rightarrow> []) calls)"

definition exposes_counter :: "string \<Rightarrow> string list \<Rightarrow> prom_call list \<Rightarrow> metric list \<Rightarrow> bool" where
  "exposes_counter name labels calls ms \<longleftrightarrow>
     (\<exists>vss. distinct vss \<and> set vss = set (increments name calls)
        \<and> ms = map (\<lambda>vs. \<lparr>me_labels = zip labels vs, me_value = of_nat (count_list (increments name calls) vs)\<rparr>) vss)"

lemma of_nat_sum_list: "of_nat (sum_list (map f xs)) = (sum_list (map (\<lambda>x. of_nat (f x)) xs) :: rat)"
  by (induction xs) simp_all

lemma sum_counts:
  assumes "distinct vss" and "set vss = set xs"
  shows "sum_list (map (\<lambda>v. of_nat (count_list xs v)) (filter P vss)) = (of_nat (length (filter P xs)) :: rat)"
proof -
  have "length (filter P xs) = sum (count_list (filter P xs)) (set (filter P xs))" by (rule sum_count_set [symmetric]) simp_all
  also have "\<dots> = sum (count_list xs) (set (filter P vss))"
    using assms(2) by (intro sum.cong) (auto simp: count_list_eq_length_filter intro: arg_cong [where f = length] filter_cong)
  also have "\<dots> = sum_list (map (count_list xs) (filter P vss))" using assms(1) by (simp add: sum_list_distinct_conv_sum_set)
  finally show ?thesis by (simp add: of_nat_sum_list)
qed

lemma engine_increments:
  "increments ''strela_delivery_attempts_total'' (engineCalls True entries) = map (\<lambda>(status, domain, ms). [status, domain]) entries"
proof -
  have "increments ''strela_delivery_attempts_total'' (am_calls (fold (\<lambda>(status, domain, ms). recordAttempt status domain (of_int ms / 1000)) entries m))
      = increments ''strela_delivery_attempts_total'' (am_calls m) @ map (\<lambda>(status, domain, ms). [status, domain]) entries"
    if "am_includeRecipientDomain m" for m
    using that
  proof (induction entries arbitrary: m)
    case (Cons e entries)
    then show ?case
      by (cases e) (simp add: recordAttempt_def addCalls_def increments_def Let_def)
  qed simp
  from this [of "NewMetrics True"] show ?thesis by (simp add: engineCalls_def increments_def)
qed

lemma exposed_sum:
  assumes "exposes_counter name labels calls ms"
  shows "sampleSum P ms = of_nat (length (filter (\<lambda>vs. P \<lparr>me_labels = zip labels vs,
      me_value = of_nat (count_list (increments name calls) vs)\<rparr>) (increments name calls)))"
proof -
  from assms obtain vss where vss: "distinct vss" "set vss = set (increments name calls)"
    and ms: "ms = map (\<lambda>vs. \<lparr>me_labels = zip labels vs, me_value = of_nat (count_list (increments name calls) vs)\<rparr>) vss"
    by (auto simp: exposes_counter_def)
  from sum_counts [OF vss] show ?thesis by (simp add: sampleSum_def ms filter_map comp_def)
qed

lemma exposed_labels:
  assumes "exposes_counter name labels calls ms"
  shows "(\<exists>m \<in> set ms. P (me_labels m)) \<longleftrightarrow> (\<exists>vs \<in> set (increments name calls). P (zip labels vs))"
  using assms by (fastforce simp: exposes_counter_def)

text \<open>The engine after some deliveries, and how many of them went to a domain, and with an outcome.\<close>

definition afterDeliveries :: "(DeliveryResult \<times> string) list \<Rightarrow> Deliverer \<Rightarrow> Deliverer" where
  "afterDeliveries results d = fold (\<lambda>(r, domain). recordMetrics r domain) results (Deliverer_SetMetrics True d)"

definition deliveriesTo :: "(DeliveryResult \<times> string) list \<Rightarrow> string \<Rightarrow> nat" where
  "deliveriesTo results domain = length (filter (\<lambda>x. snd x = domain) results)"

definition deliveriesWith :: "(DeliveryResult \<times> string) list \<Rightarrow> string \<Rightarrow> string \<Rightarrow> nat" where
  "deliveriesWith results domain outcome = length (filter (\<lambda>x. snd x = domain \<and> Status (fst x) = outcome) results)"

lemma afterDeliveries_metrics:
  "d_metrics (afterDeliveries results d) = Some (map (\<lambda>(r, domain). (Status r, domain, AttemptDurationMs r)) results)"
proof -
  have "d_metrics (fold (\<lambda>(r, domain). recordMetrics r domain) results d)
      = map_option (\<lambda>ms. ms @ map (\<lambda>(r, domain). (Status r, domain, AttemptDurationMs r)) results) (d_metrics d)" for d
    by (induction results arbitrary: d) (auto simp: recordMetrics_def option.map_comp comp_def option.map_ident)
  then show ?thesis by (simp add: afterDeliveries_def Deliverer_SetMetrics_def)
qed

section \<open>Property\<close>

text \<open>
  C39. The table of recipient domains tells what the engine did: if the recipient domain is among the labels and the
  metrics library counts as promised, then a domain has a row exactly if a delivery to it was recorded, and
  the row has the numbers of its deliveries, in total and by outcome.
\<close>

theorem stats_match_engine:
  assumes "d_metrics (afterDeliveries results d) = Some entries" and "domain \<noteq> []"
    and "exposes_counter ''strela_delivery_attempts_total'' (deliveryLabels True) (engineCalls True entries) ms"
  shows "case map_of (fold addSample ms []) domain of
      None \<Rightarrow> deliveriesTo results domain = 0
    | Some row \<Rightarrow> deliveriesTo results domain > 0 \<and> ds_domain row = domain
        \<and> ds_total row = of_nat (deliveriesTo results domain)
        \<and> ds_delivered row = of_nat (deliveriesWith results domain ''delivered'')
        \<and> ds_tempFail row = of_nat (deliveriesWith results domain ''temp_fail'')
        \<and> ds_hardBounce row = of_nat (deliveriesWith results domain ''hard_bounce'')
        \<and> ds_total row = ds_delivered row + ds_tempFail row + ds_hardBounce row + ds_other row"
proof -
  have incs: "increments ''strela_delivery_attempts_total'' (engineCalls True entries) = map (\<lambda>x. [Status (fst x), snd x]) results"
    using assms(1) by (auto simp: afterDeliveries_metrics engine_increments)
  note label_simps = getLabelValue_def deliveryLabels_def filter_map comp_def
  have total: "sampleSum (of_domain domain) ms = of_nat (deliveriesTo results domain)"
    by (simp add: exposed_sum [OF assms(3)] incs deliveriesTo_def label_simps)
  have outcome: "sampleSum (with_outcome domain out) ms = of_nat (deliveriesWith results domain out)" for out
    by (simp add: exposed_sum [OF assms(3)] incs deliveriesWith_def label_simps)
  have "(\<exists>m \<in> set ms. of_domain domain m) \<longleftrightarrow> deliveriesTo results domain > 0"
    using exposed_labels [OF assms(3), of "\<lambda>ls. (case map_of ls ''recipient_domain'' of Some v \<Rightarrow> v | None \<Rightarrow> []) = domain"]
    by (auto simp: incs deliveriesTo_def filter_empty_conv label_simps)
  with total outcome assms(2) show ?thesis by (simp add: aggregated row_of_def Let_def)
qed

definition sample_results :: "(DeliveryResult \<times> string) list" where
  "sample_results = [(mkResult ''t'' ''delivered'' [] [] [], ''a.b''), (mkResult ''t'' ''temp_fail'' [] [] [], ''a.b''),
     (mkResult ''t'' ''delivered'' [] [] [], ''c.d'')]"

definition sample_samples :: "metric list" where
  "sample_samples = map (\<lambda>(st, d). \<lparr>me_labels = [(''outcome'', st), (''recipient_domain'', d)], me_value = 1\<rparr>)
     [(''delivered'', ''c.d''), (''temp_fail'', ''a.b''), (''delivered'', ''a.b'')]"

theorem stats_match_engine_witness:
  "exposes_counter ''strela_delivery_attempts_total'' (deliveryLabels True)
     (engineCalls True (the (d_metrics (afterDeliveries sample_results sample_engine)))) sample_samples
   \<and> (\<exists>row. map_of (fold addSample sample_samples []) ''a.b'' = Some row \<and> ds_total row = 2 \<and> ds_delivered row = 1)"
proof -
  obtain entries where entries: "d_metrics (afterDeliveries sample_results sample_engine) = Some entries"
    by (simp add: afterDeliveries_metrics)
  then have incs: "increments ''strela_delivery_attempts_total'' (engineCalls True entries)
      = [[''delivered'', ''a.b''], [''temp_fail'', ''a.b''], [''delivered'', ''c.d'']]"
    by (auto simp: afterDeliveries_metrics engine_increments sample_results_def)
  have exp: "exposes_counter ''strela_delivery_attempts_total'' (deliveryLabels True) (engineCalls True entries) sample_samples"
    unfolding exposes_counter_def incs
    by (rule exI [of _ "[[''delivered'', ''c.d''], [''temp_fail'', ''a.b''], [''delivered'', ''a.b'']]"])
      (auto simp: sample_samples_def deliveryLabels_def)
  have n: "deliveriesTo sample_results ''a.b'' = 2" "deliveriesWith sample_results ''a.b'' ''delivered'' = 1"
    by (simp_all add: deliveriesTo_def deliveriesWith_def sample_results_def)
  from stats_match_engine [OF entries _ exp, of "''a.b''"] n exp entries show ?thesis by (auto split: option.splits)
qed

end
