(* ===== verification/Recovery.thy ===== *)
theory Recovery
  imports Go_Prelude
begin

text \<open>
  Panic recovery, \<^verbatim>\<open>internal/recovery/recovery.go\<close>. Code that may panic is a function on a state with an outcome; a panic
  carries its value, here a text. What is logged is a list of entries.
\<close>

section \<open>Model\<close>

datatype outcome = Returns | Panics string

record log_entry =
  le_message :: string
  le_context :: string
  le_panic :: string

type_synonym 's code = "'s \<Rightarrow> outcome \<times> 's"

text \<open>A deferred recovery after the function: a panic becomes a normal return and an entry in the log.\<close>

definition RecoverPanic :: "string \<Rightarrow> outcome \<Rightarrow> outcome \<times> log_entry list" where
  "RecoverPanic ctx out =
     (case out of
        Returns \<Rightarrow> (Returns, [])
      | Panics r \<Rightarrow> (Returns, [\<lparr>le_message = ''panic recovered'', le_context = ctx, le_panic = r\<rparr>]))"

definition SafeGo :: "string \<Rightarrow> 's code \<Rightarrow> 's \<Rightarrow> (outcome \<times> log_entry list) \<times> 's" where
  "SafeGo ctx fn s = (case fn s of (out, s') \<Rightarrow> (RecoverPanic ctx out, s'))"

definition RecoverPanicWithCallback ::
  "string \<Rightarrow> (string \<Rightarrow> 's code) option \<Rightarrow> outcome \<Rightarrow> 's \<Rightarrow> (outcome \<times> log_entry list) \<times> 's" where
  "RecoverPanicWithCallback ctx onPanic out s =
     (case out of
        Returns \<Rightarrow> ((Returns, []), s)
      | Panics r \<Rightarrow>
          let entry = \<lparr>le_message = ''panic recovered'', le_context = ctx, le_panic = r\<rparr> in
          (case onPanic of
             None \<Rightarrow> ((Returns, [entry]), s)
           | Some f \<Rightarrow>
               (case f r s of
                  (Returns, s') \<Rightarrow> ((Returns, [entry]), s')
                | (Panics r2, s') \<Rightarrow>
                    ((Returns, [entry, \<lparr>le_message = ''panic in panic handler'', le_context = ctx, le_panic = r2\<rparr>]), s'))))"

text \<open>The HTTP variant logs a panic and panics again.\<close>

definition HTTPPanicHandler :: "'s code \<Rightarrow> 's \<Rightarrow> (outcome \<times> log_entry list) \<times> 's" where
  "HTTPPanicHandler next s =
     (case next s of
        (Returns, s') \<Rightarrow> ((Returns, []), s')
      | (Panics r, s') \<Rightarrow>
          ((Panics (''HTTP handler panic: '' @ r),
            [\<lparr>le_message = ''HTTP handler panic recovered'', le_context = [], le_panic = r\<rparr>]), s'))"

section \<open>Containment\<close>

lemma SafeGo_contained:
  "fst (fst (SafeGo ctx fn s)) = Returns \<and> snd (SafeGo ctx fn s) = snd (fn s)
     \<and> (snd (fst (SafeGo ctx fn s)) = [] \<longleftrightarrow> fst (fn s) = Returns)"
  by (simp add: SafeGo_def RecoverPanic_def split: prod.split outcome.split)

lemma callback_contained: "fst (fst (RecoverPanicWithCallback ctx onPanic out s)) = Returns"
  by (simp add: RecoverPanicWithCallback_def Let_def split: prod.split outcome.split option.split)

text \<open>
  The background work of the service is a loop over ticks inside one \<open>SafeGo\<close>. A panic in one round is contained, but
  it ends the loop: the work of all later ticks is lost, since nothing starts the goroutine again.
\<close>

primrec tickLoop :: "('t \<Rightarrow> 's code) \<Rightarrow> 't list \<Rightarrow> 's code" where
  "tickLoop body [] s = (Returns, s)"
| "tickLoop body (t # ts) s = (case body t s of (Returns, s') \<Rightarrow> tickLoop body ts s' | (Panics r, s') \<Rightarrow> (Panics r, s'))"

lemma panic_ends_loop:
  assumes "body t (snd (tickLoop body ts s)) = (Panics r, s')" and "fst (tickLoop body ts s) = Returns"
  shows "SafeGo ctx (tickLoop body (ts @ t # later)) s =
    ((Returns, [\<lparr>le_message = ''panic recovered'', le_context = ctx, le_panic = r\<rparr>]), s')"
proof -
  have "tickLoop body (ts @ t # later) s = (Panics r, s')"
    using assms by (induction ts arbitrary: s) (auto split: prod.splits outcome.splits)
  then show ?thesis by (simp add: SafeGo_def RecoverPanic_def)
qed

end
