(* ===== verification/Spec2Isabelle.thy ===== *)
theory Spec2Isabelle
  imports Config Logging IP_Expansion Error_Classifier IP_Reputation IP_Rotator Connection_Pool MX_Lookup
    Sender_Rewriting LMTP Domain_Limiter Rate_Limiter SMTP_Attempt DKIM ARC Delivery Handler
    Delivery_Result HTTP_Server Cluster Cert_Cache Server_Main Admin_CLI
    Prometheus_Metrics Statistics Recovery
begin

text \<open>
  This library models strela, a service that takes messages over HTTP and delivers them over SMTP or
  LMTP, and proves what its parts and their composition promise. Definitions have the names of the Go
  code under \<^verbatim>\<open>src/\<close>, records its fields and datatypes its constants; each theory opens with the files
  that it translates.

  \<^bold>\<open>The program.\<close> A request comes in through the HTTP server (\<open>HTTP_Server\<close>), which recovers panics, sets
  security headers, limits rate and concurrency (\<open>Rate_Limiter\<close>) and routes it to the delivery API
  (\<open>Handler\<close>). The API authenticates the client, validates the request, composes or takes over the message,
  rewrites the sender (\<open>Sender_Rewriting\<close>) and chooses the signing parameters. It calls the delivery engine
  (\<open>Delivery\<close>), which waits for the limit of the recipient domain (\<open>Domain_Limiter\<close>), signs (\<open>DKIM\<close>, \<open>ARC\<close>),
  resolves the MX hosts (\<open>MX_Lookup\<close> over \<open>DNS_Resolver\<close>), orders the source addresses (\<open>IP_Rotator\<close>) by
  their health (\<open>IP_Reputation\<close>) and makes the attempts (\<open>SMTP_Attempt\<close>, \<open>LMTP\<close>) over pooled connections
  (\<open>Connection_Pool\<close>). Replies are classified (\<open>Error_Classifier\<close>), and the class decides whether another
  address or host is tried and what the client is told. The configuration (\<open>Config\<close>, \<open>IP_Expansion\<close>,
  \<open>Logging\<close>) is loaded, validated and reloaded at run time. TLS certificates are kept in a directory, a bucket
  or both (\<open>Cert_Cache\<close>), written by the elected leader of the cluster (\<open>Cluster\<close>), and maintained by the
  administration tool (\<open>Admin_CLI\<close>). The process (\<open>Server_Main\<close>) starts these parts in order and drains the deliveries
  in progress before it exits. Deliveries and requests are counted (\<open>Prometheus_Metrics\<close>), which the administration
  tool shows (\<open>Statistics\<close>); goroutines run under \<open>Recovery\<close>.

  \<^bold>\<open>Theories and sources.\<close>

  \<^item> \<open>Go_Prelude\<close>, \<open>Go_Net\<close>, \<open>Go_Mime\<close>, \<open>Go_Encoding\<close>, \<open>Go_Crypto\<close>: what the code uses of Go's standard
    library, with the lemmas the components share, the lemma collections \<open>strela_defs\<close> and \<open>strela_inv\<close>, and
    the locale \<open>machine\<close> (a state with operations and an invariant).
  \<^item> \<open>Rotation\<close>, \<open>Limiter_Contract\<close>: contracts that several components keep, a wrapping round-robin counter
    and a token-bucket limiter, as locales.
  \<^item> \<open>Config\<close>: \<^verbatim>\<open>internal/config/config.go\<close>, \<^verbatim>\<open>reload.go\<close>. \<open>Logging\<close>: \<^verbatim>\<open>logger.go\<close>. \<open>IP_Expansion\<close>:
    \<^verbatim>\<open>ip_expansion.go\<close>.
  \<^item> \<open>Error_Classifier\<close>, \<open>IP_Reputation\<close>, \<open>DNS_Resolver\<close>, \<open>MX_Lookup\<close>, \<open>Connection_Pool\<close>: the files of these
    names in \<^verbatim>\<open>internal/delivery\<close> (\<^verbatim>\<open>pool.go\<close> for the last).
  \<^item> \<open>IP_Rotator\<close>, \<open>Domain_Limiter\<close>, \<open>SMTP_Attempt\<close>, \<open>LMTP\<close>, \<open>Delivery\<close>: the parts of
    \<^verbatim>\<open>internal/delivery/delivery.go\<close>, and \<^verbatim>\<open>auth_results.go\<close>. \<open>Delivery_Result\<close> has the lemmas on its results.
  \<^item> \<open>Sender_Rewriting\<close>: \<^verbatim>\<open>internal/srs/srs.go\<close>. \<open>DKIM\<close>: \<^verbatim>\<open>internal/dkim\<close>. \<open>ARC\<close>: \<^verbatim>\<open>internal/arc/arc.go\<close>.
  \<^item> \<open>Handler\<close>: \<^verbatim>\<open>internal/handler/handler_new.go\<close>. \<open>Rate_Limiter\<close>: \<^verbatim>\<open>rate_limiter.go\<close>,
    \<^verbatim>\<open>concurrency_middleware.go\<close>. \<open>HTTP_Server\<close>: the other middleware, the status endpoints and
    \<^verbatim>\<open>cmd/strela-server/main.go\<close> up to the router; \<open>Server_Main\<close>: the rest of it.
  \<^item> \<open>Cluster\<close>: \<^verbatim>\<open>internal/cluster/cluster.go\<close>. \<open>Cert_Cache\<close>: \<^verbatim>\<open>internal/tls\<close>. \<open>Admin_CLI\<close>, \<open>Statistics\<close>:
    \<^verbatim>\<open>cmd/strela-admin/main.go\<close>. \<open>Prometheus_Metrics\<close>: \<^verbatim>\<open>internal/metrics\<close>. \<open>Recovery\<close>: \<^verbatim>\<open>internal/recovery\<close>.

  \<^bold>\<open>How code becomes definitions.\<close> A Go string or byte slice is a \<^typ>\<open>string\<close>; unsigned counters that wrap are
  words of their width; sizes and amounts that stay small are \<^typ>\<open>int\<close> or \<^typ>\<open>nat\<close>; token counts of type
  float64 are rational numbers. Maps whose iteration order or size matters are association lists. Errors are
  values of the type \<open>goerror\<close> with their wrapping, fallible functions return sums, a panic is \<^const>\<open>None\<close>.
  State is passed explicitly; a method under a mutex is one step. Where the code releases the mutex in between
  (the liveness probe of the pool, the shared MX lookups, the certificate synchronisation), the steps are
  given separately and the properties hold for every interleaving. Goroutines on a ticker are one step per
  tick.

  \<^bold>\<open>What is outside\<close> is a parameter: the answers of DNS servers (\<open>query\<close>, \<open>dial\<close>), the SMTP server and client
  library (a script of replies for each attempt, with the point where the connection breaks), the bytes of an
  LMTP connection, the cryptographic and mail libraries, the JSON and TOML decoders, the file system, the S3
  client, the certificate parser, the Prometheus library (the calls are recorded), the gossip library (the view of the members that it shows), random numbers
  and the clock. Nothing is assumed about a parameter unless a theorem names the assumption; contracts that
  components rely on are locales, each interpreted on definitions of the model.

  \<^bold>\<open>Contracts.\<close> \<open>machine\<close> is interpreted for the reputation tracker, the concurrency limit, the delivery engine
  and the server, and for the metrics; \<open>round_robin\<close> for the DNS servers, the source addresses and the rewriting domains; \<open>limiter\<close>
  for the HTTP and the domain limiter; \<open>expiring_cache\<close> for the MX cache; \<open>retry_contract\<close>, the loop over hosts,
  families and addresses, for what is transmitted, for the tracker and for the pool; \<open>cert_store\<close> for the
  bucket, \<open>leader_cache\<close> for the cache of a cluster, which is a \<open>cert_store\<close> again, and \<open>two_tier\<close> for the bucket
  with a local directory before it.

  \<^bold>\<open>What is shown.\<close>

  \<^item> A message is not delivered twice by one request, whatever the servers answer, and the HTTP response says
    whether it can have been delivered (\<open>Delivery\<close>, \<open>Handler\<close>, \<open>LMTP\<close>); the fields of a result fit together
    (\<open>Delivery_Result\<close>).
  \<^item> Every host is tried before a temporary failure is reported; degraded source addresses are used only
    if no other is left; the default source address is used only as configured (\<open>Delivery\<close>).
  \<^item> A pooled connection is in one place at a time under every interleaving, and the engine refines the pool's
    step relation without leaking connections (\<open>Connection_Pool\<close>, \<open>SMTP_Attempt\<close>, \<open>Delivery\<close>).
  \<^item> Addresses are degraded and recovered as documented, and the periodic cleanups do not change answers
    (\<open>IP_Reputation\<close>, \<open>MX_Lookup\<close>).
  \<^item> Round trips: sender rewriting, dot stuffing, composed messages (\<open>Sender_Rewriting\<close>, \<open>LMTP\<close>, \<open>Handler\<close>).
  \<^item> Only authorized, valid requests within the limits reach the engine, and the server keeps the invariants of
    all parts through requests, reloads and cleanups (\<open>Handler\<close>, \<open>HTTP_Server\<close>, \<open>Rate_Limiter\<close>, \<open>Config\<close>).
  \<^item> A shutdown cuts no delivery off and releases everything (\<open>Server_Main\<close>); the log stays open through rotations
    (\<open>Logging\<close>); the statistics are what the engine did (\<open>Statistics\<close>).
  \<^item> Nodes with one view agree on one leader; a stored certificate is not lost; the administration tool removes
    exactly the certificates that are of no use (\<open>Cluster\<close>, \<open>Cert_Cache\<close>, \<open>Admin_CLI\<close>).
  \<^item> Lemmas named in the findings show where the code does something else than it says.

  \<^bold>\<open>Termination and fuel.\<close> The functions are total. The loops of the retry logic recurse over the lists that
  they traverse; \<open>Split\<close>, \<open>ReplaceAll\<close>, \<open>Fields\<close> and the readers of lines have measures on the rest of the
  input; \<open>Reverse\<close> recurses once. Only \<open>getLoop\<close>, the loop of \<open>Get\<close> in the pool, has fuel: one round
  for each pooled connection of the key and one more, which is enough because every round removes a connection;
  \<open>get_verdict\<close> shows that \<open>Get\<close> never ends because the fuel does.

  \<^bold>\<open>Not modelled.\<close> Log output and stack traces; sockets, beyond the address they are bound to; the set-up of the AWS client
  beyond the settings passed to it; the layout of the tables, the rounding of figures and the usage texts of
  \<^verbatim>\<open>cmd/strela-admin\<close>; the formatting of times in the status endpoints. They are input
  and output, or calls of libraries whose code is not part of the repository. Bytes from 128 on are not
  case-mapped and not trimmed as white space, and the rounding of floating-point numbers is left out.
\<close>

end
